theory Spec2Isabelle
  imports Complex_Main
begin

section \<open>Data model of the particle-in-cell kernel (SERIAL/PIC/pic.c)\<close>

text \<open>
  Conventions of the embedding.
  \<^item> A C \<open>double\<close> is a \<^typ>\<open>real\<close>, and NaN and infinities are not represented. The
    arithmetic is exact, except for the column counts of \<open>initializeParticlesGeometric\<close>,
    where every operation is rounded to a double (\<open>to_double\<close>): there the rounding
    decides how many array elements are written.
  \<^item> An \<open>int64_t\<close> is an \<^typ>\<open>int\<close> (no overflow). So is an \<open>int\<close>, except in
    \<open>finish_distribution\<close>, where the product \<open>2*k+1\<close> is reduced to 32 bits
    (\<open>int_32\<close>).
  \<^item> An array is a list; an access outside the array ends the function with \<open>Fault\<close>.
  \<^item> The output of \<open>printf\<close> and the timing are left out, with the counter
    \<open>particle_steps\<close> that only feeds them.
  \<^item> Memory returned by \<open>malloc\<close> is filled with a value \<open>junk\<close> chosen by the caller
    of the model, so that a result which holds for every \<open>junk\<close> does not depend on
    the contents of fresh memory.
\<close>

definition Q :: real where "Q = 1"
definition mass_inv :: real where "mass_inv = 1"
definition epsilon :: real where "epsilon = 1 / 1000000"
definition dt :: real where "dt = 1"
definition SUCCESS :: int where "SUCCESS = 1"
definition FAILURE :: int where "FAILURE = 0"
definition REL_X :: real where "REL_X = 1 / 2"
definition REL_Y :: real where "REL_Y = 1 / 2"

record bbox_t =
  xleft :: int
  xright :: int
  ybottom :: int
  ytop :: int

text \<open>The fields of \<open>particle_t\<close>; each carries the prefix \<open>p_\<close>, since \<open>x\<close>, \<open>y\<close>, \<open>q\<close>,
  \<open>k\<close> and \<open>m\<close> are wanted as variable names.\<close>

record particle_t =
  p_x :: real
  p_y :: real
  p_v_x :: real
  p_v_y :: real
  p_q :: real
  p_x0 :: real
  p_y0 :: real
  p_k :: int
  p_m :: int
  p_initTimestamp :: int

subsection \<open>Library functions of C used by the kernel\<close>

text \<open>The cast \<open>(int64_t) d\<close> of a double: truncation toward zero.\<close>

definition trunc :: "real \<Rightarrow> int" where
  "trunc d = (if 0 \<le> d then \<lfloor>d\<rfloor> else \<lceil>d\<rceil>)"

text \<open>\<open>fmod a b\<close> of \<open>math.h\<close>: \<open>a - n * b\<close> where \<open>n\<close> is \<open>a / b\<close> truncated toward
  zero, so the result has the sign of \<open>a\<close> and a magnitude below that of \<open>b\<close>.\<close>

definition fmod :: "real \<Rightarrow> real \<Rightarrow> real" where
  "fmod a b = a - b * of_int (trunc (a / b))"

text \<open>The rounding of IEEE 754 double precision: to the nearest number with a
  significand of 53 bits, a tie going to the even significand. A double of binary
  exponent \<open>e\<close> (\<open>2\<^sup>e \<le> \<bar>r\<bar> < 2\<^sup>e\<^sup>+\<^sup>1\<close>) is a multiple of \<open>2\<^sup>e\<^sup>-\<^sup>5\<^sup>2\<close>. The range of the exponent
  is taken unbounded: no overflow to infinity and no subnormal numbers.\<close>

definition round_even :: "real \<Rightarrow> int" where
  "round_even r =
     (let f = \<lfloor>r\<rfloor>
      in if r - of_int f < 1/2 then f
         else if r - of_int f > 1/2 then f + 1
         else if even f then f else f + 1)"

definition to_double :: "real \<Rightarrow> real" where
  "to_double r =
     (if r = 0 then 0
      else let e = \<lfloor>log 2 \<bar>r\<bar>\<rfloor>
           in of_int (round_even (r * 2 powi (52 - e))) * 2 powi (e - 52))"

subsection \<open>Abnormal ends, loops and arrays\<close>

text \<open>A function that can end abnormally returns \<open>Inl\<close> of the reason: the process
  called \<open>exit\<close> with a status, or it accessed memory outside an allocated array or
  through \<open>NULL\<close> (undefined behaviour in C).\<close>

datatype error = Exit int | Fault

definition EXIT_FAILURE :: int where "EXIT_FAILURE = 1"

definition bind_r :: "error + 'a \<Rightarrow> ('a \<Rightarrow> error + 'b) \<Rightarrow> error + 'b" where
  "bind_r r f = (case r of Inl e \<Rightarrow> Inl e | Inr v \<Rightarrow> f v)"

text \<open>A \<open>for\<close> loop over the values \<open>as\<close>; the first abnormal end of the body ends the loop.\<close>

primrec for_each :: "('a \<Rightarrow> 's \<Rightarrow> error + 's) \<Rightarrow> 'a list \<Rightarrow> 's \<Rightarrow> error + 's" where
  "for_each body [] s = Inr s"
| "for_each body (a # as) s = bind_r (body a s) (for_each body as)"

definition array_get :: "'a list \<Rightarrow> int \<Rightarrow> error + 'a" where
  "array_get xs i = (if 0 \<le> i \<and> i < int (length xs) then Inr (xs ! nat i) else Inl Fault)"

definition array_set :: "'a list \<Rightarrow> int \<Rightarrow> 'a \<Rightarrow> error + 'a list" where
  "array_set xs i v = (if 0 \<le> i \<and> i < int (length xs) then Inr (xs[nat i := v]) else Inl Fault)"

text \<open>\<open>malloc\<close> of \<open>n\<close> elements: \<open>None\<close> is the \<open>NULL\<close> pointer, returned when the
  request is not available; a fresh block holds \<open>junk\<close>.\<close>

definition malloc :: "(nat \<Rightarrow> bool) \<Rightarrow> 'a \<Rightarrow> int \<Rightarrow> 'a list option" where
  "malloc avail junk n = (if 0 \<le> n \<and> avail (nat n) then Some (replicate (nat n) junk) else None)"

text \<open>\<open>memcpy dst src n\<close> copies the first \<open>n\<close> elements of \<open>src\<close> to the start of \<open>dst\<close>.\<close>

definition memcpy :: "'a list \<Rightarrow> 'a list \<Rightarrow> int \<Rightarrow> error + 'a list" where
  "memcpy dst src n =
     (if 0 \<le> n \<and> n \<le> int (length dst) \<and> n \<le> int (length src)
      then Inr (take (nat n) src @ drop (nat n) dst) else Inl Fault)"

subsection \<open>The grid of charges\<close>

text \<open>The macro \<open>QG(i,j)\<close> is \<open>Qgrid[(j)*(g)+i]\<close>.\<close>

definition QG_index :: "int \<Rightarrow> int \<Rightarrow> int \<Rightarrow> int" where
  "QG_index g i j = j * g + i"

definition QG :: "real list \<Rightarrow> int \<Rightarrow> int \<Rightarrow> int \<Rightarrow> error + real" where
  "QG Qgrid g i j = array_get Qgrid (QG_index g i j)"

definition initializeGrid :: "(nat \<Rightarrow> bool) \<Rightarrow> real \<Rightarrow> int \<Rightarrow> error + real list" where
  "initializeGrid avail junk g =
     (case malloc avail junk (g * g) of
        None \<Rightarrow> Inl (Exit EXIT_FAILURE)
      | Some Qgrid \<Rightarrow>
          for_each (\<lambda>x. for_each (\<lambda>y Qgrid.
              array_set Qgrid (QG_index g y x) (if x mod 2 = 0 then Q else - Q)) [0..g - 1])
            [0..g - 1] Qgrid)"

subsection \<open>Initial particle distributions\<close>

text \<open>\<open>pow\<close> of \<open>math.h\<close>, at the integer exponents the kernel passes: the power, rounded
  to the nearest double. (The C standard does not fix the accuracy of \<open>pow\<close>; current
  libraries return the nearest double except when the exact power lies very close to
  the middle of two doubles.)\<close>

definition pow :: "real \<Rightarrow> int \<Rightarrow> real" where
  "pow b e = to_double (b powi e)"

text \<open>The index \<open>pi\<close> of the source is written \<open>pi'\<close>, since \<open>pi\<close> is the constant
  \<open>M_PI\<close>. The two assignments \<open>particles[pi].x = x; particles[pi].y = y\<close>.\<close>

definition set_xy :: "particle_t list \<Rightarrow> int \<Rightarrow> real \<Rightarrow> real \<Rightarrow> error + particle_t list" where
  "set_xy particles pi' x y =
     bind_r (array_get particles pi') (\<lambda>p. array_set particles pi' (p\<lparr>p_x := x, p_y := y\<rparr>))"

text \<open>\<open>lcg.h\<close> is not among the sources. \<open>LCG_next(bound)\<close> is the parameter \<open>lcg\<close>: from a
  bound and the state of the generator it gives the value drawn and the next state.
  The body shared by the column loops of the first three distributions places one particle
  in column \<open>x\<close> at a drawn row.\<close>

definition place_in_column ::
  "(int \<Rightarrow> 's \<Rightarrow> int \<times> 's) \<Rightarrow> int \<Rightarrow> int \<Rightarrow> particle_t list \<times> int \<times> 's
     \<Rightarrow> error + particle_t list \<times> int \<times> 's" where
  "place_in_column lcg g x st =
     (case st of (particles, pi', s) \<Rightarrow>
        (case lcg (g - 1) s of (r, s') \<Rightarrow>
           bind_r (set_xy particles pi' (of_int x + REL_X) (of_int r + REL_Y))
             (\<lambda>particles. Inr (particles, pi' + 1, s'))))"

definition initializeParticlesGeometric ::
  "(nat \<Rightarrow> bool) \<Rightarrow> particle_t \<Rightarrow> (int \<Rightarrow> 's \<Rightarrow> int \<times> 's) \<Rightarrow> 's \<Rightarrow> int \<Rightarrow> int \<Rightarrow> real
     \<Rightarrow> error + particle_t list \<times> 's" where
  "initializeParticlesGeometric avail junk lcg s n g rho =
     (case malloc avail junk n of
        None \<Rightarrow> Inl (Exit EXIT_FAILURE)
      | Some particles \<Rightarrow>
          (let A = to_double (to_double (of_int n)
                     * to_double (to_double (1 - rho) / to_double (1 - pow rho (g - 1)))) in
           bind_r (for_each (\<lambda>x st.
                      let n_part_column = \<lfloor>to_double (A * pow rho x)\<rfloor> in
                      for_each (\<lambda>p. place_in_column lcg g x) [0..n_part_column - 1] st)
                    [0..g - 2] (particles, 0, s))
             (\<lambda>(particles, pi', s).
                for_each (\<lambda>pi' (particles, s).
                    case lcg (g - 1) s of (r, s') \<Rightarrow>
                      bind_r (set_xy particles pi' REL_X (of_int r + REL_Y))
                        (\<lambda>particles. Inr (particles, s')))
                  [pi'..n - 1] (particles, s))))"

text \<open>The loop that spreads the particles left over across the whole grid, shared by the
  sinusoidal and the linear distribution.\<close>

definition spread_remaining ::
  "(int \<Rightarrow> 's \<Rightarrow> int \<times> 's) \<Rightarrow> int \<Rightarrow> int \<Rightarrow> particle_t list \<times> int \<times> 's
     \<Rightarrow> error + particle_t list \<times> 's" where
  "spread_remaining lcg g n st =
     (case st of (particles, pi', s) \<Rightarrow>
        for_each (\<lambda>pi' (particles, s).
            case lcg (g - 1) s of (rx, s1) \<Rightarrow>
              case lcg (g - 1) s1 of (ry, s2) \<Rightarrow>
                bind_r (set_xy particles pi' (of_int rx + REL_X) (of_int ry + REL_Y))
                  (\<lambda>particles. Inr (particles, s2)))
          [pi'..n - 1] (particles, s))"

definition initializeParticlesSinusoidal ::
  "(nat \<Rightarrow> bool) \<Rightarrow> particle_t \<Rightarrow> (int \<Rightarrow> 's \<Rightarrow> int \<times> 's) \<Rightarrow> 's \<Rightarrow> int \<Rightarrow> int
     \<Rightarrow> error + particle_t list \<times> 's" where
  "initializeParticlesSinusoidal avail junk lcg s n g =
     (case malloc avail junk n of
        None \<Rightarrow> Inl (Exit EXIT_FAILURE)
      | Some particles \<Rightarrow>
          (let step = 2 * pi / of_int (g - 2);
               total_weight = fold (\<lambda>i w. w + (1 + cos (step * of_int i))) [0..g - 2] 0
           in bind_r (for_each (\<lambda>x st.
                        let current_weight = 1 + cos (step * of_int x);
                            n_part_column = \<lfloor>of_int n * current_weight / total_weight\<rfloor>
                        in for_each (\<lambda>p. place_in_column lcg g x) [0..n_part_column - 1] st)
                      [0..g - 2] (particles, 0, s))
                (spread_remaining lcg g n)))"

definition initializeParticlesLinear ::
  "(nat \<Rightarrow> bool) \<Rightarrow> particle_t \<Rightarrow> (int \<Rightarrow> 's \<Rightarrow> int \<times> 's) \<Rightarrow> 's \<Rightarrow> int \<Rightarrow> int \<Rightarrow> int \<Rightarrow> int
     \<Rightarrow> error + particle_t list \<times> 's" where
  "initializeParticlesLinear avail junk lcg s n g alpha beta =
     (case malloc avail junk n of
        None \<Rightarrow> Inl (Exit EXIT_FAILURE)
      | Some particles \<Rightarrow>
          (let step = 1 / (of_int (g - 2) :: real);
               total_weight =
                 fold (\<lambda>i w. w + (of_int beta - of_int alpha * step * of_int i)) [0..g - 2] 0
           in bind_r (for_each (\<lambda>x st.
                        let current_weight = of_int beta - of_int alpha * step * of_int x;
                            n_part_column = \<lfloor>of_int n * current_weight / total_weight\<rfloor>
                        in for_each (\<lambda>p. place_in_column lcg g x) [0..n_part_column - 1] st)
                      [0..g - 2] (particles, 0, s))
                (spread_remaining lcg g n)))"

definition initializeParticlesPatch ::
  "(nat \<Rightarrow> bool) \<Rightarrow> particle_t \<Rightarrow> int \<Rightarrow> int \<Rightarrow> bbox_t \<Rightarrow> error + particle_t list" where
  "initializeParticlesPatch avail junk n g patch =
     (case malloc avail junk n of
        None \<Rightarrow> Inl (Exit EXIT_FAILURE)
      | Some particles \<Rightarrow>
          (let total_cells = (xright patch - xleft patch) * (ytop patch - ybottom patch);
               particles_per_cell = \<lfloor>(1 * of_int n) / (of_int total_cells :: real)\<rfloor>
           in bind_r (for_each (\<lambda>x. for_each (\<lambda>y. for_each (\<lambda>i (particles, pi').
                          bind_r (set_xy particles pi' (of_int x + REL_X) (of_int y + REL_Y))
                            (\<lambda>particles. Inr (particles, pi' + 1)))
                        [0..particles_per_cell - 1]) [ybottom patch..ytop patch - 1])
                      [xleft patch..xright patch - 1] (particles, 0))
                (\<lambda>st. bind_r (for_each (\<lambda>x. for_each (\<lambda>y (particles, pi').
                          if pi' < n
                          then bind_r (set_xy particles pi' (of_int x + REL_X) (of_int y + REL_Y))
                                 (\<lambda>particles. Inr (particles, pi' + 1))
                          else Inr (particles, pi'))
                        [ybottom patch..ytop patch - 1])
                      [xleft patch..xright patch - 1] st)
                   (\<lambda>(particles, pi'). Inr particles))))"

subsection \<open>Injection and completion of a distribution\<close>

text \<open>\<open>inject_particles\<close> returns the new array and the new value of \<open>*n\<close>. Its \<open>malloc\<close> is
  not checked: on \<open>NULL\<close> the copy faults.\<close>

definition inject_particles ::
  "(nat \<Rightarrow> bool) \<Rightarrow> particle_t \<Rightarrow> int \<Rightarrow> bbox_t \<Rightarrow> int \<Rightarrow> int \<Rightarrow> particle_t list
     \<Rightarrow> error + particle_t list \<times> int" where
  "inject_particles avail junk injection_timestep patch particles_per_cell n particles =
     (let total_cells = (xright patch - xleft patch) * (ytop patch - ybottom patch);
          total_injected_particles = total_cells * particles_per_cell;
          new_size = n + total_injected_particles
      in case malloc avail junk new_size of
           None \<Rightarrow> Inl Fault
         | Some new_particles_array \<Rightarrow>
             bind_r (memcpy new_particles_array particles n) (\<lambda>new_particles_array.
             bind_r (for_each (\<lambda>y. for_each (\<lambda>x. for_each (\<lambda>i (new_particles_array, pos).
                        bind_r (set_xy new_particles_array pos (of_int x + REL_X) (of_int y + REL_Y))
                          (\<lambda>new_particles_array. Inr (new_particles_array, pos + 1)))
                      [0..particles_per_cell - 1]) [xleft patch..xright patch - 1])
                    [ybottom patch..ytop patch - 1] (new_particles_array, n))
               (\<lambda>(new_particles_array, pos). Inr (new_particles_array, new_size))))"

text \<open>The parameters \<open>k\<close> and \<open>m\<close> of \<open>finish_distribution\<close> have the type \<open>int\<close>, of 32
  bits, and \<open>2*k+1\<close> is computed in that type before its conversion to \<open>double\<close>.
  \<open>int_32 i\<close> is the value of the type \<open>int\<close> congruent to \<open>i\<close> modulo \<open>2\<^sup>3\<^sup>2\<close>: what the
  arithmetic of the usual targets yields when the exact result \<open>i\<close> is not representable
  (the C standard leaves this overflow undefined).\<close>

definition int_32 :: "int \<Rightarrow> int" where
  "int_32 i = (i + 2147483648) mod 4294967296 - 2147483648"

text \<open>The body of the loop of \<open>finish_distribution\<close>, on one particle.\<close>

definition finish_particle :: "int \<Rightarrow> int \<Rightarrow> int \<Rightarrow> particle_t \<Rightarrow> particle_t" where
  "finish_particle timestep k m p =
     (let x_coord = p_x p;
          y_coord = p_y p;
          rel_x = fmod x_coord 1;
          rel_y = fmod y_coord 1;
          x = trunc x_coord;
          r1_sq = rel_y * rel_y + rel_x * rel_x;
          r2_sq = rel_y * rel_y + (1 - rel_x) * (1 - rel_x);
          cos_theta = rel_x / sqrt r1_sq;
          cos_phi = (1 - rel_x) / sqrt r2_sq;
          charge = 1 / ((dt * dt) * Q * (cos_theta / r1_sq + cos_phi / r2_sq))
      in p\<lparr>p_v_x := 0,
            p_v_y := of_int m / dt,
            p_q := (if x mod 2 = 0 then of_int (int_32 (2 * k + 1)) * charge
                    else - 1 * of_int (int_32 (2 * k + 1)) * charge),
            p_x0 := x_coord,
            p_y0 := y_coord,
            p_k := k,
            p_m := m,
            p_initTimestamp := timestep\<rparr>)"

definition finish_distribution ::
  "int \<Rightarrow> int \<Rightarrow> int \<Rightarrow> int \<Rightarrow> particle_t list \<Rightarrow> error + particle_t list" where
  "finish_distribution timestep k m n particles =
     for_each (\<lambda>pi' particles.
         bind_r (array_get particles pi') (\<lambda>p.
           array_set particles pi' (finish_particle timestep k m p)))
       [0..n - 1] particles"

subsection \<open>Verification and removal\<close>

text \<open>The first part of \<open>verifyParticle\<close>: the pair \<open>(x_periodic, y_periodic)\<close> of the
  positions expected after \<open>current_timestep - p.initTimestamp\<close> steps.\<close>

definition periodic_target ::
  "particle_t \<Rightarrow> int \<Rightarrow> real list \<Rightarrow> int \<Rightarrow> error + real \<times> real" where
  "periodic_target p current_timestep Qgrid g =
     (let total_steps = current_timestep - p_initTimestamp p;
          L = of_int (g - 1);
          y = \<lfloor>p_y0 p\<rfloor>;
          x = \<lfloor>p_x0 p\<rfloor>
      in bind_r (QG Qgrid g y x) (\<lambda>c.
           let x_T = (if p_q p * c > 0
                      then p_x0 p + of_int (total_steps * (2 * p_k p + 1))
                      else p_x0 p - of_int (total_steps * (2 * p_k p + 1)));
               y_T = p_y0 p + of_int (p_m p * total_steps);
               x_periodic = fmod (x_T + of_int (total_steps * (2 * p_k p + 1)) * L) L;
               y_periodic = fmod (y_T + of_int total_steps * \<bar>of_int (p_m p)\<bar> * L) L
           in Inr (x_periodic, y_periodic)))"

definition verifyParticle :: "particle_t \<Rightarrow> int \<Rightarrow> real list \<Rightarrow> int \<Rightarrow> error + int" where
  "verifyParticle p current_timestep Qgrid g =
     bind_r (periodic_target p current_timestep Qgrid g) (\<lambda>(x_periodic, y_periodic).
       if \<bar>p_x p - x_periodic\<bar> > epsilon \<or> \<bar>p_y p - y_periodic\<bar> > epsilon
       then Inr FAILURE else Inr SUCCESS)"

text \<open>The test of \<open>remove_particles\<close> on one particle.\<close>

definition in_patch :: "bbox_t \<Rightarrow> particle_t \<Rightarrow> bool" where
  "in_patch patch p \<longleftrightarrow>
     (let left_boundary = of_int (xleft patch);
          right_boundary = of_int (xright patch);
          top_boundary = of_int (ytop patch);
          bottom_boundary = of_int (ybottom patch)
      in p_x p > left_boundary \<and> p_x p < right_boundary \<and>
         p_y p > bottom_boundary \<and> p_y p < top_boundary)"

text \<open>\<open>remove_particles\<close> returns the new values of \<open>*n\<close> and \<open>*partial_correctness\<close> with
  the array, which it compacts in place.\<close>

definition remove_particles ::
  "int \<Rightarrow> bbox_t \<Rightarrow> int \<Rightarrow> particle_t list \<Rightarrow> int \<Rightarrow> real list \<Rightarrow> int
     \<Rightarrow> error + int \<times> particle_t list \<times> int" where
  "remove_particles removal_timestep patch n particles partial_correctness Qgrid g =
     bind_r (for_each (\<lambda>i (particles, pos, partial_correctness).
                bind_r (array_get particles i) (\<lambda>p.
                  if in_patch patch p
                  then bind_r (verifyParticle p removal_timestep Qgrid g) (\<lambda>v.
                         Inr (particles, pos, partial_correctness * v))
                  else bind_r (array_set particles pos p) (\<lambda>particles.
                         Inr (particles, pos + 1, partial_correctness))))
              [0..n - 1] (particles, 0, partial_correctness))
       (\<lambda>(particles, pos, partial_correctness). Inr (pos, particles, partial_correctness))"

subsection \<open>Force and motion\<close>

definition computeCoulomb :: "real \<Rightarrow> real \<Rightarrow> real \<Rightarrow> real \<Rightarrow> real \<times> real" where
  "computeCoulomb x_dist y_dist q1 q2 =
     (let r2 = x_dist * x_dist + y_dist * y_dist;
          r = sqrt r2;
          f_coulomb = q1 * q2 / r2
      in (f_coulomb * x_dist / r, f_coulomb * y_dist / r))"

definition computeTotalForce :: "particle_t \<Rightarrow> int \<Rightarrow> real list \<Rightarrow> error + real \<times> real" where
  "computeTotalForce p g Qgrid =
     (let y = \<lfloor>p_y p\<rfloor>;
          x = \<lfloor>p_x p\<rfloor>;
          rel_x = p_x p - of_int x;
          rel_y = p_y p - of_int y
      in bind_r (QG Qgrid g y x) (\<lambda>c1.
         bind_r (QG Qgrid g (y + 1) x) (\<lambda>c2.
         bind_r (QG Qgrid g y (x + 1)) (\<lambda>c3.
         bind_r (QG Qgrid g (y + 1) (x + 1)) (\<lambda>c4.
           let (fx1, fy1) = computeCoulomb rel_x rel_y (p_q p) c1;
               (fx2, fy2) = computeCoulomb rel_x (1 - rel_y) (p_q p) c2;
               (fx3, fy3) = computeCoulomb (1 - rel_x) rel_y (p_q p) c3;
               (fx4, fy4) = computeCoulomb (1 - rel_x) (1 - rel_y) (p_q p) c4
           in Inr (0 + fx1 + fx2 - fx3 - fx4, 0 + fy1 - fy2 + fy3 - fy4))))))"

definition moveParticle :: "particle_t \<Rightarrow> real \<Rightarrow> real \<Rightarrow> real \<Rightarrow> particle_t" where
  "moveParticle particle ax ay L =
     particle\<lparr>p_x := fmod (p_x particle + p_v_x particle * dt + 0.5 * ax * dt * dt + L) L,
               p_y := fmod (p_y particle + p_v_y particle * dt + 0.5 * ay * dt * dt + L) L,
               p_v_x := p_v_x particle + ax * dt,
               p_v_y := p_v_y particle + ay * dt\<rparr>"

definition bad_patch :: "bbox_t \<Rightarrow> bbox_t option \<Rightarrow> int" where
  "bad_patch patch patch_contain =
     (if xleft patch \<ge> xright patch \<or> ybottom patch \<ge> ytop patch then 1
      else case patch_contain of
             None \<Rightarrow> 0
           | Some c \<Rightarrow>
               if xleft patch < xleft c \<or> xright patch > xright c then 2
               else if ybottom patch < ybottom c \<or> ytop patch > ytop c then 3
               else 0)"

subsection \<open>The driver \<open>main\<close>\<close>

datatype particle_mode = GEOMETRIC | SINUSOIDAL | LINEAR | PATCH | UNDEFINED

text \<open>The configuration that \<open>main\<close> reads from its arguments into local variables.\<close>

record config =
  cfg_T :: int
  cfg_L :: int
  cfg_n :: int
  cfg_k :: int
  cfg_m :: int
  cfg_mode :: particle_mode
  cfg_rho :: real
  cfg_alpha :: real
  cfg_beta :: real
  init_patch :: bbox_t
  injection_mode :: bool
  particles_per_cell :: int
  injection_timestep :: int
  injection_patch :: bbox_t
  removal_mode :: bool
  removal_timestep :: int
  removal_patch :: bbox_t

text \<open>What a run depends on besides its arguments: the conversions \<open>atol\<close>, \<open>atoi\<close> and
  \<open>atof\<close> of the C library, which requests \<open>malloc\<close> grants, the contents of fresh memory
  and of the local variables before their first assignment, and the generator of
  \<open>lcg.h\<close> with its initial state.\<close>

record 's env =
  atol :: "string \<Rightarrow> int"
  atoi :: "string \<Rightarrow> int"
  atof :: "string \<Rightarrow> real"
  may_alloc :: "nat \<Rightarrow> bool"
  junk_charge :: real
  junk_particle :: particle_t
  uninit :: config
  LCG_next :: "int \<Rightarrow> 's \<Rightarrow> int \<times> 's"
  LCG_seed :: 's

text \<open>\<open>argv[i]\<close> as a string: \<open>argv[argc]\<close> is \<open>NULL\<close>, and nothing lies beyond it.\<close>

definition arg :: "string list \<Rightarrow> int \<Rightarrow> error + string" where
  "arg argv i = array_get argv i"

definition read_patch :: "'s env \<Rightarrow> string list \<Rightarrow> int \<Rightarrow> error + bbox_t" where
  "read_patch env argv i =
     bind_r (arg argv i) (\<lambda>a.
     bind_r (arg argv (i + 1)) (\<lambda>b.
     bind_r (arg argv (i + 2)) (\<lambda>c.
     bind_r (arg argv (i + 3)) (\<lambda>d.
       Inr \<lparr>xleft = atoi env a, xright = atoi env b, ybottom = atoi env c, ytop = atoi env d\<rparr>))))"

text \<open>The four tests of \<open>init_mode\<close>; \<open>args_used\<close> is the index of the next argument.
  The tests exclude each other, so the sequence of \<open>if\<close>s is a chain.\<close>

definition parse_init_mode ::
  "'s env \<Rightarrow> string list \<Rightarrow> string \<Rightarrow> config \<Rightarrow> int \<Rightarrow> error + config \<times> int" where
  "parse_init_mode env argv init_mode c args_used =
     (let argc = int (length argv) in
      if init_mode = ''GEOMETRIC'' then
        if argc < args_used + 1 then Inl (Exit FAILURE)
        else bind_r (arg argv args_used) (\<lambda>a.
               Inr (c\<lparr>cfg_mode := GEOMETRIC, cfg_rho := atof env a\<rparr>, args_used + 1))
      else if init_mode = ''SINUSOIDAL'' then Inr (c\<lparr>cfg_mode := SINUSOIDAL\<rparr>, args_used)
      else if init_mode = ''LINEAR'' then
        if argc < args_used + 2 then Inl (Exit EXIT_FAILURE)
        else bind_r (arg argv args_used) (\<lambda>a.
             bind_r (arg argv (args_used + 1)) (\<lambda>b.
               Inr (c\<lparr>cfg_mode := LINEAR, cfg_alpha := atof env a, cfg_beta := atof env b\<rparr>,
                    args_used + 2)))
      else if init_mode = ''PATCH'' then
        if argc < args_used + 4 then Inl (Exit FAILURE)
        else bind_r (read_patch env argv args_used) (\<lambda>patch.
               if bad_patch patch None \<noteq> 0 then Inl (Exit FAILURE)
               else Inr (c\<lparr>cfg_mode := PATCH, init_patch := patch\<rparr>, args_used + 4))
      else Inr (c, args_used))"

text \<open>The optional clause \<open>INJECTION\<close> or \<open>REMOVAL\<close>; \<open>g\<close> bounds the patch.\<close>

definition parse_population_change ::
  "'s env \<Rightarrow> string list \<Rightarrow> config \<Rightarrow> int \<Rightarrow> int \<Rightarrow> error + config" where
  "parse_population_change env argv c g args_used =
     (let argc = int (length argv);
          grid_patch = \<lparr>xleft = 0, xright = g, ybottom = 0, ytop = g\<rparr>
      in if argc > args_used then
           bind_r (arg argv args_used) (\<lambda>ir_mode.
             let args_used = args_used + 1 in
             if ir_mode = ''INJECTION'' then
               if argc < args_used + 6 then Inl (Exit FAILURE)
               else bind_r (arg argv args_used) (\<lambda>a.
                    if atoi env a < 0 then Inl (Exit FAILURE)
                    else bind_r (arg argv (args_used + 1)) (\<lambda>b.
                    if atoi env b < 0 then Inl (Exit FAILURE)
                    else bind_r (read_patch env argv (args_used + 2)) (\<lambda>patch.
                    if bad_patch patch (Some grid_patch) \<noteq> 0 then Inl (Exit FAILURE)
                    else Inr (c\<lparr>injection_mode := True, particles_per_cell := atoi env a,
                                 injection_timestep := atoi env b, injection_patch := patch\<rparr>))))
             else if ir_mode = ''REMOVAL'' then
               bind_r (arg argv args_used) (\<lambda>a.
               bind_r (read_patch env argv (args_used + 1)) (\<lambda>patch.
                 if bad_patch patch (Some grid_patch) \<noteq> 0 then Inl (Exit FAILURE)
                 else Inr (c\<lparr>removal_mode := True, removal_timestep := atoi env a,
                              removal_patch := patch\<rparr>)))
             else Inr c)
         else Inr c)"

text \<open>The part of \<open>main\<close> that processes and tests the arguments.\<close>

definition parse_args :: "'s env \<Rightarrow> string list \<Rightarrow> error + config" where
  "parse_args env argv =
     (let argc = int (length argv) in
      if argc < 6 then Inl (Exit SUCCESS)
      else bind_r (arg argv 1) (\<lambda>a1.
        let T = atol env a1 in
        if T < 1 then Inl (Exit FAILURE)
        else bind_r (arg argv 2) (\<lambda>a2.
          let L = atol env a2 in
          if L < 1 \<or> L mod 2 \<noteq> 0 then Inl (Exit FAILURE)
          else bind_r (arg argv 3) (\<lambda>a3.
            let g = L + 1; n = atol env a3 in
            if n < 1 then Inl (Exit FAILURE)
            else bind_r (arg argv 4) (\<lambda>a4.
              let k = atoi env a4 in
              if k < 0 then Inl (Exit FAILURE)
              else bind_r (arg argv 5) (\<lambda>a5.
                let m = atoi env a5 in
                bind_r (arg argv 6) (\<lambda>init_mode.
                  let c = (uninit env)\<lparr>cfg_T := T, cfg_L := L, cfg_n := n, cfg_k := k,
                             cfg_m := m, cfg_mode := UNDEFINED, injection_mode := False,
                             removal_mode := False\<rparr>
                  in bind_r (parse_init_mode env argv init_mode c 7) (\<lambda>(c, args_used).
                       if cfg_mode c = UNDEFINED then Inl (Exit FAILURE)
                       else parse_population_change env argv c g args_used))))))))"

text \<open>The loop of \<open>main\<close> that moves every particle by one step.\<close>

definition move_particles ::
  "real list \<Rightarrow> int \<Rightarrow> int \<Rightarrow> int \<Rightarrow> particle_t list \<Rightarrow> error + particle_t list" where
  "move_particles Qgrid g L n particles =
     for_each (\<lambda>i particles.
         bind_r (array_get particles i) (\<lambda>p.
         bind_r (computeTotalForce p g Qgrid) (\<lambda>(fx, fy).
           let ax = fx * mass_inv; ay = fy * mass_inv
           in array_set particles i (moveParticle p ax ay (of_int L)))))
       [0..n - 1] particles"

text \<open>The injection of \<open>main\<close> at step \<open>t\<close>, with the completion of the new slice
  \<open>particles + n_old\<close>.\<close>

definition inject_step ::
  "'s env \<Rightarrow> config \<Rightarrow> int \<Rightarrow> particle_t list \<times> int \<Rightarrow> error + particle_t list \<times> int" where
  "inject_step env c t st =
     (case st of (particles, n) \<Rightarrow>
        let n_old = n in
        bind_r (inject_particles (may_alloc env) (junk_particle env) t (injection_patch c)
                  (particles_per_cell c) n particles) (\<lambda>(particles, n).
        bind_r (finish_distribution t 0 0 (n - n_old) (drop (nat n_old) particles)) (\<lambda>slice.
          Inr (take (nat n_old) particles @ slice, n))))"

text \<open>The body of the simulation loop of \<open>main\<close>, on the array, \<open>n\<close> and
  \<open>partial_correctness\<close>.\<close>

definition time_step ::
  "'s env \<Rightarrow> config \<Rightarrow> real list \<Rightarrow> int \<Rightarrow> int \<Rightarrow> particle_t list \<times> int \<times> int
     \<Rightarrow> error + particle_t list \<times> int \<times> int" where
  "time_step env c Qgrid g t st =
     (case st of (particles, n, partial_correctness) \<Rightarrow>
        bind_r (if injection_mode c \<and> t = injection_timestep c
                then inject_step env c t (particles, n) else Inr (particles, n))
          (\<lambda>(particles, n).
        bind_r (if removal_mode c \<and> t = removal_timestep c
                then bind_r (remove_particles t (removal_patch c) n particles
                               partial_correctness Qgrid g)
                       (\<lambda>(n, particles, partial_correctness).
                          Inr (particles, n, partial_correctness))
                else Inr (particles, n, partial_correctness))
          (\<lambda>(particles, n, partial_correctness).
        bind_r (move_particles Qgrid g (cfg_L c) n particles) (\<lambda>particles.
          Inr (particles, n, partial_correctness)))))"

definition initializeParticles :: "'s env \<Rightarrow> config \<Rightarrow> int \<Rightarrow> error + particle_t list" where
  "initializeParticles env c g =
     (case cfg_mode c of
        GEOMETRIC \<Rightarrow>
          bind_r (initializeParticlesGeometric (may_alloc env) (junk_particle env) (LCG_next env)
                    (LCG_seed env) (cfg_n c) g (cfg_rho c)) (\<lambda>(particles, s). Inr particles)
      | SINUSOIDAL \<Rightarrow>
          bind_r (initializeParticlesSinusoidal (may_alloc env) (junk_particle env) (LCG_next env)
                    (LCG_seed env) (cfg_n c) g) (\<lambda>(particles, s). Inr particles)
      | LINEAR \<Rightarrow>
          bind_r (initializeParticlesLinear (may_alloc env) (junk_particle env) (LCG_next env)
                    (LCG_seed env) (cfg_n c) g (trunc (cfg_alpha c)) (trunc (cfg_beta c)))
            (\<lambda>(particles, s). Inr particles)
      | PATCH \<Rightarrow>
          initializeParticlesPatch (may_alloc env) (junk_particle env) (cfg_n c) g (init_patch c)
      | UNDEFINED \<Rightarrow> Inl (Exit FAILURE))"

text \<open>The part of \<open>main\<close> after the arguments. It gives whether the message is
  \<open>Solution validates\<close>, and the value \<open>main\<close> returns.\<close>

definition simulate :: "'s env \<Rightarrow> config \<Rightarrow> error + bool \<times> int" where
  "simulate env c =
     (let g = cfg_L c + 1 in
      bind_r (initializeGrid (may_alloc env) (junk_charge env) g) (\<lambda>Qgrid.
      bind_r (initializeParticles env c g) (\<lambda>particles.
      bind_r (finish_distribution 0 (cfg_k c) (cfg_m c) (cfg_n c) particles) (\<lambda>particles.
      bind_r (for_each (time_step env c Qgrid g) [0..cfg_T c] (particles, cfg_n c, 1))
        (\<lambda>(particles, n, partial_correctness).
      bind_r (for_each (\<lambda>i correct_simulation.
                 bind_r (array_get particles i) (\<lambda>p.
                 bind_r (verifyParticle p (cfg_T c + 1) Qgrid g) (\<lambda>v.
                   Inr (correct_simulation * v))))
               [0..n - 1] partial_correctness) (\<lambda>correct_simulation.
        Inr (correct_simulation \<noteq> 0, 0)))))))"

definition main :: "'s env \<Rightarrow> string list \<Rightarrow> error + bool \<times> int" where
  "main env argv = bind_r (parse_args env argv) (simulate env)"

text \<open>The status with which the process ends: the argument of \<open>exit\<close> or the value
  returned by \<open>main\<close>; none when the run faults.\<close>

definition exit_status :: "error + bool \<times> int \<Rightarrow> int option" where
  "exit_status r = (case r of Inl (Exit st) \<Rightarrow> Some st | Inl Fault \<Rightarrow> None | Inr (v, st) \<Rightarrow> Some st)"

section \<open>Notions used in the statements and invariants\<close>

text \<open>The charge of the grid points of column \<open>x\<close>.\<close>

definition charge_col :: "int \<Rightarrow> real" where
  "charge_col x = (if x mod 2 = 0 then Q else - Q)"

text \<open>The invariant of the loops of \<open>initializeGrid\<close>: the array has \<open>g * g\<close> elements, and
  the points visited before \<open>(x, y)\<close> hold the charge of their column.\<close>

definition grid_inv :: "int \<Rightarrow> int \<Rightarrow> int \<Rightarrow> real list \<Rightarrow> bool" where
  "grid_inv g x y Qgrid \<longleftrightarrow>
     int (length Qgrid) = g * g \<and>
     (\<forall>x' y'. 0 \<le> x' \<and> 0 \<le> y' \<and> y' < g \<and> (x' < x \<or> x' = x \<and> y' < y)
        \<longrightarrow> Qgrid ! nat (x' * g + y') = charge_col x')"

text \<open>The magnitude of the charge in the words of the specification: with \<open>r1\<close> and \<open>r2\<close>
  the distances to the two charges on the row of the particle,
  \<open>1 / (dt\<^sup>2 * Q * (relx / r1\<^sup>3 + (1 - relx) / r2\<^sup>3))\<close>.\<close>

definition spec_charge_magnitude :: "real \<Rightarrow> real \<Rightarrow> real" where
  "spec_charge_magnitude relx rely =
     (let r1 = sqrt (relx\<^sup>2 + rely\<^sup>2); r2 = sqrt ((1 - relx)\<^sup>2 + rely\<^sup>2)
      in 1 / (dt\<^sup>2 * Q * (relx / r1 ^ 3 + (1 - relx) / r2 ^ 3)))"

text \<open>The results of \<open>verifyParticle\<close> at step \<open>t\<close> on the particles \<open>ps\<close>.\<close>

definition verdicts :: "int \<Rightarrow> real list \<Rightarrow> int \<Rightarrow> particle_t list \<Rightarrow> int list" where
  "verdicts t Qgrid g ps = map (\<lambda>p. case verifyParticle p t Qgrid g of Inr v \<Rightarrow> v | Inl e \<Rightarrow> 0) ps"

text \<open>The grid of side \<open>g = 3\<close> (\<open>L = 2\<close>), and a particle at rest created at \<open>(x, y)\<close> at
  step 0 with \<open>k = m = 0\<close>; both are used to instantiate statements.\<close>

definition grid3 :: "real list" where
  "grid3 = [1, 1, 1, - 1, - 1, - 1, 1, 1, 1]"

definition resting :: "real \<Rightarrow> real \<Rightarrow> particle_t" where
  "resting x y = \<lparr>p_x = x, p_y = y, p_v_x = 0, p_v_y = 0, p_q = 1, p_x0 = x, p_y0 = y,
                   p_k = 0, p_m = 0, p_initTimestamp = 0\<rparr>"

text \<open>The invariant of the loop of \<open>remove_particles\<close> before index \<open>i\<close>: the first
  \<open>pos\<close> elements are the particles kept so far, in order; the elements from \<open>i\<close> on are
  untouched; the flag has been multiplied by the verdicts of the particles removed so far.\<close>

definition remove_inv ::
  "bbox_t \<Rightarrow> int \<Rightarrow> real list \<Rightarrow> int \<Rightarrow> particle_t list \<Rightarrow> int \<Rightarrow> int
     \<Rightarrow> particle_t list \<times> int \<times> int \<Rightarrow> bool" where
  "remove_inv patch t Qgrid g ps pc0 i st \<longleftrightarrow>
     (case st of (arr, pos, pc) \<Rightarrow>
        length arr = length ps \<and>
        pos = int (length (filter (\<lambda>p. \<not> in_patch patch p) (take (nat i) ps))) \<and>
        take (nat pos) arr = filter (\<lambda>p. \<not> in_patch patch p) (take (nat i) ps) \<and>
        drop (nat i) arr = drop (nat i) ps \<and>
        pc = pc0 * prod_list (verdicts t Qgrid g (filter (in_patch patch) (take (nat i) ps))))"

text \<open>A configuration, conversions for a few argument strings and an environment in which
  every allocation succeeds; they are used to instantiate statements.\<close>

definition config0 :: config where
  "config0 = \<lparr>cfg_T = 0, cfg_L = 0, cfg_n = 0, cfg_k = 0, cfg_m = 0, cfg_mode = UNDEFINED,
               cfg_rho = 0, cfg_alpha = 0, cfg_beta = 0,
               init_patch = \<lparr>xleft = 0, xright = 0, ybottom = 0, ytop = 0\<rparr>,
               injection_mode = False, particles_per_cell = 0, injection_timestep = 0,
               injection_patch = \<lparr>xleft = 0, xright = 0, ybottom = 0, ytop = 0\<rparr>,
               removal_mode = False, removal_timestep = 0,
               removal_patch = \<lparr>xleft = 0, xright = 0, ybottom = 0, ytop = 0\<rparr>\<rparr>"

definition test_atoi :: "string \<Rightarrow> int" where
  "test_atoi s = (if s = ''1'' then 1 else if s = ''2'' then 2 else if s = ''-3'' then - 3 else 0)"

definition test_env :: "unit env" where
  "test_env = \<lparr>atol = test_atoi, atoi = test_atoi, atof = (\<lambda>s. 0), may_alloc = (\<lambda>n. True),
                junk_charge = 0, junk_particle = resting 0 0, uninit = config0,
                LCG_next = (\<lambda>bound s. (0, s)), LCG_seed = ()\<rparr>"

text \<open>The particle lies at the offset \<open>(REL_X, REL_Y)\<close> of a cell of the patch.\<close>

definition centred :: "bbox_t \<Rightarrow> particle_t \<Rightarrow> bool" where
  "centred patch p \<longleftrightarrow>
     (let cx = \<lfloor>p_x p\<rfloor>; cy = \<lfloor>p_y p\<rfloor>
      in xleft patch \<le> cx \<and> cx < xright patch \<and> ybottom patch \<le> cy \<and> cy < ytop patch \<and>
         p_x p = of_int cx + REL_X \<and> p_y p = of_int cy + REL_Y)"

text \<open>The cells of a patch are visited row by row, and \<open>c\<close> particles are placed in each:
  the new particle of rank \<open>r\<close> (counted from 0) lies in the cell of rank \<open>r div c\<close>.\<close>

definition cell_of_rank :: "bbox_t \<Rightarrow> int \<Rightarrow> int \<Rightarrow> int \<times> int" where
  "cell_of_rank patch c r =
     (xleft patch + (r div c) mod (xright patch - xleft patch),
      ybottom patch + (r div c) div (xright patch - xleft patch))"

definition in_cell_order :: "bbox_t \<Rightarrow> int \<Rightarrow> int \<Rightarrow> particle_t list \<Rightarrow> int \<Rightarrow> bool" where
  "in_cell_order patch c n arr pos \<longleftrightarrow>
     (\<forall>j. n \<le> j \<and> j < pos \<longrightarrow>
        p_x (arr ! nat j) = of_int (fst (cell_of_rank patch c (j - n))) + REL_X \<and>
        p_y (arr ! nat j) = of_int (snd (cell_of_rank patch c (j - n))) + REL_Y)"

text \<open>The particle that an injection at step \<open>t\<close> leaves at rank \<open>r\<close>: at the centre of its
  cell, at rest, with \<open>k = m = 0\<close> and the charge of magnitude
  \<open>spec_charge_magnitude (1/2) (1/2)\<close>, that is \<open>(2 * 0 + 1) * sqrt (1/2) / 2\<close>, positive in
  a column of even index.\<close>

definition injected :: "bbox_t \<Rightarrow> int \<Rightarrow> int \<Rightarrow> int \<Rightarrow> particle_t" where
  "injected patch c t r =
     (case cell_of_rank patch c r of (cx, cy) \<Rightarrow>
        \<lparr>p_x = of_int cx + 1/2, p_y = of_int cy + 1/2, p_v_x = 0, p_v_y = 0,
         p_q = (if even cx then 1 else - 1) * spec_charge_magnitude (1/2) (1/2),
         p_x0 = of_int cx + 1/2, p_y0 = of_int cy + 1/2, p_k = 0, p_m = 0,
         p_initTimestamp = t\<rparr>)"

text \<open>The invariant of the loops of \<open>inject_particles\<close> before the \<open>i\<close>-th particle of
  cell \<open>(x, y)\<close>: the array has \<open>N\<close> elements, \<open>pos\<close> counts the cells and particles
  already visited, the old particles are in place and each new one lies in a cell of the
  patch, the one of its rank.\<close>

definition inject_inv ::
  "bbox_t \<Rightarrow> int \<Rightarrow> int \<Rightarrow> particle_t list \<Rightarrow> int \<Rightarrow> int \<Rightarrow> int \<Rightarrow> int
     \<Rightarrow> particle_t list \<times> int \<Rightarrow> bool" where
  "inject_inv patch c n particles N y x i st \<longleftrightarrow>
     (case st of (arr, pos) \<Rightarrow>
        int (length arr) = N \<and>
        pos = n + ((y - ybottom patch) * (xright patch - xleft patch) + (x - xleft patch)) * c + i \<and>
        take (nat n) arr = take (nat n) particles \<and>
        (\<forall>j. n \<le> j \<and> j < pos \<longrightarrow> centred patch (arr ! nat j)) \<and>
        in_cell_order patch c n arr pos)"

text \<open>The factor \<open>A\<close> of the geometric distribution and the number of particles of
  column \<open>x\<close>, as \<open>initializeParticlesGeometric\<close> computes them in doubles, and the number
  of particles that its column loop places before column \<open>x\<close>.\<close>

definition geometric_A :: "int \<Rightarrow> int \<Rightarrow> real \<Rightarrow> real" where
  "geometric_A n g rho =
     to_double (to_double (of_int n)
       * to_double (to_double (1 - rho) / to_double (1 - pow rho (g - 1))))"

definition column_count :: "int \<Rightarrow> int \<Rightarrow> real \<Rightarrow> int \<Rightarrow> int" where
  "column_count n g rho x = \<lfloor>to_double (geometric_A n g rho * pow rho x)\<rfloor>"

definition placed_before :: "int \<Rightarrow> int \<Rightarrow> real \<Rightarrow> int \<Rightarrow> int" where
  "placed_before n g rho x = (\<Sum>x' \<in> {0..<x}. column_count n g rho x')"

text \<open>The same factor and counts in exact arithmetic, as the comment of the source
  describes them: \<open>p(i) = A * rho^i\<close>.\<close>

definition exact_A :: "int \<Rightarrow> int \<Rightarrow> real \<Rightarrow> real" where
  "exact_A n g rho = of_int n * ((1 - rho) / (1 - rho powi (g - 1)))"

definition exact_count :: "int \<Rightarrow> int \<Rightarrow> real \<Rightarrow> int \<Rightarrow> int" where
  "exact_count n g rho x = \<lfloor>exact_A n g rho * rho powi x\<rfloor>"

text \<open>The attenuation factor that \<open>atof\<close> returns for the argument \<open>1.000000008\<close>: the
  nearest double, \<open>1 + 36028797 / 2\<^sup>5\<^sup>2\<close>.\<close>

definition rho_8 :: real where
  "rho_8 = 4503599663399293 / 4503599627370496"

text \<open>The particle has been placed by an initial distribution: it lies at the offset
  \<open>(REL_X, REL_Y)\<close> of a cell in one of the columns \<open>0, \<dots>, g - 2\<close>.\<close>

definition placed :: "int \<Rightarrow> particle_t \<Rightarrow> bool" where
  "placed g q \<longleftrightarrow>
     (let col = \<lfloor>p_x q\<rfloor>
      in 0 \<le> col \<and> col < g - 1 \<and> p_x q = of_int col + REL_X \<and>
         p_y q = of_int \<lfloor>p_y q\<rfloor> + REL_Y)"

text \<open>The invariants of the loops of \<open>initializeParticlesGeometric\<close>: the array has \<open>n\<close>
  elements and the particles before the index \<open>pi\<close> have been placed.\<close>

definition geometric_inv :: "int \<Rightarrow> int \<Rightarrow> int \<Rightarrow> particle_t list \<times> int \<times> 's \<Rightarrow> bool" where
  "geometric_inv g n count st \<longleftrightarrow>
     (case st of (particles, pi', s) \<Rightarrow>
        int (length particles) = n \<and> pi' = count \<and>
        (\<forall>j. 0 \<le> j \<and> j < pi' \<longrightarrow> placed g (particles ! nat j)))"

definition remaining_inv :: "int \<Rightarrow> int \<Rightarrow> int \<Rightarrow> particle_t list \<times> 's \<Rightarrow> bool" where
  "remaining_inv g n pi' st \<longleftrightarrow>
     (case st of (particles, s) \<Rightarrow>
        int (length particles) = n \<and>
        (\<forall>j. 0 \<le> j \<and> j < pi' \<longrightarrow> placed g (particles ! nat j)))"

text \<open>One pass of the loop of \<open>main\<close> that moves the particles, on one particle: the
  force on it, then \<open>moveParticle\<close> with that force as acceleration.\<close>

definition advance :: "real list \<Rightarrow> int \<Rightarrow> int \<Rightarrow> particle_t \<Rightarrow> error + particle_t" where
  "advance Qgrid g L p =
     bind_r (computeTotalForce p g Qgrid) (\<lambda>(fx, fy).
       let ax = fx * mass_inv; ay = fy * mass_inv
       in Inr (moveParticle p ax ay (of_int L)))"

text \<open>\<open>j\<close> such steps in a row.\<close>

primrec evolve :: "real list \<Rightarrow> int \<Rightarrow> int \<Rightarrow> nat \<Rightarrow> particle_t \<Rightarrow> error + particle_t" where
  "evolve Qgrid g L 0 p = Inr p"
| "evolve Qgrid g L (Suc j) p = bind_r (advance Qgrid g L p) (evolve Qgrid g L j)"

text \<open>The arguments of a run with \<open>T = 1\<close>, \<open>L = 2\<close>, one particle in the cell
  \<open>(0, 0)\<close>, \<open>k = 0\<close> and the vertical velocity \<open>m\<close>; the configuration read from them; and
  the states of that particle.\<close>

definition run_args :: "string \<Rightarrow> string list" where
  "run_args m = [''pic'', ''1'', ''2'', ''1'', ''0'', m, ''PATCH'', ''0'', ''1'', ''0'', ''1'']"

definition run_config :: "int \<Rightarrow> config" where
  "run_config m = config0\<lparr>cfg_T := 1, cfg_L := 2, cfg_n := 1, cfg_m := m, cfg_mode := PATCH,
                    init_patch := \<lparr>xleft = 0, xright = 1, ybottom = 0, ytop = 1\<rparr>\<rparr>"

definition moving :: "real \<Rightarrow> real \<Rightarrow> real \<Rightarrow> int \<Rightarrow> particle_t" where
  "moving x y vx m = \<lparr>p_x = x, p_y = y, p_v_x = vx, p_v_y = of_int m, p_q = sqrt (1/2) / 2,
                      p_x0 = 1/2, p_y0 = 1/2, p_k = 0, p_m = m, p_initTimestamp = 0\<rparr>"

text \<open>The result is not a call of \<open>exit\<close>.\<close>

definition no_exit :: "error + 'a \<Rightarrow> bool" where
  "no_exit r \<longleftrightarrow> (\<forall>st. r \<noteq> Inl (Exit st))"

text \<open>The environment in which every allocation fails.\<close>

definition no_memory_env :: "unit env" where
  "no_memory_env = test_env\<lparr>may_alloc := \<lambda>n. False\<rparr>"

text \<open>The grid holds the dipole pattern: at \<open>QG(y,x)\<close> the charge of column \<open>x\<close>.\<close>

definition dipole_grid :: "int \<Rightarrow> real list \<Rightarrow> bool" where
  "dipole_grid g Qgrid \<longleftrightarrow>
     (\<forall>x y. 0 \<le> x \<and> x < g \<and> 0 \<le> y \<and> y < g \<longrightarrow> QG Qgrid g y x = Inr (charge_col x))"

text \<open>The state after \<open>j\<close> steps of a particle created at step \<open>t0\<close> at the centre of the
  cell \<open>(cx, cy)\<close> with the parameters \<open>k\<close> and \<open>m\<close>: it has drifted by \<open>2 k + 1\<close> cells
  per step along \<open>x\<close> and \<open>m\<close> cells per step along \<open>y\<close>, modulo \<open>L\<close>, and its
  horizontal velocity alternates between \<open>0\<close> and \<open>2 (2 k + 1)\<close>.\<close>

definition on_track :: "int \<Rightarrow> int \<Rightarrow> int \<Rightarrow> int \<Rightarrow> int \<Rightarrow> int \<Rightarrow> nat \<Rightarrow> particle_t \<Rightarrow> bool" where
  "on_track L cx cy k m t0 j p \<longleftrightarrow>
     p_x p = of_int ((cx + int j * (2 * k + 1)) mod L) + 1/2 \<and>
     p_y p = of_int ((cy + int j * m) mod L) + 1/2 \<and>
     p_v_x p = (if even j then 0 else 2 * of_int (2 * k + 1)) \<and>
     p_v_y p = of_int m \<and>
     p_q p = charge_col cx * of_int (2 * k + 1) * (sqrt (1/2) / 2) \<and>
     p_x0 p = of_int cx + 1/2 \<and> p_y0 p = of_int cy + 1/2 \<and>
     p_k p = k \<and> p_m p = m \<and> p_initTimestamp p = t0"

section \<open>Properties\<close>

subsection \<open>Loops\<close>

lemma bind_r_simps [simp]: "bind_r (Inl e) f = Inl e" "bind_r (Inr v) f = f v"
  by (simp_all add: bind_r_def)

lemma bind_r_eq_Inr: "bind_r r f = Inr v \<longleftrightarrow> (\<exists>a. r = Inr a \<and> f a = Inr v)"
  by (cases r) simp_all

text \<open>The invariant rule for a counting loop.\<close>

lemma for_each_upto_inv:
  assumes step: "\<And>i s. a \<le> i \<Longrightarrow> i \<le> b \<Longrightarrow> I i s \<Longrightarrow> \<exists>s'. body i s = Inr s' \<and> I (i + 1) s'"
  shows "a \<le> b + 1 \<Longrightarrow> I a s \<Longrightarrow> \<exists>s'. for_each body [a..b] s = Inr s' \<and> I (b + 1) s'"
  using step
proof (induction a b arbitrary: s rule: upto.induct)
  case (1 i j)
  show ?case
  proof (cases "i \<le> j")
    case True
    from 1(4)[of i s] True 1(3) obtain s1 where s1: "body i s = Inr s1" "I (i + 1) s1"
      by auto
    have "\<exists>s'. for_each body [i + 1..j] s1 = Inr s' \<and> I (j + 1) s'"
      using 1(1)[OF True _ s1(2)] True 1(4) by auto
    then show ?thesis using True s1 by (simp add: upto_rec1)
  next
    case False
    with 1(2) have "i = j + 1" by simp
    then show ?thesis using 1(3) by simp
  qed
qed

subsection \<open>The grid\<close>

lemma grid_index_bound: "0 \<le> x \<Longrightarrow> 0 \<le> y \<Longrightarrow> y < g \<Longrightarrow> x < g \<Longrightarrow> x * g + y < g * g"
  for x y g :: int
proof -
  assume a: "0 \<le> x" "0 \<le> y" "y < g" "x < g"
  have "x * g + y < x * g + g" using a by simp
  also have "\<dots> = (x + 1) * g" by (simp add: algebra_simps)
  also have "\<dots> \<le> g * g" using a by (intro mult_right_mono) auto
  finally show ?thesis .
qed

lemma grid_index_inj:
  "0 \<le> y \<Longrightarrow> y < g \<Longrightarrow> 0 \<le> y' \<Longrightarrow> y' < g \<Longrightarrow> x * g + y = x' * g + y' \<Longrightarrow> x = x' \<and> y = y'"
  for x y g :: int
proof -
  assume a: "0 \<le> y" "y < g" "0 \<le> y'" "y' < g" "x * g + y = x' * g + y'"
  have g0: "g \<noteq> 0" using a by auto
  have "(x * g + y) div g = x"
    using a(1-4) g0 by (simp add: div_mult_self3 div_pos_pos_trivial)
  moreover have "(x' * g + y') div g = x'"
    using a(1-4) g0 by (simp add: div_mult_self3 div_pos_pos_trivial)
  ultimately have "x = x'" using a(5) by simp
  then show ?thesis using a(5) by simp
qed

lemma initializeGrid_column:
  assumes "0 \<le> x" "x < g" "grid_inv g x 0 Qgrid"
  shows "\<exists>G. for_each (\<lambda>y Qgrid. array_set Qgrid (QG_index g y x)
                 (if x mod 2 = 0 then Q else - Q)) [0..g - 1] Qgrid = Inr G
             \<and> grid_inv g x (g - 1 + 1) G"
proof (rule for_each_upto_inv[where I = "grid_inv g x"])
  show "0 \<le> g - 1 + 1" using assms by simp
  show "grid_inv g x 0 Qgrid" by fact
next
  fix i s assume h: "0 \<le> i" "i \<le> g - 1" "grid_inv g x i s"
  have len: "int (length s) = g * g" using h by (simp add: grid_inv_def)
  have lt: "x * g + i < g * g" using grid_index_bound[of x i g] assms h by simp
  have ge: "0 \<le> x * g + i" using assms h by simp
  have "grid_inv g x (i + 1) (s[nat (x * g + i) := charge_col x])"
    unfolding grid_inv_def
  proof (intro conjI allI impI)
    show "int (length (s[nat (x * g + i) := charge_col x])) = g * g" using len by simp
  next
    fix x' y'
    assume c: "0 \<le> x' \<and> 0 \<le> y' \<and> y' < g \<and> (x' < x \<or> x' = x \<and> y' < i + 1)"
    show "s[nat (x * g + i) := charge_col x] ! nat (x' * g + y') = charge_col x'"
    proof (cases "x' = x \<and> y' = i")
      case True
      then show ?thesis using len lt ge by (simp add: nat_less_iff)
    next
      case False
      have ne: "x * g + i \<noteq> x' * g + y'"
        using grid_index_inj[of i g y' x x'] h c False by auto
      have ge': "0 \<le> x' * g + y'" using c assms by simp
      have "nat (x * g + i) \<noteq> nat (x' * g + y')" using ne ge ge' by simp
      moreover have "s ! nat (x' * g + y') = charge_col x'"
        using h(3) c False unfolding grid_inv_def by auto
      ultimately show ?thesis by simp
    qed
  qed
  then show "\<exists>s'. array_set s (QG_index g i x) (if x mod 2 = 0 then Q else - Q) = Inr s'
               \<and> grid_inv g x (i + 1) s'"
    using len lt ge by (simp add: array_set_def QG_index_def charge_col_def)
qed

lemma initializeGrid_loops:
  assumes "0 \<le> g" "int (length Qgrid) = g * g"
  shows "\<exists>G. for_each (\<lambda>x. for_each (\<lambda>y Qgrid. array_set Qgrid (QG_index g y x)
                 (if x mod 2 = 0 then Q else - Q)) [0..g - 1]) [0..g - 1] Qgrid = Inr G
             \<and> grid_inv g (g - 1 + 1) 0 G"
proof (rule for_each_upto_inv[where I = "\<lambda>x. grid_inv g x 0"])
  show "0 \<le> g - 1 + 1" using assms by simp
  show "grid_inv g 0 0 Qgrid" using assms by (auto simp: grid_inv_def)
next
  fix i s assume h: "0 \<le> i" "i \<le> g - 1" "grid_inv g i 0 s"
  from initializeGrid_column[of i g s] h obtain G
    where G: "for_each (\<lambda>y Qgrid. array_set Qgrid (QG_index g y i)
                (if i mod 2 = 0 then Q else - Q)) [0..g - 1] s = Inr G" "grid_inv g i g G"
    by auto
  have "grid_inv g (i + 1) 0 G" using G(2) unfolding grid_inv_def by (auto simp: less_le)
  with G(1) show "\<exists>s'. for_each (\<lambda>y Qgrid. array_set Qgrid (QG_index g y i)
                (if i mod 2 = 0 then Q else - Q)) [0..g - 1] s = Inr s' \<and> grid_inv g (i + 1) 0 s'"
    by auto
qed

text \<open>What \<open>initializeGrid\<close> builds when the allocation succeeds: an array of \<open>g * g\<close>
  charges in which \<open>QG(y,x)\<close> is the charge of column \<open>x\<close>.\<close>

lemma initializeGrid_result:
  assumes "0 \<le> g" "avail (nat (g * g))"
  shows "\<exists>Qgrid. initializeGrid avail junk g = Inr Qgrid \<and> int (length Qgrid) = g * g \<and>
           (\<forall>x y. 0 \<le> x \<and> x < g \<and> 0 \<le> y \<and> y < g \<longrightarrow> QG Qgrid g y x = Inr (charge_col x))"
proof -
  have m: "malloc avail junk (g * g) = Some (replicate (nat (g * g)) junk)"
    using assms by (simp add: malloc_def)
  have len: "int (length (replicate (nat (g * g)) junk)) = g * g" using assms by simp
  from initializeGrid_loops[OF assms(1) len] obtain G
    where G: "initializeGrid avail junk g = Inr G" "grid_inv g g 0 G"
    by (auto simp: initializeGrid_def m)
  have "QG G g y x = Inr (charge_col x)" if "0 \<le> x" "x < g" "0 \<le> y" "y < g" for x y
  proof -
    have "x * g + y < g * g" using grid_index_bound[of x y g] that by simp
    moreover have "0 \<le> x * g + y" using that by simp
    moreover have "G ! nat (x * g + y) = charge_col x"
      using G(2) that unfolding grid_inv_def by auto
    ultimately show ?thesis
      using G(2) by (simp add: QG_def QG_index_def array_get_def grid_inv_def)
  qed
  then show ?thesis using G by (auto simp: grid_inv_def)
qed

text \<open>
  C8. For every even \<open>L \<ge> 2\<close> with \<open>g = L + 1\<close> and every grid point \<open>(x, y)\<close> with
  \<open>0 \<le> x < g\<close> and \<open>0 \<le> y < g\<close>, the grid built by \<open>initializeGrid\<close> (when its allocation
  succeeds) stores, at \<open>QG(y,x)\<close>, the charge \<open>+Q\<close> if \<open>x\<close> is even and \<open>-Q\<close> if \<open>x\<close> is odd,
  whatever \<open>y\<close> is.
\<close>

theorem initializeGrid_parity:
  assumes "2 \<le> L" "even L" "g = L + 1" "avail (nat (g * g))"
    and "0 \<le> x" "x < g" "0 \<le> y" "y < g"
  shows "\<exists>Qgrid. initializeGrid avail junk g = Inr Qgrid \<and>
           QG Qgrid g y x = Inr (if even x then Q else - Q)"
proof -
  have "0 \<le> g" using assms by simp
  from initializeGrid_result[of g avail junk] this assms(4-8)
  show ?thesis by (auto simp: charge_col_def even_iff_mod_2_eq_zero)
qed

theorem initializeGrid_parity_witness:
  "\<exists>Qgrid. initializeGrid (\<lambda>n. True) 0 3 = Inr Qgrid \<and> QG Qgrid 3 2 1 = Inr (- Q)"
  using initializeGrid_parity[of 2 3 "\<lambda>n. True" 1 2 0] by simp

subsection \<open>Completion of a distribution\<close>

text \<open>A loop that rewrites the elements of an array one by one.\<close>

lemma for_each_pointwise:
  assumes body: "\<And>i s. 0 \<le> i \<Longrightarrow> i < n \<Longrightarrow> length s = length xs \<Longrightarrow> s ! nat i = xs ! nat i
                   \<Longrightarrow> body i s = Inr (s[nat i := h (xs ! nat i)])"
    and n: "0 \<le> n" "n \<le> int (length xs)"
  shows "for_each body [0..n - 1] xs = Inr (map h (take (nat n) xs) @ drop (nat n) xs)"
proof -
  let ?I = "\<lambda>i s. s = map h (take (nat i) xs) @ drop (nat i) xs"
  have "\<exists>s'. for_each body [0..n - 1] xs = Inr s' \<and> ?I (n - 1 + 1) s'"
  proof (rule for_each_upto_inv[where I = ?I])
    show "0 \<le> n - 1 + 1" using n by simp
    show "?I 0 xs" by simp
  next
    fix i s assume h: "0 \<le> i" "i \<le> n - 1" "?I i s"
    have il: "nat i < length xs" using h n by simp
    have len: "length s = length xs" using h(3) il by simp
    have nth: "s ! nat i = xs ! nat i" using h(3) il by (simp add: nth_append)
    have b: "body i s = Inr (s[nat i := h (xs ! nat i)])"
      using body[OF h(1) _ len nth] h(2) by simp
    have "nat (i + 1) = Suc (nat i)" using h by simp
    then have "s[nat i := h (xs ! nat i)] = map h (take (nat (i + 1)) xs) @ drop (nat (i + 1)) xs"
      using h(3) il
      by (simp add: take_Suc_conv_app_nth list_update_append Cons_nth_drop_Suc[symmetric])
    with b show "\<exists>s'. body i s = Inr s' \<and> ?I (i + 1) s'" by simp
  qed
  then show ?thesis by simp
qed

lemma finish_distribution_result:
  assumes "0 \<le> n" "n \<le> int (length particles)"
  shows "finish_distribution timestep k m n particles
           = Inr (map (finish_particle timestep k m) (take (nat n) particles) @ drop (nat n) particles)"
  unfolding finish_distribution_def
  by (rule for_each_pointwise) (use assms in \<open>simp_all add: array_get_def array_set_def\<close>)

lemma sqrt_cube: "0 \<le> a \<Longrightarrow> sqrt a * a = sqrt a ^ 3"
  by (simp add: power3_eq_cube)

lemma int_32_id: "- 2147483648 \<le> i \<Longrightarrow> i < 2147483648 \<Longrightarrow> int_32 i = i"
  by (simp add: int_32_def)

text \<open>Beyond \<open>k = 2\<^sup>3\<^sup>0 - 1\<close> the factor \<open>2*k+1\<close> is not representable.\<close>

lemma int_32_overflow: "int_32 (2 * 1073741824 + 1) = - 2147483647"
  by (simp add: int_32_def)

lemma finish_particle_charge:
  "p_q (finish_particle timestep k m p) =
     (if trunc (p_x p) mod 2 = 0 then 1 else - 1) * of_int (int_32 (2 * k + 1))
       * spec_charge_magnitude (fmod (p_x p) 1) (fmod (p_y p) 1)"
proof -
  define rx where "rx = fmod (p_x p) 1"
  define ry where "ry = fmod (p_y p) 1"
  have 1: "rx / (sqrt (ry * ry + rx * rx) * (ry * ry + rx * rx)) = rx / sqrt (rx\<^sup>2 + ry\<^sup>2) ^ 3"
    using sqrt_cube[of "rx\<^sup>2 + ry\<^sup>2"] by (simp add: power2_eq_square add.commute)
  have 2: "(1 - rx) / (sqrt (ry * ry + (1 - rx) * (1 - rx)) * (ry * ry + (1 - rx) * (1 - rx)))
             = (1 - rx) / sqrt ((1 - rx)\<^sup>2 + ry\<^sup>2) ^ 3"
    using sqrt_cube[of "(1 - rx)\<^sup>2 + ry\<^sup>2"] by (simp add: power2_eq_square add.commute)
  show ?thesis
    unfolding finish_particle_def spec_charge_magnitude_def Let_def rx_def[symmetric] ry_def[symmetric]
    by (simp add: 1 2 dt_def)
qed



lemma spec_charge_magnitude_half: "spec_charge_magnitude (1/2) (1/2) = sqrt (1/2) / 2"
proof -
  have s: "sqrt (1/2) ^ 3 = sqrt (1/2) * (1/2)" using sqrt_cube[of "1/2"] by simp
  have "sqrt (1/2) \<noteq> 0" by simp
  then show ?thesis
    unfolding spec_charge_magnitude_def Let_def
    by (simp add: power2_eq_square dt_def Q_def s)
qed

lemma fmod_half: "fmod (1/2) 1 = 1/2"
  by (simp add: fmod_def trunc_def)

lemma trunc_half: "trunc (1/2) = 0"
  by (simp add: trunc_def)

lemma finish_particle_eq:
  "finish_particle timestep k m p =
     p\<lparr>p_v_x := 0, p_v_y := of_int m / dt,
       p_q := (if trunc (p_x p) mod 2 = 0 then 1 else - 1) * of_int (int_32 (2 * k + 1))
                * spec_charge_magnitude (fmod (p_x p) 1) (fmod (p_y p) 1),
       p_x0 := p_x p, p_y0 := p_y p, p_k := k, p_m := m, p_initTimestamp := timestep\<rparr>"
proof -
  have "p_q (finish_particle timestep k m p) = (if trunc (p_x p) mod 2 = 0 then 1 else - 1) * of_int (int_32 (2 * k + 1))
                * spec_charge_magnitude (fmod (p_x p) 1) (fmod (p_y p) 1)"
    by (rule finish_particle_charge)
  then show ?thesis
    by (simp add: finish_particle_def Let_def)
qed

lemma fmod_one:
  assumes "0 \<le> d"
  shows "fmod d 1 = d - of_int \<lfloor>d\<rfloor>"
  using assms by (simp add: fmod_def trunc_def)

text \<open>
  C3 (amended). For every particle processed by \<open>finish_distribution\<close> with a drift index
  \<open>- 2\<^sup>3\<^sup>0 \<le> k < 2\<^sup>3\<^sup>0\<close> (the values for which \<open>2 * k + 1\<close> is representable in the type \<open>int\<close>
  of the parameter), with \<open>(relx, rely)\<close>
  its fractional offset within its cell and \<open>\<lfloor>x\<rfloor>\<close> its column, the assigned charge is \<open>2 * k + 1\<close> times
  \<open>1 / (dt\<^sup>2 * Q * (relx / r1\<^sup>3 + (1 - relx) / r2\<^sup>3))\<close>, taken positive in a column of even
  index and negative in a column of odd index; the assigned velocity is \<open>(0, m / dt)\<close>; the
  fields \<open>x0\<close>, \<open>y0\<close>, \<open>k\<close>, \<open>m\<close> and \<open>initTimestamp\<close> record the position, the
  drift parameters and the given time step; the position is unchanged. The particle is
  taken at non-negative coordinates, where \<open>fmod\<close> gives the offset within the cell, and
  off the grid points, where the quotients of the source are defined.
\<close>

theorem finish_distribution_fields:
  assumes "0 \<le> i" "i < n" "n \<le> int (length particles)"
    and "0 \<le> p_x (particles ! nat i)" "0 \<le> p_y (particles ! nat i)"
    and "p_x (particles ! nat i) \<noteq> of_int \<lfloor>p_x (particles ! nat i)\<rfloor> \<or>
         p_y (particles ! nat i) \<noteq> of_int \<lfloor>p_y (particles ! nat i)\<rfloor>"
    and "- 1073741824 \<le> k" "k < 1073741824"
  shows "\<exists>ps. finish_distribution timestep k m n particles = Inr ps \<and>
           (let p = particles ! nat i; p' = ps ! nat i;
                relx = p_x p - of_int \<lfloor>p_x p\<rfloor>; rely = p_y p - of_int \<lfloor>p_y p\<rfloor>
            in p_q p' = (if even \<lfloor>p_x p\<rfloor> then 1 else - 1) * of_int (2 * k + 1)
                          * spec_charge_magnitude relx rely \<and>
               p_v_x p' = 0 \<and> p_v_y p' = of_int m / dt \<and>
               p_x0 p' = p_x p \<and> p_y0 p' = p_y p \<and> p_k p' = k \<and> p_m p' = m \<and>
               p_initTimestamp p' = timestep \<and> p_x p' = p_x p \<and> p_y p' = p_y p)"
proof -
  have n0: "0 \<le> n" using assms by simp
  have il: "nat i < nat n" "nat i < length particles" using assms by simp_all
  have nth: "(map (finish_particle timestep k m) (take (nat n) particles) @ drop (nat n) particles) ! nat i
               = finish_particle timestep k m (particles ! nat i)"
    using il by (simp add: nth_append)
  have tr: "trunc (p_x (particles ! nat i)) = \<lfloor>p_x (particles ! nat i)\<rfloor>"
    using assms(4) by (simp add: trunc_def)
  have k: "int_32 (2 * k + 1) = 2 * k + 1"
    using assms(7,8) by (intro int_32_id) simp_all
  have q: "p_q (finish_particle timestep k m (particles ! nat i))
             = (if even \<lfloor>p_x (particles ! nat i)\<rfloor> then 1 else - 1) * of_int (2 * k + 1)
                 * spec_charge_magnitude
                     (p_x (particles ! nat i) - of_int \<lfloor>p_x (particles ! nat i)\<rfloor>)
                     (p_y (particles ! nat i) - of_int \<lfloor>p_y (particles ! nat i)\<rfloor>)"
    unfolding finish_particle_charge tr fmod_one[OF assms(4)] fmod_one[OF assms(5)] k
    by (simp add: even_iff_mod_2_eq_zero)
  have rest: "p_v_x (finish_particle timestep k m p) = 0"
    "p_v_y (finish_particle timestep k m p) = of_int m / dt"
    "p_x0 (finish_particle timestep k m p) = p_x p"
    "p_y0 (finish_particle timestep k m p) = p_y p"
    "p_k (finish_particle timestep k m p) = k"
    "p_m (finish_particle timestep k m p) = m"
    "p_initTimestamp (finish_particle timestep k m p) = timestep"
    "p_x (finish_particle timestep k m p) = p_x p"
    "p_y (finish_particle timestep k m p) = p_y p" for p
    by (simp_all add: finish_particle_def Let_def)
  show ?thesis
    unfolding finish_distribution_result[OF n0 assms(3)] Let_def
    by (simp only: nth q rest sum.inject simp_thms ex_simps)
qed

theorem finish_distribution_fields_witness:
  "\<exists>ps. finish_distribution 5 1 2 1
          [\<lparr>p_x = 1/2, p_y = 1/2, p_v_x = 7, p_v_y = 7, p_q = 7, p_x0 = 7, p_y0 = 7, p_k = 7,
            p_m = 7, p_initTimestamp = 7\<rparr>] = Inr ps \<and>
        p_q (ps ! 0) = 3 * (sqrt (1/2) / 2) \<and> p_v_x (ps ! 0) = 0 \<and> p_v_y (ps ! 0) = 2 \<and>
        p_x0 (ps ! 0) = 1/2 \<and> p_y0 (ps ! 0) = 1/2 \<and> p_k (ps ! 0) = 1 \<and> p_m (ps ! 0) = 2 \<and>
        p_initTimestamp (ps ! 0) = 5"
  using finish_distribution_fields[where i = 0 and n = 1 and timestep = 5 and k = 1 and m = 2
      and particles = "[\<lparr>p_x = 1/2, p_y = 1/2, p_v_x = 7, p_v_y = 7, p_q = 7,
      p_x0 = 7, p_y0 = 7, p_k = 7, p_m = 7, p_initTimestamp = 7\<rparr>]"]
  by (simp add: spec_charge_magnitude_half dt_def Let_def) blast

text \<open>The claim C3 as stated gives the magnitude without the factor \<open>2 * k + 1\<close>; with
  \<open>k = 1\<close> the charge assigned at the centre of a cell is three times that.\<close>

theorem finish_distribution_charge_counterexample:
  "finish_distribution 0 1 0 1
      [\<lparr>p_x = 1/2, p_y = 1/2, p_v_x = 0, p_v_y = 0, p_q = 0, p_x0 = 0, p_y0 = 0, p_k = 0,
        p_m = 0, p_initTimestamp = 0\<rparr>]
     = Inr [\<lparr>p_x = 1/2, p_y = 1/2, p_v_x = 0, p_v_y = 0, p_q = 3 * (sqrt (1/2) / 2),
             p_x0 = 1/2, p_y0 = 1/2, p_k = 1, p_m = 0, p_initTimestamp = 0\<rparr>] \<and>
   \<bar>3 * (sqrt (1/2) / 2)\<bar> \<noteq> spec_charge_magnitude (fmod (1/2) 1) (fmod (1/2) 1)"
proof -
  have "sqrt (1/2) \<noteq> 0" by simp
  then show ?thesis
    by (simp add: finish_distribution_result finish_particle_eq fmod_half trunc_half
        spec_charge_magnitude_half abs_mult dt_def int_32_def)
qed

subsection \<open>The remainder \<open>fmod\<close>\<close>

lemma trunc_of_nonneg: "0 \<le> d \<Longrightarrow> trunc d = \<lfloor>d\<rfloor>"
  by (simp add: trunc_def)

lemma trunc_of_neg: "d < 0 \<Longrightarrow> trunc d = \<lceil>d\<rceil>"
  by (simp add: trunc_def)

lemma fmod_unique_nonneg:
  assumes "0 < b" "0 \<le> r" "r < b" "0 \<le> n"
  shows "fmod (of_int n * b + r) b = r"
proof -
  have d: "(of_int n * b + r) / b = of_int n + r / b" using assms by (simp add: field_simps)
  have "0 \<le> r / b" "r / b < 1" using assms by simp_all
  then have f: "\<lfloor>of_int n + r / b\<rfloor> = n" by (simp add: floor_unique)
  have "0 \<le> of_int n + r / b" using assms by simp
  then show ?thesis by (simp add: fmod_def d trunc_of_nonneg f)
qed

lemma fmod_unique_nonpos:
  assumes "0 < b" "r \<le> 0" "- b < r" "n \<le> 0"
  shows "fmod (of_int n * b + r) b = r"
proof (cases "n = 0 \<and> r = 0")
  case True
  then show ?thesis by (simp add: fmod_def trunc_def)
next
  case False
  have d: "(of_int n * b + r) / b = of_int n + r / b" using assms by (simp add: field_simps)
  have rb: "r / b \<le> 0" "- 1 < r / b" using assms by (simp_all add: field_simps)
  then have f: "\<lceil>of_int n + r / b\<rceil> = n" by (intro ceiling_unique) auto
  have "of_int n + r / b < 0"
  proof (cases "n = 0")
    case True
    with False have "r < 0" using assms by simp
    then have "r / b < 0" using assms by (simp add: field_simps)
    with True show ?thesis by simp
  next
    case False
    then have "n \<le> - 1" using assms by simp
    then have "real_of_int n \<le> - 1" by linarith
    then show ?thesis using rb by linarith
  qed
  then show ?thesis by (simp add: fmod_def d trunc_of_neg f)
qed

lemma fmod_nonneg_range:
  assumes "0 \<le> a" "0 < b"
  shows "0 \<le> fmod a b \<and> fmod a b < b"
proof -
  have q: "0 \<le> a / b" using assms by simp
  have 1: "of_int \<lfloor>a / b\<rfloor> \<le> a / b" by simp
  have 2: "a / b < of_int \<lfloor>a / b\<rfloor> + 1" by linarith
  have "of_int \<lfloor>a / b\<rfloor> * b \<le> a" using 1 assms(2) by (simp only: pos_le_divide_eq)
  moreover have "a < (of_int \<lfloor>a / b\<rfloor> + 1) * b"
    using 2 assms(2) by (simp only: pos_divide_less_eq)
  ultimately show ?thesis using q by (simp add: fmod_def trunc_def algebra_simps)
qed

text \<open>At the centre of a cell of non-negative index.\<close>

lemma fmod_unit_cell:
  assumes "0 \<le> a"
  shows "fmod (of_int a + 1/2) 1 = 1/2"
  using fmod_unique_nonneg[of 1 "1/2" a] assms by simp

lemma trunc_cell:
  assumes "0 \<le> a"
  shows "trunc (of_int a + 1/2) = a"
proof -
  have "\<lfloor>real_of_int a + 1/2\<rfloor> = a" by (simp add: floor_unique)
  then show ?thesis using assms by (simp add: trunc_def)
qed

subsection \<open>Motion of one particle\<close>

text \<open>The update of \<open>moveParticle\<close>, with \<open>dt = 1\<close>.\<close>

lemma moveParticle_fields:
  "p_x (moveParticle p ax ay L) = fmod (p_x p + p_v_x p * dt + 0.5 * ax * dt * dt + L) L"
  "p_y (moveParticle p ax ay L) = fmod (p_y p + p_v_y p * dt + 0.5 * ay * dt * dt + L) L"
  "p_v_x (moveParticle p ax ay L) = p_v_x p + ax * dt"
  "p_v_y (moveParticle p ax ay L) = p_v_y p + ay * dt"
  "p_q (moveParticle p ax ay L) = p_q p"
  "p_x0 (moveParticle p ax ay L) = p_x0 p"
  "p_y0 (moveParticle p ax ay L) = p_y0 p"
  "p_k (moveParticle p ax ay L) = p_k p"
  "p_m (moveParticle p ax ay L) = p_m p"
  "p_initTimestamp (moveParticle p ax ay L) = p_initTimestamp p"
  by (simp_all add: moveParticle_def)

text \<open>A displaced coordinate of at least \<open>- L\<close> is brought into \<open>[0, L)\<close>.\<close>

lemma moveParticle_in_domain:
  assumes "0 < L"
    and "0 \<le> p_x p + p_v_x p * dt + 0.5 * ax * dt * dt + L"
    and "0 \<le> p_y p + p_v_y p * dt + 0.5 * ay * dt * dt + L"
  shows "0 \<le> p_x (moveParticle p ax ay L) \<and> p_x (moveParticle p ax ay L) < L \<and>
         0 \<le> p_y (moveParticle p ax ay L) \<and> p_y (moveParticle p ax ay L) < L"
  using fmod_nonneg_range[OF assms(2) assms(1)] fmod_nonneg_range[OF assms(3) assms(1)]
  by (simp add: moveParticle_fields)

text \<open>
  C4. \<open>moveParticle\<close> sets \<open>x' = fmod (x + v_x dt + 0.5 ax dt\<^sup>2 + L) L\<close> and the same for
  \<open>y\<close>, then \<open>v_x' = v_x + ax dt\<close> and \<open>v_y' = v_y + ay dt\<close>, with \<open>dt = 1\<close>
  (\<open>moveParticle_fields\<close>). The \<open>L\<close> added before the remainder is meant to bring a negative
  displaced coordinate back into \<open>[0, L)\<close> (the comment of the source: ``taking into
  account periodic boundaries''), and it does so for a displaced coordinate of at least
  \<open>- L\<close> (\<open>moveParticle_in_domain\<close>). Below \<open>- L\<close> it does not, since \<open>fmod\<close> keeps the
  sign of its first argument: with \<open>L = 2\<close>, the particle at \<open>(1/2, 1/2)\<close> with the velocity
  \<open>(0, - 3)\<close> and no acceleration is moved to the ordinate \<open>fmod (- 1/2) 2 = - 1/2\<close>, outside
  \<open>[0, L)\<close>, where the periodic image of \<open>1/2 - 3\<close> is \<open>3/2\<close>. This is the state of the
  particle of the run \<open>pic 1 2 1 0 -3 PATCH 0 1 0 1\<close> at its first move.
\<close>

theorem moveParticle_leaves_domain:
  "moveParticle \<lparr>p_x = 1/2, p_y = 1/2, p_v_x = 0, p_v_y = - 3, p_q = 1, p_x0 = 1/2, p_y0 = 1/2,
       p_k = 0, p_m = - 3, p_initTimestamp = 0\<rparr> 0 0 2
     = \<lparr>p_x = 1/2, p_y = - 1/2, p_v_x = 0, p_v_y = - 3, p_q = 1, p_x0 = 1/2, p_y0 = 1/2,
        p_k = 0, p_m = - 3, p_initTimestamp = 0\<rparr> \<and>
   \<not> 0 \<le> p_y (moveParticle \<lparr>p_x = 1/2, p_y = 1/2, p_v_x = 0, p_v_y = - 3, p_q = 1,
       p_x0 = 1/2, p_y0 = 1/2, p_k = 0, p_m = - 3, p_initTimestamp = 0\<rparr> 0 0 2)"
  using fmod_unique_nonpos[of 2 "- 1/2" 0] fmod_unique_nonneg[of 2 "1/2" 1]
  by (simp add: moveParticle_def dt_def)

subsection \<open>Verification of one particle\<close>





subsection \<open>Removal\<close>

lemma remove_particles_loop:
  assumes n: "0 \<le> n" "n \<le> int (length ps)"
    and v: "\<forall>p \<in> set (take (nat n) ps). in_patch patch p \<longrightarrow> (\<exists>v. verifyParticle p t Qgrid g = Inr v)"
  shows "\<exists>st. for_each (\<lambda>i (particles, pos, partial_correctness).
                bind_r (array_get particles i) (\<lambda>p.
                  if in_patch patch p
                  then bind_r (verifyParticle p t Qgrid g) (\<lambda>v.
                         Inr (particles, pos, partial_correctness * v))
                  else bind_r (array_set particles pos p) (\<lambda>particles.
                         Inr (particles, pos + 1, partial_correctness))))
              [0..n - 1] (ps, 0, pc0) = Inr st \<and> remove_inv patch t Qgrid g ps pc0 (n - 1 + 1) st"
proof (rule for_each_upto_inv[where I = "remove_inv patch t Qgrid g ps pc0"])
  show "0 \<le> n - 1 + 1" using n by simp
  show "remove_inv patch t Qgrid g ps pc0 0 (ps, 0, pc0)"
    by (simp add: remove_inv_def verdicts_def)
next
  fix i st assume h: "0 \<le> i" "i \<le> n - 1" "remove_inv patch t Qgrid g ps pc0 i st"
  obtain arr pos pc where st: "st = (arr, pos, pc)" by (cases st)
  let ?keep = "\<lambda>p. \<not> in_patch patch p"
  let ?kept = "filter ?keep (take (nat i) ps)"
  have il: "nat i < length ps" using h n by simp
  have len: "length arr = length ps"
    and pos: "pos = int (length ?kept)"
    and tk: "take (nat pos) arr = ?kept"
    and dr: "drop (nat i) arr = drop (nat i) ps"
    and pc: "pc = pc0 * prod_list (verdicts t Qgrid g (filter (in_patch patch) (take (nat i) ps)))"
    using h(3) unfolding st remove_inv_def by auto
  have nth: "arr ! nat i = ps ! nat i"
    using dr il len by (metis Cons_nth_drop_Suc list.inject)
  have get: "array_get arr i = Inr (ps ! nat i)"
    using h(1) il len nth by (simp add: array_get_def)
  have suc: "nat (i + 1) = Suc (nat i)" using h by simp
  have tk1: "take (Suc (nat i)) ps = take (nat i) ps @ [ps ! nat i]"
    using il by (simp add: take_Suc_conv_app_nth)
  have dr1: "drop (Suc (nat i)) arr = drop (Suc (nat i)) ps"
    using dr by (metis drop_Suc tl_drop)
  have posle: "nat pos \<le> nat i" using pos by (simp add: le_trans[OF length_filter_le])
  show "\<exists>s'. (case st of (particles, pos, partial_correctness) \<Rightarrow>
                bind_r (array_get particles i) (\<lambda>p.
                  if in_patch patch p
                  then bind_r (verifyParticle p t Qgrid g) (\<lambda>v.
                         Inr (particles, pos, partial_correctness * v))
                  else bind_r (array_set particles pos p) (\<lambda>particles.
                         Inr (particles, pos + 1, partial_correctness)))) = Inr s'
             \<and> remove_inv patch t Qgrid g ps pc0 (i + 1) s'"
  proof (cases "in_patch patch (ps ! nat i)")
    case True
    have "ps ! nat i \<in> set (take (nat n) ps)"
      using il h n by (auto simp: in_set_conv_nth intro!: exI[of _ "nat i"])
    with v True obtain w where w: "verifyParticle (ps ! nat i) t Qgrid g = Inr w" by blast
    have "remove_inv patch t Qgrid g ps pc0 (i + 1) (arr, pos, pc * w)"
      unfolding remove_inv_def using True len pos tk dr pc w
      by (simp add: suc tk1 dr1 verdicts_def)
    then show ?thesis using True w by (simp add: st get)
  next
    case False
    have pl: "nat pos < length arr" using posle il len by simp
    have set: "array_set arr pos (ps ! nat i) = Inr (arr[nat pos := ps ! nat i])"
      using pl pos by (simp add: array_set_def)
    have sp: "nat (pos + 1) = Suc (nat pos)" using pos by simp
    have a: "take (Suc (nat pos)) (arr[nat pos := ps ! nat i]) = ?kept @ [ps ! nat i]"
      using pl tk by (simp add: take_Suc_conv_app_nth)
    have b: "drop (Suc (nat i)) (arr[nat pos := ps ! nat i]) = drop (Suc (nat i)) ps"
      using posle dr1 by (simp add: drop_update_cancel)
    have "remove_inv patch t Qgrid g ps pc0 (i + 1) (arr[nat pos := ps ! nat i], pos + 1, pc)"
      unfolding remove_inv_def prod.case suc sp tk1
    proof (intro conjI)
      show "length (arr[nat pos := ps ! nat i]) = length ps" using len by simp
      show "pos + 1 = int (length (filter ?keep (take (nat i) ps @ [ps ! nat i])))"
        using False pos by simp
      show "take (Suc (nat pos)) (arr[nat pos := ps ! nat i])
              = filter ?keep (take (nat i) ps @ [ps ! nat i])"
        using False a by simp
      show "drop (Suc (nat i)) (arr[nat pos := ps ! nat i]) = drop (Suc (nat i)) ps" by (rule b)
      show "pc = pc0 * prod_list (verdicts t Qgrid g
              (filter (in_patch patch) (take (nat i) ps @ [ps ! nat i])))"
        using False pc by simp
    qed
    then show ?thesis using False by (simp add: st get set)
  qed
qed


lemma remove_particles_result:
  assumes n: "0 \<le> n" "n \<le> int (length ps)"
    and v: "\<forall>p \<in> set (take (nat n) ps). in_patch patch p \<longrightarrow> (\<exists>v. verifyParticle p t Qgrid g = Inr v)"
  shows "\<exists>arr. remove_particles t patch n ps pc0 Qgrid g
             = Inr (int (length (filter (\<lambda>p. \<not> in_patch patch p) (take (nat n) ps))), arr,
                    pc0 * prod_list (verdicts t Qgrid g (filter (in_patch patch) (take (nat n) ps)))) \<and>
           length arr = length ps \<and>
           take (length (filter (\<lambda>p. \<not> in_patch patch p) (take (nat n) ps))) arr
             = filter (\<lambda>p. \<not> in_patch patch p) (take (nat n) ps) \<and>
           drop (nat n) arr = drop (nat n) ps"
proof -
  from remove_particles_loop[OF n v, of pc0] obtain arr pos pc
    where l: "for_each (\<lambda>i (particles, pos, partial_correctness).
                bind_r (array_get particles i) (\<lambda>p.
                  if in_patch patch p
                  then bind_r (verifyParticle p t Qgrid g) (\<lambda>v.
                         Inr (particles, pos, partial_correctness * v))
                  else bind_r (array_set particles pos p) (\<lambda>particles.
                         Inr (particles, pos + 1, partial_correctness))))
              [0..n - 1] (ps, 0, pc0) = Inr (arr, pos, pc)"
      and i: "remove_inv patch t Qgrid g ps pc0 n (arr, pos, pc)"
    by auto
  have r: "remove_particles t patch n ps pc0 Qgrid g = Inr (pos, arr, pc)"
    unfolding remove_particles_def l by simp
  show ?thesis
    using i unfolding r remove_inv_def by auto
qed

lemma remove_particles_nothing:
  assumes n: "0 \<le> n" "n \<le> int (length ps)"
    and out: "\<forall>p \<in> set (take (nat n) ps). \<not> in_patch patch p"
  shows "remove_particles t patch n ps pc0 Qgrid g = Inr (n, ps, pc0)"
proof -
  have v: "\<forall>p \<in> set (take (nat n) ps). in_patch patch p \<longrightarrow> (\<exists>v. verifyParticle p t Qgrid g = Inr v)"
    using out by blast
  have k: "filter (\<lambda>p. \<not> in_patch patch p) (take (nat n) ps) = take (nat n) ps"
    using out by simp
  have r: "filter (in_patch patch) (take (nat n) ps) = []"
    using out by simp
  have len: "length (take (nat n) ps) = nat n" using n by simp
  from remove_particles_result[OF n v, of pc0] obtain arr
    where a: "remove_particles t patch n ps pc0 Qgrid g = Inr (n, arr, pc0)"
      and b: "take (nat n) arr = take (nat n) ps" "drop (nat n) arr = drop (nat n) ps"
    unfolding k r len using n by (auto simp: verdicts_def)
  have "arr = ps" using b by (metis append_take_drop_id)
  with a show ?thesis by simp
qed

lemma in_patch_iff:
  "in_patch patch p \<longleftrightarrow>
     of_int (xleft patch) < p_x p \<and> p_x p < of_int (xright patch) \<and>
     of_int (ybottom patch) < p_y p \<and> p_y p < of_int (ytop patch)"
  by (auto simp: in_patch_def Let_def)

text \<open>
  C5. For every call of \<open>remove_particles\<close> on a population of \<open>n\<close> particles (with the
  verification defined on the particles it removes): a particle is removed exactly when
  \<open>left < x < right\<close> and \<open>bottom < y < top\<close>, all strict; the verdict of each removed
  particle is multiplied into the flag; the particles kept form the prefix of the array, in
  their order; and the number kept plus the number removed is \<open>n\<close>.
\<close>

theorem remove_particles_compacts:
  assumes "0 \<le> n" "n \<le> int (length particles)"
    and "\<forall>p \<in> set (take (nat n) particles).
           in_patch patch p \<longrightarrow> (\<exists>v. verifyParticle p t Qgrid g = Inr v)"
  shows "let removed = filter (in_patch patch) (take (nat n) particles);
             kept = filter (\<lambda>p. \<not> in_patch patch p) (take (nat n) particles)
         in (\<forall>p. in_patch patch p \<longleftrightarrow>
                 of_int (xleft patch) < p_x p \<and> p_x p < of_int (xright patch) \<and>
                 of_int (ybottom patch) < p_y p \<and> p_y p < of_int (ytop patch)) \<and>
            (\<exists>particles'.
               remove_particles t patch n particles partial_correctness Qgrid g
                 = Inr (int (length kept), particles',
                        partial_correctness * prod_list (verdicts t Qgrid g removed)) \<and>
               length particles' = length particles \<and>
               take (length kept) particles' = kept) \<and>
            int (length kept) + int (length removed) = n"
proof -
  have "length (filter (\<lambda>p. \<not> in_patch patch p) (take (nat n) particles))
          + length (filter (in_patch patch) (take (nat n) particles)) = length (take (nat n) particles)"
    using sum_length_filter_compl[of "in_patch patch" "take (nat n) particles"] by simp
  then have c: "int (length (filter (\<lambda>p. \<not> in_patch patch p) (take (nat n) particles)))
          + int (length (filter (in_patch patch) (take (nat n) particles))) = n"
    using assms(1,2) by simp
  from remove_particles_result[OF assms, of partial_correctness] in_patch_iff c
  show ?thesis unfolding Let_def by blast
qed

text \<open>
  C7. A second call of \<open>remove_particles\<close> with the same patch, right after the first,
  removes no particle: it returns the same count, the same array and the same flag.
\<close>

theorem remove_particles_idempotent:
  assumes "0 \<le> n" "n \<le> int (length particles)"
    and "\<forall>p \<in> set (take (nat n) particles).
           in_patch patch p \<longrightarrow> (\<exists>v. verifyParticle p t Qgrid g = Inr v)"
  shows "\<exists>n' particles' partial_correctness'.
           remove_particles t patch n particles partial_correctness Qgrid g
             = Inr (n', particles', partial_correctness') \<and>
           remove_particles t patch n' particles' partial_correctness' Qgrid g
             = Inr (n', particles', partial_correctness')"
proof -
  let ?kept = "filter (\<lambda>p. \<not> in_patch patch p) (take (nat n) particles)"
  from remove_particles_result[OF assms, of partial_correctness] obtain arr pc'
    where a: "remove_particles t patch n particles partial_correctness Qgrid g
                = Inr (int (length ?kept), arr, pc')"
      and len: "length arr = length particles"
      and tk: "take (length ?kept) arr = ?kept"
    by blast
  have le: "length ?kept \<le> length arr"
    using len assms(1,2) by (metis length_take min.cobounded1 le_trans length_filter_le)
  have "\<forall>p \<in> set ?kept. \<not> in_patch patch p" by simp
  then have out: "\<forall>p \<in> set (take (nat (int (length ?kept))) arr). \<not> in_patch patch p"
    by (simp only: nat_int tk)
  have "remove_particles t patch (int (length ?kept)) arr pc' Qgrid g
          = Inr (int (length ?kept), arr, pc')"
    using remove_particles_nothing[OF _ _ out] le by simp
  with a show ?thesis by blast
qed


lemma verifyParticle_resting:
  "verifyParticle (resting (1/2) (1/2)) 0 grid3 3 = Inr 1"
  using fmod_unique_nonneg[of 2 "1/2" 0]
  by (simp add: verifyParticle_def periodic_target_def QG_def QG_index_def array_get_def
      Let_def epsilon_def resting_def grid3_def SUCCESS_def)

theorem remove_particles_compacts_witness:
  "\<exists>particles'.
     remove_particles 0 \<lparr>xleft = 0, xright = 1, ybottom = 0, ytop = 1\<rparr> 3
         [resting (1/2) (1/2), resting 1 (1/2), resting (3/2) (1/2)] 1 grid3 3
       = Inr (2, particles', 1) \<and>
     length particles' = 3 \<and>
     take 2 particles' = [resting 1 (1/2), resting (3/2) (1/2)]"
proof -
  have i: "in_patch \<lparr>xleft = 0, xright = 1, ybottom = 0, ytop = 1\<rparr> (resting (1/2) (1/2))"
    "\<not> in_patch \<lparr>xleft = 0, xright = 1, ybottom = 0, ytop = 1\<rparr> (resting 1 (1/2))"
    "\<not> in_patch \<lparr>xleft = 0, xright = 1, ybottom = 0, ytop = 1\<rparr> (resting (3/2) (1/2))"
    by (simp_all add: in_patch_def resting_def)
  show ?thesis
    using remove_particles_compacts[of 3 "[resting (1/2) (1/2), resting 1 (1/2), resting (3/2) (1/2)]"
        "\<lparr>xleft = 0, xright = 1, ybottom = 0, ytop = 1\<rparr>" 0 grid3 3 1]
    by (simp add: i verifyParticle_resting verdicts_def Let_def numeral_2_eq_2 numeral_3_eq_3)
qed

theorem remove_particles_idempotent_witness:
  "\<exists>n' particles' partial_correctness'.
     remove_particles 0 \<lparr>xleft = 0, xright = 1, ybottom = 0, ytop = 1\<rparr> 3
         [resting (1/2) (1/2), resting 1 (1/2), resting (3/2) (1/2)] 1 grid3 3
       = Inr (n', particles', partial_correctness') \<and>
     remove_particles 0 \<lparr>xleft = 0, xright = 1, ybottom = 0, ytop = 1\<rparr> n' particles'
         partial_correctness' grid3 3
       = Inr (n', particles', partial_correctness')"
proof -
  have i: "in_patch \<lparr>xleft = 0, xright = 1, ybottom = 0, ytop = 1\<rparr> (resting (1/2) (1/2))"
    "\<not> in_patch \<lparr>xleft = 0, xright = 1, ybottom = 0, ytop = 1\<rparr> (resting 1 (1/2))"
    "\<not> in_patch \<lparr>xleft = 0, xright = 1, ybottom = 0, ytop = 1\<rparr> (resting (3/2) (1/2))"
    by (simp_all add: in_patch_def resting_def)
  show ?thesis
    using remove_particles_idempotent[of 3 "[resting (1/2) (1/2), resting 1 (1/2), resting (3/2) (1/2)]"
        "\<lparr>xleft = 0, xright = 1, ybottom = 0, ytop = 1\<rparr>" 0 grid3 3 1]
    by (simp add: i verifyParticle_resting)
qed

subsection \<open>Injection\<close>

lemma cell_index_bound:
  fixes y x i c :: int
  assumes "yb \<le> y" "y < yt" "xl \<le> x" "x < xr" "0 \<le> i" "i < c"
  shows "((y - yb) * (xr - xl) + (x - xl)) * c + i < (xr - xl) * (yt - yb) * c"
    and "0 \<le> ((y - yb) * (xr - xl) + (x - xl)) * c + i"
proof -
  let ?a = "(y - yb) * (xr - xl) + (x - xl)"
  have "(y - yb) * (xr - xl) \<le> (yt - yb - 1) * (xr - xl)"
    using assms by (intro mult_right_mono) auto
  moreover have "x - xl + 1 \<le> xr - xl" using assms by simp
  ultimately have "?a + 1 \<le> (yt - yb - 1) * (xr - xl) + (xr - xl)" by linarith
  also have "\<dots> = (xr - xl) * (yt - yb)" by (simp add: algebra_simps)
  finally have a: "?a + 1 \<le> (xr - xl) * (yt - yb)" .
  have "?a * c + i < ?a * c + c" using assms by simp
  also have "\<dots> = (?a + 1) * c" by (simp add: algebra_simps)
  also have "\<dots> \<le> (xr - xl) * (yt - yb) * c" using a assms by (intro mult_right_mono) auto
  finally show "?a * c + i < (xr - xl) * (yt - yb) * c" .
  have "0 \<le> ?a" using assms by simp
  then have "0 \<le> ?a * c" using assms by simp
  then show "0 \<le> ?a * c + i" using assms by simp
qed

lemma centred_place:
  assumes "xleft patch \<le> x" "x < xright patch" "ybottom patch \<le> y" "y < ytop patch"
  shows "centred patch (p\<lparr>p_x := of_int x + REL_X, p_y := of_int y + REL_Y\<rparr>)"
proof -
  have "\<lfloor>of_int x + REL_X\<rfloor> = x" "\<lfloor>of_int y + REL_Y\<rfloor> = y"
    by (simp_all add: REL_X_def REL_Y_def floor_unique)
  then show ?thesis using assms by (simp add: centred_def)
qed

lemma cell_of_rank_index:
  assumes "xleft patch \<le> x" "x < xright patch" "ybottom patch \<le> y" "0 \<le> i" "i < c"
  shows "cell_of_rank patch c
           (((y - ybottom patch) * (xright patch - xleft patch) + (x - xleft patch)) * c + i)
         = (x, y)"
proof -
  let ?W = "xright patch - xleft patch"
  let ?a = "(y - ybottom patch) * ?W + (x - xleft patch)"
  have c0: "c \<noteq> 0" using assms by simp
  have "(?a * c + i) div c = ?a + i div c" using c0 by simp
  also have "i div c = 0" using assms by simp
  finally have r: "(?a * c + i) div c = ?a" by simp
  have W: "0 \<le> x - xleft patch" "x - xleft patch < ?W" using assms by simp_all
  have "?a mod ?W = (x - xleft patch) mod ?W" by simp
  also have "\<dots> = x - xleft patch" using W by simp
  finally have m: "?a mod ?W = x - xleft patch" .
  have "?W \<noteq> 0" using W by simp
  then have "?a div ?W = (y - ybottom patch) + (x - xleft patch) div ?W" by simp
  also have "(x - xleft patch) div ?W = 0" using W by simp
  finally have d: "?a div ?W = y - ybottom patch" by simp
  show ?thesis unfolding cell_of_rank_def r m d by simp
qed

lemma inject_cell:
  assumes c: "0 \<le> c" and x: "xleft patch \<le> x" "x < xright patch"
    and y: "ybottom patch \<le> y" "y < ytop patch" and n: "0 \<le> n"
    and N: "N = n + (xright patch - xleft patch) * (ytop patch - ybottom patch) * c"
    and inv: "inject_inv patch c n particles N y x 0 st"
  shows "\<exists>st'. for_each (\<lambda>i (new_particles_array, pos).
                  bind_r (set_xy new_particles_array pos (of_int x + REL_X) (of_int y + REL_Y))
                    (\<lambda>new_particles_array. Inr (new_particles_array, pos + 1)))
                [0..c - 1] st = Inr st' \<and> inject_inv patch c n particles N y x (c - 1 + 1) st'"
proof (rule for_each_upto_inv[where I = "inject_inv patch c n particles N y x"])
  show "0 \<le> c - 1 + 1" using c by simp
  show "inject_inv patch c n particles N y x 0 st" by fact
next
  fix i st assume h: "0 \<le> i" "i \<le> c - 1" "inject_inv patch c n particles N y x i st"
  obtain arr pos where st: "st = (arr, pos)" by (cases st)
  let ?off = "((y - ybottom patch) * (xright patch - xleft patch) + (x - xleft patch)) * c + i"
  have len: "int (length arr) = N" and pos: "pos = n + ?off"
    and tk: "take (nat n) arr = take (nat n) particles"
    and cen: "\<forall>j. n \<le> j \<and> j < pos \<longrightarrow> centred patch (arr ! nat j)"
    and ord: "in_cell_order patch c n arr pos"
    using h(3) unfolding st inject_inv_def by auto
  have cell: "cell_of_rank patch c (pos - n) = (x, y)"
    using cell_of_rank_index[of patch x y i c] x y h(1,2) pos by simp
  have b: "?off < (xright patch - xleft patch) * (ytop patch - ybottom patch) * c" "0 \<le> ?off"
    using cell_index_bound[of "ybottom patch" y "ytop patch" "xleft patch" x "xright patch" i c]
      x y h by simp_all
  have p0: "0 \<le> pos" "n \<le> pos" using pos b n by simp_all
  have pN: "pos < int (length arr)" using pos b N len by simp
  let ?p = "(arr ! nat pos)\<lparr>p_x := of_int x + REL_X, p_y := of_int y + REL_Y\<rparr>"
  have w: "set_xy arr pos (of_int x + REL_X) (of_int y + REL_Y) = Inr (arr[nat pos := ?p])"
    using p0 pN by (simp add: set_xy_def array_get_def array_set_def)
  have "inject_inv patch c n particles N y x (i + 1) (arr[nat pos := ?p], pos + 1)"
    unfolding inject_inv_def prod.case
  proof (intro conjI allI impI)
    show "int (length (arr[nat pos := ?p])) = N" using len by simp
    show "pos + 1 = n + ((y - ybottom patch) * (xright patch - xleft patch) + (x - xleft patch)) * c
            + (i + 1)" using pos by simp
    show "take (nat n) (arr[nat pos := ?p]) = take (nat n) particles"
      using tk p0 by (simp add: take_update_cancel)
    show "in_cell_order patch c n (arr[nat pos := ?p]) (pos + 1)"
      unfolding in_cell_order_def
    proof (intro allI impI)
      fix j assume j: "n \<le> j \<and> j < pos + 1"
      show "p_x (arr[nat pos := ?p] ! nat j)
              = of_int (fst (cell_of_rank patch c (j - n))) + REL_X \<and>
            p_y (arr[nat pos := ?p] ! nat j)
              = of_int (snd (cell_of_rank patch c (j - n))) + REL_Y"
      proof (cases "j = pos")
        case True
        then show ?thesis using pN p0 cell by simp
      next
        case False
        then have "nat pos \<noteq> nat j" using j p0 n by linarith
        then show ?thesis using ord j False by (simp add: in_cell_order_def)
      qed
    qed
  next
    fix j assume j: "n \<le> j \<and> j < pos + 1"
    show "centred patch (arr[nat pos := ?p] ! nat j)"
    proof (cases "j = pos")
      case True
      then show ?thesis using pN p0 centred_place[OF x y] by simp
    next
      case False
      then have "nat pos \<noteq> nat j" using j p0 n by linarith
      then show ?thesis using cen j False by simp
    qed
  qed
  then show "\<exists>s'. (case st of (new_particles_array, pos) \<Rightarrow>
                  bind_r (set_xy new_particles_array pos (of_int x + REL_X) (of_int y + REL_Y))
                    (\<lambda>new_particles_array. Inr (new_particles_array, pos + 1))) = Inr s'
               \<and> inject_inv patch c n particles N y x (i + 1) s'"
    by (simp add: st w)
qed

lemma inject_row:
  assumes c: "0 \<le> c" and xs: "xleft patch \<le> xright patch"
    and y: "ybottom patch \<le> y" "y < ytop patch" and n: "0 \<le> n"
    and N: "N = n + (xright patch - xleft patch) * (ytop patch - ybottom patch) * c"
    and inv: "inject_inv patch c n particles N y (xleft patch) 0 st"
  shows "\<exists>st'. for_each (\<lambda>x. for_each (\<lambda>i (new_particles_array, pos).
                  bind_r (set_xy new_particles_array pos (of_int x + REL_X) (of_int y + REL_Y))
                    (\<lambda>new_particles_array. Inr (new_particles_array, pos + 1)))
                [0..c - 1]) [xleft patch..xright patch - 1] st = Inr st'
              \<and> inject_inv patch c n particles N y (xright patch - 1 + 1) 0 st'"
proof (rule for_each_upto_inv[where I = "\<lambda>x. inject_inv patch c n particles N y x 0"])
  show "xleft patch \<le> xright patch - 1 + 1" using xs by simp
  show "inject_inv patch c n particles N y (xleft patch) 0 st" by fact
next
  fix x st assume h: "xleft patch \<le> x" "x \<le> xright patch - 1" "inject_inv patch c n particles N y x 0 st"
  have x: "x < xright patch" using h by simp
  from inject_cell[OF c h(1) x y n N h(3)] obtain st'
    where s: "for_each (\<lambda>i (new_particles_array, pos).
                  bind_r (set_xy new_particles_array pos (of_int x + REL_X) (of_int y + REL_Y))
                    (\<lambda>new_particles_array. Inr (new_particles_array, pos + 1)))
                [0..c - 1] st = Inr st'" and i: "inject_inv patch c n particles N y x c st'"
    by auto
  have "inject_inv patch c n particles N y (x + 1) 0 st'"
    using i unfolding inject_inv_def by (auto simp: algebra_simps)
  with s show "\<exists>s'. for_each (\<lambda>i (new_particles_array, pos).
                  bind_r (set_xy new_particles_array pos (of_int x + REL_X) (of_int y + REL_Y))
                    (\<lambda>new_particles_array. Inr (new_particles_array, pos + 1)))
                [0..c - 1] st = Inr s' \<and> inject_inv patch c n particles N y (x + 1) 0 s'"
    by blast
qed

lemma inject_rows:
  assumes c: "0 \<le> c" and xs: "xleft patch \<le> xright patch" and ys: "ybottom patch \<le> ytop patch"
    and n: "0 \<le> n"
    and N: "N = n + (xright patch - xleft patch) * (ytop patch - ybottom patch) * c"
    and inv: "inject_inv patch c n particles N (ybottom patch) (xleft patch) 0 st"
  shows "\<exists>st'. for_each (\<lambda>y. for_each (\<lambda>x. for_each (\<lambda>i (new_particles_array, pos).
                  bind_r (set_xy new_particles_array pos (of_int x + REL_X) (of_int y + REL_Y))
                    (\<lambda>new_particles_array. Inr (new_particles_array, pos + 1)))
                [0..c - 1]) [xleft patch..xright patch - 1]) [ybottom patch..ytop patch - 1] st
              = Inr st'
              \<and> inject_inv patch c n particles N (ytop patch - 1 + 1) (xleft patch) 0 st'"
proof (rule for_each_upto_inv[where I = "\<lambda>y. inject_inv patch c n particles N y (xleft patch) 0"])
  show "ybottom patch \<le> ytop patch - 1 + 1" using ys by simp
  show "inject_inv patch c n particles N (ybottom patch) (xleft patch) 0 st" by fact
next
  fix y st assume h: "ybottom patch \<le> y" "y \<le> ytop patch - 1"
    "inject_inv patch c n particles N y (xleft patch) 0 st"
  have y: "y < ytop patch" using h by simp
  from inject_row[OF c xs h(1) y n N h(3)] obtain st'
    where s: "for_each (\<lambda>x. for_each (\<lambda>i (new_particles_array, pos).
                  bind_r (set_xy new_particles_array pos (of_int x + REL_X) (of_int y + REL_Y))
                    (\<lambda>new_particles_array. Inr (new_particles_array, pos + 1)))
                [0..c - 1]) [xleft patch..xright patch - 1] st = Inr st'"
      and i: "inject_inv patch c n particles N y (xright patch) 0 st'"
    by auto
  have "inject_inv patch c n particles N (y + 1) (xleft patch) 0 st'"
    using i unfolding inject_inv_def by (auto simp: algebra_simps)
  with s show "\<exists>s'. for_each (\<lambda>x. for_each (\<lambda>i (new_particles_array, pos).
                  bind_r (set_xy new_particles_array pos (of_int x + REL_X) (of_int y + REL_Y))
                    (\<lambda>new_particles_array. Inr (new_particles_array, pos + 1)))
                [0..c - 1]) [xleft patch..xright patch - 1] st = Inr s'
              \<and> inject_inv patch c n particles N (y + 1) (xleft patch) 0 s'"
    by blast
qed


lemma inject_particles_result:
  assumes c: "0 \<le> c" and xs: "xleft patch \<le> xright patch" and ys: "ybottom patch \<le> ytop patch"
    and n: "0 \<le> n" "n \<le> int (length particles)"
    and N: "N = n + (xright patch - xleft patch) * (ytop patch - ybottom patch) * c"
    and av: "avail (nat N)"
  shows "\<exists>arr. inject_particles avail junk t patch c n particles = Inr (arr, N) \<and>
           int (length arr) = N \<and> take (nat n) arr = take (nat n) particles \<and>
           (\<forall>j. n \<le> j \<and> j < N \<longrightarrow> centred patch (arr ! nat j)) \<and>
           in_cell_order patch c n arr N"
proof -
  have "0 \<le> (xright patch - xleft patch) * (ytop patch - ybottom patch) * c"
    using c xs ys by simp
  then have nN: "n \<le> N" using N by simp
  then have N0: "0 \<le> N" using n by simp
  have m: "malloc avail junk N = Some (replicate (nat N) junk)"
    using av N0 by (simp add: malloc_def)
  let ?arr0 = "take (nat n) particles @ replicate (nat N - nat n) junk"
  have cp: "memcpy (replicate (nat N) junk) particles n = Inr ?arr0"
    using n nN N0 by (simp add: memcpy_def)
  have "inject_inv patch c n particles N (ybottom patch) (xleft patch) 0 (?arr0, n)"
    using n nN N0 by (auto simp: inject_inv_def in_cell_order_def)
  from inject_rows[OF c xs ys n(1) N this] obtain arr pos
    where l: "for_each (\<lambda>y. for_each (\<lambda>x. for_each (\<lambda>i (new_particles_array, pos).
                  bind_r (set_xy new_particles_array pos (of_int x + REL_X) (of_int y + REL_Y))
                    (\<lambda>new_particles_array. Inr (new_particles_array, pos + 1)))
                [0..c - 1]) [xleft patch..xright patch - 1]) [ybottom patch..ytop patch - 1]
                (?arr0, n) = Inr (arr, pos)"
      and i: "inject_inv patch c n particles N (ytop patch) (xleft patch) 0 (arr, pos)"
    by auto
  have parts: "int (length arr) = N" "take (nat n) arr = take (nat n) particles"
    "\<forall>j. n \<le> j \<and> j < pos \<longrightarrow> centred patch (arr ! nat j)" "in_cell_order patch c n arr pos"
    using i unfolding inject_inv_def prod.case by blast+
  have pos: "pos = N" using i N unfolding inject_inv_def by (simp add: algebra_simps)
  have r: "inject_particles avail junk t patch c n particles = Inr (arr, N)"
    unfolding inject_particles_def Let_def N[symmetric] m by (simp add: cp l)
  show ?thesis using parts unfolding r pos by simp
qed

lemma centred_within:
  assumes "centred patch p"
  shows "of_int (xleft patch) < p_x p \<and> p_x p < of_int (xright patch) \<and>
         of_int (ybottom patch) < p_y p \<and> p_y p < of_int (ytop patch)"
proof -
  let ?cx = "\<lfloor>p_x p\<rfloor>" and ?cy = "\<lfloor>p_y p\<rfloor>"
  have a: "xleft patch \<le> ?cx" "?cx + 1 \<le> xright patch" "ybottom patch \<le> ?cy" "?cy + 1 \<le> ytop patch"
    and b: "p_x p = of_int ?cx + 1 / 2" "p_y p = of_int ?cy + 1 / 2"
    using assms by (simp_all add: centred_def Let_def REL_X_def REL_Y_def)
  have "real_of_int (xleft patch) \<le> of_int ?cx" "real_of_int ?cx + 1 \<le> of_int (xright patch)"
    "real_of_int (ybottom patch) \<le> of_int ?cy" "real_of_int ?cy + 1 \<le> of_int (ytop patch)"
    using a by linarith+
  then show ?thesis using b by linarith
qed

lemma finish_particle_injected:
  assumes "cell_of_rank patch c r = (cx, cy)" "0 \<le> cx" "0 \<le> cy"
    and "p_x p = of_int cx + REL_X" "p_y p = of_int cy + REL_Y"
  shows "finish_particle t 0 0 p = injected patch c t r"
proof -
  have xy: "p_x p = of_int cx + 1/2" "p_y p = of_int cy + 1/2"
    using assms(4,5) by (simp_all add: REL_X_def REL_Y_def)
  have "finish_particle t 0 0 p =
          p\<lparr>p_v_x := 0, p_v_y := 0,
            p_q := (if even cx then 1 else - 1) * spec_charge_magnitude (1/2) (1/2),
            p_x0 := of_int cx + 1/2, p_y0 := of_int cy + 1/2, p_k := 0, p_m := 0,
            p_initTimestamp := t\<rparr>"
    unfolding finish_particle_eq xy fmod_unit_cell[OF assms(2)] fmod_unit_cell[OF assms(3)]
      trunc_cell[OF assms(2)]
    by (simp add: int_32_def dt_def even_iff_mod_2_eq_zero)
  also have "\<dots> = injected patch c t r"
    using xy by (cases p) (simp add: injected_def assms(1))
  finally show ?thesis .
qed

text \<open>
  C6. For every injection with a valid patch \<open>P\<close> (one that \<open>bad_patch\<close> accepts within the
  grid \<open>[0, g]\<^sup>2\<close>) and \<open>particles_per_cell = c \<ge> 0\<close> (and the allocation granted): the
  population grows by exactly \<open>cells(P) * c\<close>; the old particles are kept; every new
  particle lies at the offset \<open>(0.5, 0.5)\<close> of a cell of \<open>P\<close>, hence within \<open>P\<close>; and the
  new slice is the one that \<open>inject_particles\<close> returns, completed by
  \<open>finish_distribution\<close> with \<open>k = 0\<close> and \<open>m = 0\<close> at the step of the injection, whatever
  the \<open>k\<close> and \<open>m\<close> of the configuration are. So each new particle is at rest, records
  its position, \<open>k = m = 0\<close> and the step, and carries the charge of the factor
  \<open>2 * 0 + 1 = 1\<close>: \<open>spec_charge_magnitude (1/2) (1/2)\<close> in a column of even index and its
  opposite in a column of odd index. The new particle of rank \<open>r\<close> is \<open>injected P c t r\<close>,
  in the cell of rank \<open>r div c\<close> of \<open>P\<close>, the cells counted row by row.
\<close>

theorem inject_step_result:
  assumes "bad_patch (injection_patch c) (Some \<lparr>xleft = 0, xright = g, ybottom = 0, ytop = g\<rparr>) = 0"
    and "0 \<le> particles_per_cell c"
    and "0 \<le> n" "n \<le> int (length particles)"
    and "N = n + (xright (injection_patch c) - xleft (injection_patch c))
                  * (ytop (injection_patch c) - ybottom (injection_patch c)) * particles_per_cell c"
    and "may_alloc env (nat N)"
  shows "\<exists>particles'.
           inject_step env c t (particles, n) = Inr (particles', N) \<and>
           int (length particles') = N \<and>
           take (nat n) particles' = take (nat n) particles \<and>
           (\<exists>arr. inject_particles (may_alloc env) (junk_particle env) t (injection_patch c)
                     (particles_per_cell c) n particles = Inr (arr, N) \<and>
                  finish_distribution t 0 0 (N - n) (drop (nat n) arr)
                    = Inr (drop (nat n) particles')) \<and>
           (\<forall>j. n \<le> j \<and> j < N \<longrightarrow>
              (let p = particles' ! nat j
               in p = injected (injection_patch c) (particles_per_cell c) t (j - n) \<and>
                  centred (injection_patch c) p \<and>
                  of_int (xleft (injection_patch c)) < p_x p \<and>
                  p_x p < of_int (xright (injection_patch c)) \<and>
                  of_int (ybottom (injection_patch c)) < p_y p \<and>
                  p_y p < of_int (ytop (injection_patch c)) \<and>
                  p_k p = 0 \<and> p_m p = 0 \<and> p_initTimestamp p = t \<and>
                  p_v_x p = 0 \<and> p_v_y p = 0 \<and> p_x0 p = p_x p \<and> p_y0 p = p_y p \<and>
                  p_q p = (if even \<lfloor>p_x p\<rfloor> then 1 else - 1)
                            * spec_charge_magnitude (1/2) (1/2)))"
proof -
  let ?P = "injection_patch c"
  have valid: "xleft ?P < xright ?P" "ybottom ?P < ytop ?P" "0 \<le> xleft ?P" "0 \<le> ybottom ?P"
    using assms(1) by (simp_all add: bad_patch_def split: if_splits)
  have xs: "xleft ?P \<le> xright ?P" and ys: "ybottom ?P \<le> ytop ?P" using valid by simp_all
  from inject_particles_result[of "particles_per_cell c" ?P n particles N "may_alloc env"
      "junk_particle env" t] assms(2) xs ys assms(3,4,5,6)
  obtain arr where r: "inject_particles (may_alloc env) (junk_particle env) t ?P
                         (particles_per_cell c) n particles = Inr (arr, N)"
    and len: "int (length arr) = N" and tk: "take (nat n) arr = take (nat n) particles"
    and cen: "\<forall>j. n \<le> j \<and> j < N \<longrightarrow> centred ?P (arr ! nat j)"
    and ord: "in_cell_order ?P (particles_per_cell c) n arr N"
    by blast
  have "0 \<le> (xright ?P - xleft ?P) * (ytop ?P - ybottom ?P) * particles_per_cell c"
    using assms(2) xs ys by simp
  then have nN: "n \<le> N" using assms(5) by simp
  have dl: "int (length (drop (nat n) arr)) = N - n" using len nN assms(3) by simp
  have fd: "finish_distribution t 0 0 (N - n) (drop (nat n) arr)
              = Inr (map (finish_particle t 0 0) (drop (nat n) arr))"
    using finish_distribution_result[of "N - n" "drop (nat n) arr" t 0 0] nN dl by simp
  let ?res = "take (nat n) arr @ map (finish_particle t 0 0) (drop (nat n) arr)"
  have s: "inject_step env c t (particles, n) = Inr (?res, N)"
    unfolding inject_step_def by (simp add: r fd)
  have lr: "int (length ?res) = N" using len by simp
  have tr: "take (nat n) ?res = take (nat n) particles"
    using tk len nN assms(3,4) by simp
  have dr: "drop (nat n) ?res = map (finish_particle t 0 0) (drop (nat n) arr)"
    using len nN assms(3) by simp
  have nth: "?res ! nat j = finish_particle t 0 0 (arr ! nat j)" if "n \<le> j" "j < N" for j
  proof -
    have a: "length (take (nat n) arr) = nat n" using len nN assms(3) by simp
    have b: "nat j - nat n < length (drop (nat n) arr)" using that dl assms(3) by simp
    have "?res ! nat j = map (finish_particle t 0 0) (drop (nat n) arr) ! (nat j - nat n)"
      using that assms(3) a by (simp add: nth_append)
    also have "\<dots> = finish_particle t 0 0 (drop (nat n) arr ! (nat j - nat n))"
      using b by (rule nth_map)
    also have "drop (nat n) arr ! (nat j - nat n) = arr ! nat j"
      using that assms(3) len by simp
    finally show ?thesis .
  qed
  have fp: "centred ?P (finish_particle t 0 0 p)" if "centred ?P p" for p
    using that by (simp add: centred_def finish_particle_def Let_def)
  have fields: "p_k (finish_particle t 0 0 p) = 0" "p_m (finish_particle t 0 0 p) = 0"
    "p_initTimestamp (finish_particle t 0 0 p) = t" "p_v_x (finish_particle t 0 0 p) = 0"
    "p_v_y (finish_particle t 0 0 p) = 0" "p_x0 (finish_particle t 0 0 p) = p_x p"
    "p_y0 (finish_particle t 0 0 p) = p_y p" "p_x (finish_particle t 0 0 p) = p_x p"
    "p_y (finish_particle t 0 0 p) = p_y p" for p
    by (simp_all add: finish_particle_def Let_def dt_def)
  have new: "(let p = ?res ! nat j
         in p = injected ?P (particles_per_cell c) t (j - n) \<and>
            centred ?P p \<and> of_int (xleft ?P) < p_x p \<and> p_x p < of_int (xright ?P) \<and>
            of_int (ybottom ?P) < p_y p \<and> p_y p < of_int (ytop ?P) \<and>
            p_k p = 0 \<and> p_m p = 0 \<and> p_initTimestamp p = t \<and>
            p_v_x p = 0 \<and> p_v_y p = 0 \<and> p_x0 p = p_x p \<and> p_y0 p = p_y p \<and>
            p_q p = (if even \<lfloor>p_x p\<rfloor> then 1 else - 1) * spec_charge_magnitude (1/2) (1/2))"
    if j: "n \<le> j \<and> j < N" for j
  proof -
    obtain cx cy where cell: "cell_of_rank ?P (particles_per_cell c) (j - n) = (cx, cy)"
      by (cases "cell_of_rank ?P (particles_per_cell c) (j - n)")
    have pos: "p_x (arr ! nat j) = of_int cx + REL_X" "p_y (arr ! nat j) = of_int cy + REL_Y"
      using ord j cell by (simp_all add: in_cell_order_def)
    have c0: "centred ?P (arr ! nat j)" using cen j by blast
    have fl: "\<lfloor>p_x (arr ! nat j)\<rfloor> = cx" "\<lfloor>p_y (arr ! nat j)\<rfloor> = cy"
      unfolding pos by (simp_all add: REL_X_def REL_Y_def floor_unique)
    have nonneg: "0 \<le> cx" "0 \<le> cy"
      using c0 valid(3,4) unfolding centred_def Let_def fl by simp_all
    define F where "F = finish_particle t 0 0 (arr ! nat j)"
    have e: "F = injected ?P (particles_per_cell c) t (j - n)"
      unfolding F_def by (rule finish_particle_injected[OF cell nonneg pos])
    have xy: "p_x F = p_x (arr ! nat j)" "p_y F = p_y (arr ! nat j)"
      unfolding F_def by (simp_all add: fields)
    have q: "p_q F = (if even \<lfloor>p_x F\<rfloor> then 1 else - 1) * spec_charge_magnitude (1/2) (1/2)"
      unfolding xy fl unfolding e by (simp add: injected_def cell)
    have cF: "centred ?P F" unfolding F_def by (rule fp[OF c0])
    note w = centred_within[OF cF]
    have f: "p_k F = 0" "p_m F = 0" "p_initTimestamp F = t" "p_v_x F = 0" "p_v_y F = 0"
      "p_x0 F = p_x F" "p_y0 F = p_y F"
      unfolding F_def by (simp_all add: fields)
    have "?res ! nat j = F" unfolding F_def using j by (intro nth) simp_all
    then show ?thesis unfolding Let_def using e q cF w f by simp
  qed
  show ?thesis
  proof (rule exI[of _ ?res], intro conjI)
    show "inject_step env c t (particles, n) = Inr (?res, N)" by (rule s)
    show "int (length ?res) = N" by (rule lr)
    show "take (nat n) ?res = take (nat n) particles" by (rule tr)
    show "\<exists>arr'. inject_particles (may_alloc env) (junk_particle env) t ?P
                   (particles_per_cell c) n particles = Inr (arr', N) \<and>
                 finish_distribution t 0 0 (N - n) (drop (nat n) arr') = Inr (drop (nat n) ?res)"
      by (intro exI[of _ arr] conjI) (simp_all only: r fd dr)
    show "\<forall>j. n \<le> j \<and> j < N \<longrightarrow>
            (let p = ?res ! nat j
             in p = injected ?P (particles_per_cell c) t (j - n) \<and>
                centred ?P p \<and> of_int (xleft ?P) < p_x p \<and> p_x p < of_int (xright ?P) \<and>
                of_int (ybottom ?P) < p_y p \<and> p_y p < of_int (ytop ?P) \<and>
                p_k p = 0 \<and> p_m p = 0 \<and> p_initTimestamp p = t \<and>
                p_v_x p = 0 \<and> p_v_y p = 0 \<and> p_x0 p = p_x p \<and> p_y0 p = p_y p \<and>
                p_q p = (if even \<lfloor>p_x p\<rfloor> then 1 else - 1) * spec_charge_magnitude (1/2) (1/2))"
      using new by blast
  qed
qed

text \<open>Two particles per cell injected at step 4 in the cell \<open>(1, 0)\<close>, in a run configured
  with \<open>k = m = 1\<close>: both new particles are at \<open>(3/2, 1/2)\<close>, at rest, with \<open>k = m = 0\<close> and
  the negative charge of a column of odd index.\<close>

theorem inject_step_result_witness:
  "inject_step test_env
       (config0\<lparr>cfg_k := 1, cfg_m := 1, particles_per_cell := 2,
          injection_patch := \<lparr>xleft = 1, xright = 2, ybottom = 0, ytop = 1\<rparr>\<rparr>) 4
       ([resting (1/2) (1/2)], 1)
     = Inr ([resting (1/2) (1/2),
             \<lparr>p_x = 3/2, p_y = 1/2, p_v_x = 0, p_v_y = 0, p_q = - (sqrt (1/2) / 2),
              p_x0 = 3/2, p_y0 = 1/2, p_k = 0, p_m = 0, p_initTimestamp = 4\<rparr>,
             \<lparr>p_x = 3/2, p_y = 1/2, p_v_x = 0, p_v_y = 0, p_q = - (sqrt (1/2) / 2),
              p_x0 = 3/2, p_y0 = 1/2, p_k = 0, p_m = 0, p_initTimestamp = 4\<rparr>], 3)"
proof -
  let ?c = "config0\<lparr>cfg_k := 1, cfg_m := 1, particles_per_cell := 2,
              injection_patch := \<lparr>xleft = 1, xright = 2, ybottom = 0, ytop = 1\<rparr>\<rparr>"
  let ?q = "\<lparr>p_x = 3/2, p_y = 1/2, p_v_x = 0, p_v_y = 0, p_q = - (sqrt (1/2) / 2),
             p_x0 = 3/2, p_y0 = 1/2, p_k = 0, p_m = 0, p_initTimestamp = 4\<rparr>"
  have h: "bad_patch (injection_patch ?c) (Some \<lparr>xleft = 0, xright = 3, ybottom = 0, ytop = 3\<rparr>) = 0"
    "0 \<le> particles_per_cell ?c" "(0::int) \<le> 1" "1 \<le> int (length [resting (1/2) (1/2)])"
    "(3::int) = 1 + (xright (injection_patch ?c) - xleft (injection_patch ?c))
                  * (ytop (injection_patch ?c) - ybottom (injection_patch ?c)) * particles_per_cell ?c"
    "may_alloc test_env (nat 3)"
    by (simp_all add: bad_patch_def test_env_def)
  from inject_step_result[OF h, of 4, unfolded Let_def]
  obtain ps where s: "inject_step test_env ?c 4 ([resting (1/2) (1/2)], 1) = Inr (ps, 3)"
    and len': "int (length ps) = 3" and tk': "take (nat 1) ps = take (nat 1) [resting (1/2) (1/2)]"
    and new': "\<forall>j. 1 \<le> j \<and> j < 3 \<longrightarrow>
                ps ! nat j = injected (injection_patch ?c) (particles_per_cell ?c) 4 (j - 1)"
    by blast
  have len: "length ps = 3" and tk: "take 1 ps = [resting (1/2) (1/2)]"
    using len' tk' by simp_all
  have new: "\<forall>j. 1 \<le> j \<and> j < 3 \<longrightarrow>
                ps ! nat j = injected \<lparr>xleft = 1, xright = 2, ybottom = 0, ytop = 1\<rparr> 2 4 (j - 1)"
    using new' by simp
  have "ps ! 0 = resting (1/2) (1/2)" using tk len by (cases ps) simp_all
  moreover have "ps ! 1 = ?q" using new[rule_format, of 1]
    by (simp add: injected_def cell_of_rank_def spec_charge_magnitude_half)
  moreover have "ps ! 2 = ?q" using new[rule_format, of 2]
    by (simp add: injected_def cell_of_rank_def spec_charge_magnitude_half)
  ultimately have "ps = [resting (1/2) (1/2), ?q, ?q]"
    using len by (intro nth_equalityI) (auto simp: less_Suc_eq numeral_3_eq_3 numeral_2_eq_2)
  with s show ?thesis by simp
qed

subsection \<open>The geometric distribution\<close>

text \<open>Evaluation of the rounding at a value of known binary exponent.\<close>

lemma to_double_eq:
  assumes "2 powi e \<le> \<bar>r\<bar>" "\<bar>r\<bar> < 2 powi (e + 1)"
  shows "to_double r = of_int (round_even (r * 2 powi (52 - e))) * 2 powi (e - 52)"
proof -
  have "(0::real) < 2 powi e" by simp
  then have "0 < \<bar>r\<bar>" using assms(1) by linarith
  then have r0: "r \<noteq> 0" "0 < \<bar>r\<bar>" by auto
  have "of_int e \<le> log 2 \<bar>r\<bar>"
    using assms(1) r0 by (simp add: le_log_iff powr_real_of_int')
  moreover have "log 2 \<bar>r\<bar> < of_int e + 1"
  proof -
    have "(2::real) powr (of_int (e + 1)) = 2 powi (e + 1)"
      by (simp add: powr_real_of_int' del: of_int_add)
    then have "log 2 \<bar>r\<bar> < of_int (e + 1)"
      using assms(2) r0 by (subst log_less_iff) simp_all
    then show ?thesis by simp
  qed
  ultimately have "\<lfloor>log 2 \<bar>r\<bar>\<rfloor> = e" by (simp add: floor_unique)
  then show ?thesis using r0 by (simp add: to_double_def)
qed

lemma to_double_one: "to_double 1 = 1"
  using to_double_eq[of 0 1] by (simp add: round_even_def)

text \<open>The values that \<open>initializeParticlesGeometric\<close> computes for \<open>n = 250000000\<close>,
  \<open>g = 3\<close> and \<open>rho = 1.000000008\<close>. The square of \<open>rho\<close> is rounded down to
  \<open>1 + 2 * 36028797 / 2\<^sup>5\<^sup>2\<close>, so that the quotient is \<open>1/2\<close> and \<open>A\<close> is \<open>n / 2\<close>, above
  its exact value \<open>n / (1 + rho)\<close>; the product \<open>A * rho\<close>, within \<open>10\<^sup>-\<^sup>9\<close> of
  \<open>125000001\<close>, is rounded up to it.\<close>

lemma rho_8_nearest: "to_double (1000000008 / 1000000000) = rho_8"
  using to_double_eq[of 0 "1000000008 / 1000000000"]
  by (simp add: round_even_def Let_def rho_8_def)

lemma pow_rho_8:
  "pow rho_8 0 = 1" "pow rho_8 1 = rho_8" "pow rho_8 2 = 2251799849714045 / 2251799813685248"
  using to_double_eq[of 0 "rho_8"] to_double_eq[of 0 "rho_8 powi 2"]
  by (simp_all add: pow_def to_double_one round_even_def Let_def rho_8_def power2_eq_square)

lemma geometric_A_rho_8: "geometric_A 250000000 3 rho_8 = 125000000"
proof -
  have 1: "to_double (of_int 250000000) = 250000000"
    using to_double_eq[of 27 250000000] by (simp add: round_even_def)
  have 2: "to_double (1 - rho_8) = - (36028797 / 4503599627370496)"
    using to_double_eq[of "- 27" "1 - rho_8"] by (simp add: round_even_def Let_def rho_8_def)
  have 3: "to_double (1 - 2251799849714045 / 2251799813685248) = - (36028797 / 2251799813685248)"
    using to_double_eq[of "- 26" "1 - 2251799849714045 / 2251799813685248"]
    by (simp add: round_even_def Let_def)
  have 4: "to_double (- (36028797 / 4503599627370496) / - (36028797 / 2251799813685248)) = 1/2"
    using to_double_eq[of "- 1" "1/2"] by (simp add: round_even_def)
  have 5: "to_double (250000000 * (1/2)) = 125000000"
    using to_double_eq[of 26 125000000] by (simp add: round_even_def)
  have "(3::int) - 1 = 2" by simp
  then show ?thesis
    unfolding geometric_A_def by (simp only: pow_rho_8 1 2 3 4 5)
qed

lemma column_count_rho_8:
  "column_count 250000000 3 rho_8 0 = 125000000"
  "column_count 250000000 3 rho_8 1 = 125000001"
proof -
  have 1: "to_double (125000000 * 1) = 125000000"
    using to_double_eq[of 26 125000000] by (simp add: round_even_def)
  have 2: "to_double (125000000 * rho_8) = 125000001"
    using to_double_eq[of 26 "125000000 * rho_8"] by (simp add: round_even_def Let_def rho_8_def)
  show "column_count 250000000 3 rho_8 0 = 125000000"
    unfolding column_count_def geometric_A_rho_8 pow_rho_8 1 by simp
  show "column_count 250000000 3 rho_8 1 = 125000001"
    unfolding column_count_def geometric_A_rho_8 pow_rho_8 2 by simp
qed

text \<open>In exact arithmetic the counts at this input are one less and fit.\<close>

lemma exact_count_rho_8:
  "exact_count 250000000 3 rho_8 0 = 124999999"
  "exact_count 250000000 3 rho_8 1 = 125000000"
  by (simp_all add: exact_count_def exact_A_def rho_8_def power2_eq_square)

text \<open>The column counts in exact arithmetic sum to at most \<open>n\<close>.\<close>

lemma int_sum_nat: "(\<Sum>x \<in> {0..<int m}. f x) = (\<Sum>i<m. f (int i))"
proof -
  have "{0..<int m} = int ` {..<m}"
    using image_int_atLeastLessThan[of 0 m] by (simp add: lessThan_atLeast0)
  then show ?thesis by (simp add: sum.reindex)
qed

lemma power_ne_one:
  fixes rho :: real
  assumes "0 < rho" "rho \<noteq> 1" "0 < m"
  shows "rho ^ m \<noteq> 1"
proof (cases "rho < 1")
  case True
  then have "rho ^ m < 1" using assms by (simp add: power_less_one_iff)
  then show ?thesis by simp
next
  case False
  then have "1 < rho" using assms by simp
  then have "1 < rho ^ m" using assms by (simp add: one_less_power)
  then show ?thesis by simp
qed

lemma exact_total:
  assumes "1 \<le> n" "2 \<le> g" "0 < rho" "rho \<noteq> 1"
  shows "(\<Sum>x \<in> {0..<g - 1}. exact_A n g rho * rho powi x) = of_int n"
proof -
  let ?m = "nat (g - 1)"
  have m: "0 < ?m" "int ?m = g - 1" using assms by simp_all
  have p: "rho powi (g - 1) = rho ^ ?m" using assms by (simp add: power_int_def)
  have ne: "rho ^ ?m \<noteq> 1" using power_ne_one[OF assms(3,4) m(1)] .
  have "(\<Sum>x \<in> {0..<g - 1}. exact_A n g rho * rho powi x)
          = (\<Sum>i<?m. exact_A n g rho * rho powi (int i))"
    using int_sum_nat[where m = ?m and f = "\<lambda>x. exact_A n g rho * rho powi x"] m by simp
  also have "\<dots> = exact_A n g rho * (\<Sum>i<?m. rho ^ i)"
    by (simp add: sum_distrib_left)
  also have "\<dots> = exact_A n g rho * ((rho ^ ?m - 1) / (rho - 1))"
    using assms by (simp add: geometric_sum)
  also have "\<dots> = of_int n"
  proof -
    have a: "1 - rho \<noteq> 0" "1 - rho ^ ?m \<noteq> 0" using ne assms by simp_all
    have "(rho ^ ?m - 1) / (rho - 1) = (1 - rho ^ ?m) / (1 - rho)"
      using a by (simp add: frac_eq_eq algebra_simps)
    then have "(1 - rho) / (1 - rho ^ ?m) * ((rho ^ ?m - 1) / (rho - 1)) = 1"
      using a by simp
    then show ?thesis unfolding exact_A_def p by (simp only: mult.assoc mult_1_right)
  qed
  finally show ?thesis .
qed

lemma exact_count_total:
  assumes "1 \<le> n" "2 \<le> g" "0 < rho" "rho \<noteq> 1"
  shows "(\<Sum>x \<in> {0..<g - 1}. exact_count n g rho x) \<le> n"
proof -
  have "real_of_int (\<Sum>x \<in> {0..<g - 1}. exact_count n g rho x)
          = (\<Sum>x \<in> {0..<g - 1}. of_int \<lfloor>exact_A n g rho * rho powi x\<rfloor>)"
    by (simp add: exact_count_def)
  also have "\<dots> \<le> (\<Sum>x \<in> {0..<g - 1}. exact_A n g rho * rho powi x)"
    by (intro sum_mono) simp
  also have "\<dots> = of_int n" by (rule exact_total[OF assms])
  finally have "real_of_int (\<Sum>x \<in> {0..<g - 1}. exact_count n g rho x) \<le> of_int n" .
  then show ?thesis by (simp only: of_int_le_iff)
qed

text \<open>The loops of \<open>initializeParticlesGeometric\<close>.\<close>

lemma for_each_append:
  "for_each body (as @ bs) s = bind_r (for_each body as s) (for_each body bs)"
proof (induction as arbitrary: s)
  case Nil
  then show ?case by (simp add: bind_r_def)
next
  case (Cons a as)
  then show ?case by (cases "body a s") (simp_all add: bind_r_def)
qed

lemma placed_before_0: "placed_before n g rho 0 = 0"
  by (simp add: placed_before_def)

lemma placed_before_Suc:
  assumes "0 \<le> x"
  shows "placed_before n g rho (x + 1) = placed_before n g rho x + column_count n g rho x"
proof -
  have "{0..<x + 1} = insert x {0..<x}" using assms by auto
  then show ?thesis by (simp add: placed_before_def)
qed

lemma placed_before_mono:
  assumes "\<forall>x. 0 \<le> x \<and> x < g - 1 \<longrightarrow> 0 \<le> column_count n g rho x" "x \<le> x'" "x' \<le> g - 1"
  shows "placed_before n g rho x \<le> placed_before n g rho x'"
proof -
  have "{0..<x} \<subseteq> {0..<x'}" using assms by auto
  moreover have "\<forall>i \<in> {0..<x'}. 0 \<le> column_count n g rho i"
    using assms by simp
  ultimately show ?thesis
    unfolding placed_before_def by (intro sum_mono2) auto
qed

lemma placed_set_xy:
  assumes "0 \<le> x" "x < g - 1"
  shows "placed g (q\<lparr>p_x := of_int x + REL_X, p_y := of_int r + REL_Y\<rparr>)"
proof -
  have "\<lfloor>of_int x + REL_X\<rfloor> = x" "\<lfloor>of_int r + REL_Y\<rfloor> = r"
    by (simp_all add: REL_X_def REL_Y_def floor_unique)
  then show ?thesis using assms by (simp add: placed_def)
qed

lemma set_xy_placed:
  assumes len: "int (length particles) = n" and i: "0 \<le> i" "i < n"
    and x: "0 \<le> x" "x < g - 1"
    and old: "\<forall>j. 0 \<le> j \<and> j < i \<longrightarrow> placed g (particles ! nat j)"
  shows "\<exists>ps. set_xy particles i (of_int x + REL_X) (of_int r + REL_Y) = Inr ps \<and>
           int (length ps) = n \<and> (\<forall>j. 0 \<le> j \<and> j < i + 1 \<longrightarrow> placed g (ps ! nat j))"
proof -
  let ?q = "(particles ! nat i)\<lparr>p_x := of_int x + REL_X, p_y := of_int r + REL_Y\<rparr>"
  have w: "set_xy particles i (of_int x + REL_X) (of_int r + REL_Y) = Inr (particles[nat i := ?q])"
    using len i by (simp add: set_xy_def array_get_def array_set_def)
  have "placed g (particles[nat i := ?q] ! nat j)" if j: "0 \<le> j \<and> j < i + 1" for j
  proof (cases "j = i")
    case True
    then show ?thesis using len i placed_set_xy[OF x] by simp
  next
    case False
    then have "nat i \<noteq> nat j" using j i by linarith
    then show ?thesis using old j False by simp
  qed
  then show ?thesis using w len by simp
qed

text \<open>A column whose particles fit in the array.\<close>

lemma geometric_column:
  fixes lcg :: "int \<Rightarrow> 's \<Rightarrow> int \<times> 's"
  assumes x: "0 \<le> x" "x < g - 1" and cnt: "0 \<le> cnt" and base: "0 \<le> base" "base + cnt \<le> n"
    and inv: "geometric_inv g n base st"
  shows "\<exists>st'. for_each (\<lambda>p. place_in_column lcg g x) [0..cnt - 1] st = Inr st' \<and>
           geometric_inv g n (base + (cnt - 1 + 1)) st'"
proof (rule for_each_upto_inv[where I = "\<lambda>p. geometric_inv g n (base + p)"])
  show "0 \<le> cnt - 1 + 1" using cnt by simp
  show "geometric_inv g n (base + 0) st" using inv by simp
next
  fix p and st :: "particle_t list \<times> int \<times> 's"
  assume h: "0 \<le> p" "p \<le> cnt - 1" "geometric_inv g n (base + p) st"
  obtain particles pi' s where st: "st = (particles, pi', s)" by (cases st)
  obtain r s' where l: "lcg (g - 1) s = (r, s')" by (cases "lcg (g - 1) s")
  have len: "int (length particles) = n" and pi: "pi' = base + p"
    and old: "\<forall>j. 0 \<le> j \<and> j < pi' \<longrightarrow> placed g (particles ! nat j)"
    using h(3) unfolding st geometric_inv_def by auto
  have b: "0 \<le> pi'" "pi' < n" using pi h base by simp_all
  from set_xy_placed[OF len b x old, of r] obtain ps
    where w: "set_xy particles pi' (of_int x + REL_X) (of_int r + REL_Y) = Inr ps"
      and ps: "int (length ps) = n" "\<forall>j. 0 \<le> j \<and> j < pi' + 1 \<longrightarrow> placed g (ps ! nat j)"
    by blast
  have "geometric_inv g n (base + (p + 1)) (ps, pi' + 1, s')"
    unfolding geometric_inv_def using ps pi by simp
  then show "\<exists>s'. place_in_column lcg g x st = Inr s' \<and> geometric_inv g n (base + (p + 1)) s'"
    by (simp add: place_in_column_def st l w)
qed

text \<open>A column with more particles than free elements: the loop has no test on \<open>pi\<close>,
  and the particle of index \<open>n\<close> is written beyond the array.\<close>

lemma geometric_column_overflow:
  fixes lcg :: "int \<Rightarrow> 's \<Rightarrow> int \<times> 's"
  assumes x: "0 \<le> x" "x < g - 1" and base: "0 \<le> base" "base \<le> n" "n < base + cnt"
    and inv: "geometric_inv g n base st"
  shows "for_each (\<lambda>p. place_in_column lcg g x) [0..cnt - 1] st = Inl Fault"
proof -
  define k where "k = n - base"
  have k: "0 \<le> k" "k \<le> cnt - 1" "base + k \<le> n" using base by (simp_all add: k_def)
  have "[0..cnt - 1] = [0..k - 1] @ [k..cnt - 1]" using k by (intro upto_split1) simp_all
  also have "[k..cnt - 1] = k # [k + 1..cnt - 1]" using k by (simp add: upto_rec1)
  finally have sp: "[0..cnt - 1] = [0..k - 1] @ k # [k + 1..cnt - 1]" .
  from geometric_column[OF x k(1) base(1) k(3) inv, of lcg] obtain st'
    where f: "for_each (\<lambda>p. place_in_column lcg g x) [0..k - 1] st = Inr st'"
      and i: "geometric_inv g n n st'"
    by (auto simp: k_def)
  obtain particles pi' s where st: "st' = (particles, pi', s)" by (cases st')
  have len: "int (length particles) = n" "pi' = n" using i unfolding st geometric_inv_def by auto
  have "place_in_column lcg g x st' = Inl Fault"
    unfolding st place_in_column_def set_xy_def array_get_def using len
    by (simp add: bind_r_def split: prod.splits)
  then show ?thesis
    unfolding sp for_each_append f by (simp add: bind_r_def)
qed

text \<open>The function in terms of \<open>column_count\<close>.\<close>

lemma initializeParticlesGeometric_eq:
  "initializeParticlesGeometric avail junk lcg s n g rho =
     (case malloc avail junk n of
        None \<Rightarrow> Inl (Exit EXIT_FAILURE)
      | Some particles \<Rightarrow>
           bind_r (for_each (\<lambda>x. for_each (\<lambda>p. place_in_column lcg g x)
                                [0..column_count n g rho x - 1])
                    [0..g - 2] (particles, 0, s))
             (\<lambda>(particles, pi', s).
                for_each (\<lambda>pi' (particles, s).
                    case lcg (g - 1) s of (r, s') \<Rightarrow>
                      bind_r (set_xy particles pi' REL_X (of_int r + REL_Y))
                        (\<lambda>particles. Inr (particles, s')))
                  [pi'..n - 1] (particles, s)))"
  unfolding initializeParticlesGeometric_def column_count_def geometric_A_def Let_def ..

text \<open>The column loop from column \<open>x\<close> on: it ends normally when the counts of all
  columns sum to at most \<open>n\<close>, and beyond the array otherwise.\<close>

lemma geometric_columns_from:
  fixes lcg :: "int \<Rightarrow> 's \<Rightarrow> int \<times> 's" and st :: "particle_t list \<times> int \<times> 's"
  assumes nonneg: "\<forall>x. 0 \<le> x \<and> x < g - 1 \<longrightarrow> 0 \<le> column_count n g rho x"
    and x: "0 \<le> x" "x \<le> g - 1" and fits: "placed_before n g rho x \<le> n"
    and inv: "geometric_inv g n (placed_before n g rho x) st"
  shows "if placed_before n g rho (g - 1) \<le> n
         then \<exists>st'. for_each (\<lambda>x. for_each (\<lambda>p. place_in_column lcg g x)
                                [0..column_count n g rho x - 1]) [x..g - 2] st = Inr st' \<and>
                    geometric_inv g n (placed_before n g rho (g - 1)) st'
         else for_each (\<lambda>x. for_each (\<lambda>p. place_in_column lcg g x)
                                [0..column_count n g rho x - 1]) [x..g - 2] st = Inl Fault"
  using x fits inv
proof (induction "nat (g - 1 - x)" arbitrary: x st)
  case 0
  then have "x = g - 1" by simp
  then show ?case using 0 by simp
next
  case (Suc d)
  have x: "0 \<le> x" "x < g - 1" using Suc by simp_all
  have up: "[x..g - 2] = x # [x + 1..g - 2]" using x by (simp add: upto_rec1)
  have cnt: "0 \<le> column_count n g rho x" using nonneg x by simp
  have b0: "0 \<le> placed_before n g rho x"
    using placed_before_mono[OF nonneg, of 0 x] x by (simp add: placed_before_0)
  have nx: "placed_before n g rho (x + 1) = placed_before n g rho x + column_count n g rho x"
    by (rule placed_before_Suc[OF x(1)])
  show ?case
  proof (cases "placed_before n g rho (x + 1) \<le> n")
    case True
    from geometric_column[OF x cnt b0 _ Suc.prems(4), of lcg] True obtain st1
      where c: "for_each (\<lambda>p. place_in_column lcg g x) [0..column_count n g rho x - 1] st = Inr st1"
        and i: "geometric_inv g n (placed_before n g rho (x + 1)) st1"
      by (auto simp: nx)
    have d: "d = nat (g - 1 - (x + 1))" using Suc(2) by simp
    have "0 \<le> x + 1" "x + 1 \<le> g - 1" using x by simp_all
    from Suc(1)[OF d this True i] show ?thesis
      unfolding up by (cases "placed_before n g rho (g - 1) \<le> n") (simp_all add: c)
  next
    case False
    have "placed_before n g rho (x + 1) \<le> placed_before n g rho (g - 1)"
      using placed_before_mono[OF nonneg, of "x + 1" "g - 1"] x by simp
    then have big: "\<not> placed_before n g rho (g - 1) \<le> n" using False by simp
    have "for_each (\<lambda>p. place_in_column lcg g x) [0..column_count n g rho x - 1] st = Inl Fault"
      using geometric_column_overflow[OF x b0 Suc.prems(3) _ Suc.prems(4), of _ lcg] False
      by (simp add: nx)
    then show ?thesis unfolding up using big by simp
  qed
qed

lemma geometric_remaining:
  fixes lcg :: "int \<Rightarrow> 's \<Rightarrow> int \<times> 's"
  assumes g: "2 \<le> g" and pi: "0 \<le> pi0" "pi0 \<le> n"
    and inv: "remaining_inv g n pi0 (particles, s)"
  shows "\<exists>st'. for_each (\<lambda>pi' (particles, s).
                    case lcg (g - 1) s of (r, s') \<Rightarrow>
                      bind_r (set_xy particles pi' REL_X (of_int r + REL_Y))
                        (\<lambda>particles. Inr (particles, s')))
                  [pi0..n - 1] (particles, s) = Inr st' \<and> remaining_inv g n (n - 1 + 1) st'"
proof (rule for_each_upto_inv[where I = "remaining_inv g n"])
  show "pi0 \<le> n - 1 + 1" using pi by simp
  show "remaining_inv g n pi0 (particles, s)" by fact
next
  fix i and st :: "particle_t list \<times> 's"
  assume h: "pi0 \<le> i" "i \<le> n - 1" "remaining_inv g n i st"
  obtain particles s where st: "st = (particles, s)" by (cases st)
  obtain r s' where l: "lcg (g - 1) s = (r, s')" by (cases "lcg (g - 1) s")
  have len: "int (length particles) = n"
    and old: "\<forall>j. 0 \<le> j \<and> j < i \<longrightarrow> placed g (particles ! nat j)"
    using h(3) unfolding st remaining_inv_def by auto
  have b: "0 \<le> i" "i < n" using h pi by simp_all
  have x: "(0::int) \<le> 0" "0 < g - 1" using g by simp_all
  from set_xy_placed[OF len b x old, of r] obtain ps
    where w: "set_xy particles i REL_X (of_int r + REL_Y) = Inr ps"
      and ps: "int (length ps) = n" "\<forall>j. 0 \<le> j \<and> j < i + 1 \<longrightarrow> placed g (ps ! nat j)"
    by auto
  have "remaining_inv g n (i + 1) (ps, s')"
    unfolding remaining_inv_def using ps by simp
  then show "\<exists>s'. (case st of (particles, s) \<Rightarrow>
                    case lcg (g - 1) s of (r, s') \<Rightarrow>
                      bind_r (set_xy particles i REL_X (of_int r + REL_Y))
                        (\<lambda>particles. Inr (particles, s'))) = Inr s' \<and> remaining_inv g n (i + 1) s'"
    by (simp add: st l w)
qed

text \<open>When the counts computed in doubles are non-negative and sum to at most \<open>n\<close>, the
  function places exactly \<open>n\<close> particles: every slot of the array, whatever fresh memory
  held.\<close>

lemma initializeParticlesGeometric_fills_if_fits:
  fixes lcg :: "int \<Rightarrow> 's \<Rightarrow> int \<times> 's"
  assumes "0 \<le> n" "2 \<le> g" "avail (nat n)"
    and nonneg: "\<forall>x. 0 \<le> x \<and> x < g - 1 \<longrightarrow> 0 \<le> column_count n g rho x"
    and fits: "placed_before n g rho (g - 1) \<le> n"
  shows "\<exists>particles s'.
           initializeParticlesGeometric avail junk lcg s n g rho = Inr (particles, s') \<and>
           int (length particles) = n \<and>
           (\<forall>j. 0 \<le> j \<and> j < n \<longrightarrow> placed g (particles ! nat j))"
proof -
  have m: "malloc avail junk n = Some (replicate (nat n) junk)"
    using assms by (simp add: malloc_def)
  have i0: "geometric_inv g n (placed_before n g rho 0) (replicate (nat n) junk, 0, s)"
    using assms(1) by (auto simp: geometric_inv_def placed_before_0)
  have "0 \<le> g - 1" using assms by simp
  from geometric_columns_from[OF nonneg order_refl this _ i0, of lcg] fits assms(1)
  obtain particles pi' s1
    where c: "for_each (\<lambda>x. for_each (\<lambda>p. place_in_column lcg g x)
                              [0..column_count n g rho x - 1]) [0..g - 2]
                (replicate (nat n) junk, 0, s) = Inr (particles, pi', s1)"
      and i: "geometric_inv g n (placed_before n g rho (g - 1)) (particles, pi', s1)"
    by (auto simp: placed_before_0)
  have "placed_before n g rho 0 \<le> placed_before n g rho (g - 1)"
    using placed_before_mono[OF nonneg, of 0 "g - 1"] assms(2) by simp
  then have pi0: "0 \<le> pi'" "pi' \<le> n"
    using i fits unfolding geometric_inv_def by (simp_all add: placed_before_0)
  have "remaining_inv g n pi' (particles, s1)"
    using i unfolding geometric_inv_def remaining_inv_def by simp
  from geometric_remaining[OF assms(2) pi0 this, of lcg] obtain ps s2
    where r: "for_each (\<lambda>pi' (particles, s).
                    case lcg (g - 1) s of (r, s') \<Rightarrow>
                      bind_r (set_xy particles pi' REL_X (of_int r + REL_Y))
                        (\<lambda>particles. Inr (particles, s')))
                  [pi'..n - 1] (particles, s1) = Inr (ps, s2)"
      and j: "remaining_inv g n n (ps, s2)"
    by auto
  have "initializeParticlesGeometric avail junk lcg s n g rho = Inr (ps, s2)"
    unfolding initializeParticlesGeometric_eq m by (simp add: c r)
  with j show ?thesis unfolding remaining_inv_def by auto
qed

text \<open>When they sum to more than \<open>n\<close>, the column loop writes beyond the array.\<close>

lemma initializeParticlesGeometric_overflow:
  fixes lcg :: "int \<Rightarrow> 's \<Rightarrow> int \<times> 's"
  assumes "0 \<le> n" "2 \<le> g" "avail (nat n)"
    and nonneg: "\<forall>x. 0 \<le> x \<and> x < g - 1 \<longrightarrow> 0 \<le> column_count n g rho x"
    and over: "n < placed_before n g rho (g - 1)"
  shows "initializeParticlesGeometric avail junk lcg s n g rho = Inl Fault"
proof -
  have m: "malloc avail junk n = Some (replicate (nat n) junk)"
    using assms by (simp add: malloc_def)
  have i0: "geometric_inv g n (placed_before n g rho 0) (replicate (nat n) junk, 0, s)"
    using assms(1) by (auto simp: geometric_inv_def placed_before_0)
  have "0 \<le> g - 1" using assms by simp
  from geometric_columns_from[OF nonneg order_refl this _ i0, of lcg] over assms(1)
  have "for_each (\<lambda>x. for_each (\<lambda>p. place_in_column lcg g x)
                              [0..column_count n g rho x - 1]) [0..g - 2]
                (replicate (nat n) junk, 0, s) = Inl Fault"
    by (simp add: placed_before_0)
  then show ?thesis
    unfolding initializeParticlesGeometric_eq m by (simp add: bind_r_def)
qed

lemma placed_before_rho_8: "placed_before 250000000 3 rho_8 2 = 250000001"
proof -
  have "placed_before 250000000 3 rho_8 1 = 125000000"
    using placed_before_Suc[where x = 0 and n = 250000000 and g = 3 and rho = rho_8]
    by (simp add: placed_before_0 column_count_rho_8)
  then show ?thesis
    using placed_before_Suc[where x = 1 and n = 250000000 and g = 3 and rho = rho_8]
    by (simp add: column_count_rho_8)
qed

text \<open>
  C10. The claim: for \<open>n \<ge> 1\<close>, \<open>g \<ge> 3\<close> and \<open>\<rho> > 0\<close> with \<open>\<rho> \<noteq> 1\<close>, the column counts
  \<open>\<lfloor>A \<rho>\<^sup>x\<rfloor>\<close> sum to at most \<open>n\<close>, so that \<open>initializeParticlesGeometric\<close> never writes past
  the \<open>n\<close> allocated elements. The counts of exact arithmetic do sum to at most \<open>n\<close>
  (\<open>exact_count_total\<close>), and the function fills the array whenever the counts it
  computes do (\<open>initializeParticlesGeometric_fills_if_fits\<close>). The counts computed in doubles
  can sum to more. For \<open>n = 250000000\<close>, \<open>g = 3\<close> and the attenuation factor
  \<open>1.000000008\<close>, \<open>1 - pow(rho, 2)\<close> loses the low bits of the square, \<open>A\<close> is \<open>n / 2\<close>
  and the two columns receive \<open>125000000\<close> and \<open>125000001\<close> particles, where exact
  arithmetic gives \<open>124999999\<close> and \<open>125000000\<close>. The column loop has no test on the
  index \<open>pi\<close>: the last particle is written to the element of index \<open>n\<close>, beyond the
  array.
\<close>

theorem initializeParticlesGeometric_writes_beyond:
  "to_double (1000000008 / 1000000000) = rho_8 \<and>
   column_count 250000000 3 rho_8 0 = 125000000 \<and>
   column_count 250000000 3 rho_8 1 = 125000001 \<and>
   exact_count 250000000 3 rho_8 0 = 124999999 \<and>
   exact_count 250000000 3 rho_8 1 = 125000000 \<and>
   initializeParticlesGeometric (\<lambda>n. True) (resting 0 0) (\<lambda>bound s. (0, s)) () 250000000 3 rho_8
     = Inl Fault"
proof -
  have nonneg: "\<forall>x. 0 \<le> x \<and> x < 3 - 1 \<longrightarrow> 0 \<le> column_count 250000000 3 rho_8 x"
  proof (intro allI impI)
    fix x :: int assume "0 \<le> x \<and> x < 3 - 1"
    then have "x = 0 \<or> x = 1" by auto
    then show "0 \<le> column_count 250000000 3 rho_8 x" by (auto simp: column_count_rho_8)
  qed
  have "initializeParticlesGeometric (\<lambda>n. True) (resting 0 0) (\<lambda>bound s. (0, s)) ()
          250000000 3 rho_8 = Inl Fault"
    by (rule initializeParticlesGeometric_overflow[OF _ _ _ nonneg])
      (simp_all add: placed_before_rho_8)
  then show ?thesis
    by (simp only: rho_8_nearest column_count_rho_8 exact_count_rho_8 simp_thms)
qed

subsection \<open>Force on a particle at the centre of a cell, and a run step by step\<close>

lemma sqrt_half_pos: "0 < sqrt (1/2 :: real)" by simp

lemma computeCoulomb_half:
  "computeCoulomb (1/2) (1/2) q c = (q * c / sqrt (1/2), q * c / sqrt (1/2))"
  by (simp add: computeCoulomb_def Let_def)

lemma computeTotalForce_half:
  assumes x: "p_x p = of_int cx + 1/2" and y: "p_y p = of_int cy + 1/2"
    and c: "QG Qgrid g cy cx = Inr c1" "QG Qgrid g (cy + 1) cx = Inr c2"
      "QG Qgrid g cy (cx + 1) = Inr c3" "QG Qgrid g (cy + 1) (cx + 1) = Inr c4"
  shows "computeTotalForce p g Qgrid
           = Inr ((c1 + c2 - c3 - c4) * p_q p / sqrt (1/2), (c1 - c2 + c3 - c4) * p_q p / sqrt (1/2))"
proof -
  have f: "\<lfloor>p_x p\<rfloor> = cx" "\<lfloor>p_y p\<rfloor> = cy" unfolding x y by (simp_all add: floor_unique)
  have r: "p_x p - of_int cx = 1/2" "p_y p - of_int cy = 1/2" "1 - (1/2 :: real) = 1/2"
    unfolding x y by simp_all
  show ?thesis
    unfolding computeTotalForce_def Let_def f r c bind_r_simps computeCoulomb_half prod.case
    by (simp add: algebra_simps add_divide_distrib diff_divide_distrib)
qed

lemma initializeGrid_3: "initializeGrid (\<lambda>n. True) junk 3 = Inr grid3"
  by (simp add: initializeGrid_def malloc_def array_set_def QG_index_def Q_def grid3_def
      upto_rec1 numeral_eq_Suc)

lemma parse_args_run: "parse_args test_env (run_args m) = Inr (run_config (test_atoi m))"
  by (simp add: parse_args_def run_args_def arg_def array_get_def test_env_def test_atoi_def
      parse_init_mode_def read_patch_def bad_patch_def parse_population_change_def
      run_config_def config0_def Let_def)

lemma initializeParticles_run:
  "initializeParticles test_env (run_config m) 3 = Inr [(resting 0 0)\<lparr>p_x := 1/2, p_y := 1/2\<rparr>]"
  by (simp add: initializeParticles_def run_config_def config0_def initializeParticlesPatch_def
      test_env_def malloc_def set_xy_def array_get_def array_set_def REL_X_def REL_Y_def Let_def)

lemma finish_distribution_run:
  "finish_distribution 0 0 m 1 [(resting 0 0)\<lparr>p_x := 1/2, p_y := 1/2\<rparr>]
     = Inr [moving (1/2) (1/2) 0 m]"
  by (simp add: finish_distribution_result finish_particle_eq fmod_half trunc_half
      spec_charge_magnitude_half resting_def moving_def dt_def int_32_def)

lemma fmod_values:
  "fmod (1/2) 2 = 1/2" "fmod (5/2) 2 = 1/2" "fmod (7/2) 2 = 3/2" "fmod (9/2) 2 = 1/2"
  "fmod (11/2) 2 = 3/2" "fmod (13/2) 2 = 1/2" "fmod (- (1/2)) 2 = - (1/2)" "fmod (- (3/2)) 2 = - (3/2)"
  using fmod_unique_nonneg[of 2 "1/2" 0] fmod_unique_nonneg[of 2 "1/2" 1]
    fmod_unique_nonneg[of 2 "3/2" 1] fmod_unique_nonneg[of 2 "1/2" 2]
    fmod_unique_nonneg[of 2 "3/2" 2] fmod_unique_nonneg[of 2 "1/2" 3]
    fmod_unique_nonpos[of 2 "- (1/2)" 0] fmod_unique_nonpos[of 2 "- (3/2)" 0]
  by simp_all

lemma QG_grid3:
  "QG grid3 3 0 0 = Inr 1" "QG grid3 3 1 0 = Inr 1" "QG grid3 3 0 1 = Inr (- 1)"
  "QG grid3 3 1 1 = Inr (- 1)" "QG grid3 3 0 2 = Inr 1" "QG grid3 3 1 2 = Inr 1"
  "QG grid3 3 (- 1) 1 = Inr 1" "QG grid3 3 (- 1) 2 = Inr (- 1)"
  by (simp_all add: QG_def QG_index_def array_get_def grid3_def numeral_eq_Suc)

lemma advance_first:
  "advance grid3 3 2 (moving (1/2) (1/2) 0 m)
     = Inr (moving (3/2) (fmod (1/2 + of_int m + 2) 2) 2 m)"
proof -
  have "computeTotalForce (moving (1/2) (1/2) 0 m) 3 grid3
          = Inr ((1 + 1 - (- 1) - (- 1)) * (sqrt (1/2) / 2) / sqrt (1/2),
                 (1 - 1 + (- 1) - (- 1)) * (sqrt (1/2) / 2) / sqrt (1/2))"
    using computeTotalForce_half[of "moving (1/2) (1/2) 0 m" 0 0 grid3 3 1 1 "- 1" "- 1"]
    by (simp add: moving_def QG_grid3)
  also have "\<dots> = Inr (2, 0)" by simp
  finally show ?thesis
    by (simp add: advance_def moveParticle_def moving_def mass_inv_def dt_def fmod_values)
qed

lemma advance_second:
  "advance grid3 3 2 (moving (3/2) (1/2) 2 0) = Inr (moving (1/2) (1/2) 0 0)"
proof -
  have "computeTotalForce (moving (3/2) (1/2) 2 0) 3 grid3
          = Inr ((- 1 + - 1 - 1 - 1) * (sqrt (1/2) / 2) / sqrt (1/2),
                 (- 1 - - 1 + 1 - 1) * (sqrt (1/2) / 2) / sqrt (1/2))"
    using computeTotalForce_half[of "moving (3/2) (1/2) 2 0" 1 0 grid3 3 "- 1" "- 1" 1 1]
    by (simp add: moving_def QG_grid3)
  also have "\<dots> = Inr (- 2, 0)" by simp
  finally show ?thesis
    by (simp add: advance_def moveParticle_def moving_def mass_inv_def dt_def fmod_values)
qed

lemma advance_second_below:
  "advance grid3 3 2 (moving (3/2) (- (1/2)) 2 (- 3)) = Inr (moving (3/2) (- (3/2)) 2 (- 3))"
proof -
  have "computeTotalForce (moving (3/2) (- (1/2)) 2 (- 3)) 3 grid3
          = Inr ((1 + - 1 - - 1 - 1) * (sqrt (1/2) / 2) / sqrt (1/2),
                 (1 - - 1 + - 1 - 1) * (sqrt (1/2) / 2) / sqrt (1/2))"
    using computeTotalForce_half[of "moving (3/2) (- (1/2)) 2 (- 3)" 1 "- 1" grid3 3 1 "- 1" "- 1" 1]
    by (simp add: moving_def QG_grid3)
  also have "\<dots> = Inr (0, 0)" by simp
  finally show ?thesis
    by (simp add: advance_def moveParticle_def moving_def mass_inv_def dt_def fmod_values)
qed

lemma verifyParticle_moving:
  "verifyParticle (moving x y vx m) t grid3 3
     = Inr (if \<bar>x - fmod (1/2 + of_int (t * 1) + of_int (t * 1) * 2) 2\<bar> > epsilon \<or>
               \<bar>y - fmod (1/2 + of_int (m * t) + of_int t * \<bar>of_int m\<bar> * 2) 2\<bar> > epsilon
            then FAILURE else SUCCESS)"
  by (simp add: verifyParticle_def periodic_target_def moving_def QG_grid3 Let_def)

text \<open>The loop of \<open>main\<close> that moves the particles applies \<open>advance\<close> to each of the first
  \<open>n\<close> particles.\<close>

lemma move_particles_result:
  assumes "0 \<le> n" "n \<le> int (length particles)"
    and "\<forall>i < nat n. advance Qgrid g L (particles ! i) = Inr (h (particles ! i))"
  shows "move_particles Qgrid g L n particles
           = Inr (map h (take (nat n) particles) @ drop (nat n) particles)"
  unfolding move_particles_def
proof (rule for_each_pointwise[OF _ assms(1,2)])
  fix i s
  assume h: "0 \<le> i" "i < n" "length s = length particles" "s ! nat i = particles ! nat i"
  have "nat i < nat n" using h by simp
  with assms(3) have "advance Qgrid g L (particles ! nat i) = Inr (h (particles ! nat i))"
    by blast
  then show "bind_r (array_get s i) (\<lambda>p. bind_r (computeTotalForce p g Qgrid) (\<lambda>(fx, fy).
               let ax = fx * mass_inv; ay = fy * mass_inv
               in array_set s i (moveParticle p ax ay (of_int L))))
             = Inr (s[nat i := h (particles ! nat i)])"
    using h assms(2)
    by (auto simp: advance_def array_get_def array_set_def bind_r_eq_Inr Let_def
        split: prod.splits)
qed

lemma move_particles_single:
  assumes "advance Qgrid g L p = Inr p'"
  shows "move_particles Qgrid g L 1 [p] = Inr [p']"
  using assms
  by (auto simp: move_particles_def advance_def array_get_def array_set_def bind_r_eq_Inr Let_def
      split: prod.splits)

lemma time_step_run:
  assumes "advance grid3 3 2 p = Inr p'"
  shows "time_step test_env (run_config m) grid3 3 t ([p], 1, pc) = Inr ([p'], 1, pc)"
  by (simp add: time_step_def run_config_def config0_def move_particles_single[OF assms])

lemma simulate_run_validates: "simulate test_env (run_config 0) = Inr (True, 0)"
proof -
  have g: "initializeGrid (may_alloc test_env) (junk_charge test_env) 3 = Inr grid3"
    using initializeGrid_3 by (simp add: test_env_def)
  have s1: "time_step test_env (run_config 0) grid3 3 0 ([moving (1/2) (1/2) 0 0], 1, 1)
              = Inr ([moving (3/2) (1/2) 2 0], 1, 1)"
    using time_step_run[OF advance_first[of 0]] by (simp add: fmod_values)
  have s2: "time_step test_env (run_config 0) grid3 3 1 ([moving (3/2) (1/2) 2 0], 1, 1)
              = Inr ([moving (1/2) (1/2) 0 0], 1, 1)"
    using time_step_run[OF advance_second] by simp
  have l: "for_each (time_step test_env (run_config 0) grid3 3) [0..1]
             ([moving (1/2) (1/2) 0 0], 1, 1) = Inr ([moving (1/2) (1/2) 0 0], 1, 1)"
    by (simp add: upto_rec1 s1 s2)
  have v: "verifyParticle (moving (1/2) (1/2) 0 0) 2 grid3 3 = Inr 1"
    by (simp add: verifyParticle_moving fmod_values epsilon_def SUCCESS_def)
  have c: "cfg_L (run_config 0) = 2" "cfg_k (run_config 0) = 0" "cfg_m (run_config 0) = 0"
    "cfg_n (run_config 0) = 1" "cfg_T (run_config 0) = 1"
    by (simp_all add: run_config_def config0_def)
  show ?thesis
    unfolding simulate_def Let_def c
    by (simp add: g initializeParticles_run finish_distribution_run l array_get_def v)
qed

lemma simulate_run_fails: "simulate test_env (run_config (- 3)) = Inr (False, 0)"
proof -
  have g: "initializeGrid (may_alloc test_env) (junk_charge test_env) 3 = Inr grid3"
    using initializeGrid_3 by (simp add: test_env_def)
  have s1: "time_step test_env (run_config (- 3)) grid3 3 0 ([moving (1/2) (1/2) 0 (- 3)], 1, 1)
              = Inr ([moving (3/2) (- (1/2)) 2 (- 3)], 1, 1)"
    using time_step_run[OF advance_first[of "- 3"]] by (simp add: fmod_values)
  have s2: "time_step test_env (run_config (- 3)) grid3 3 1 ([moving (3/2) (- (1/2)) 2 (- 3)], 1, 1)
              = Inr ([moving (3/2) (- (3/2)) 2 (- 3)], 1, 1)"
    using time_step_run[OF advance_second_below] by simp
  have l: "for_each (time_step test_env (run_config (- 3)) grid3 3) [0..1]
             ([moving (1/2) (1/2) 0 (- 3)], 1, 1) = Inr ([moving (3/2) (- (3/2)) 2 (- 3)], 1, 1)"
    by (simp add: upto_rec1 s1 s2)
  have v: "verifyParticle (moving (3/2) (- (3/2)) 2 (- 3)) 2 grid3 3 = Inr 0"
    by (simp add: verifyParticle_moving fmod_values epsilon_def FAILURE_def)
  have c: "cfg_L (run_config (- 3)) = 2" "cfg_k (run_config (- 3)) = 0"
    "cfg_m (run_config (- 3)) = - 3" "cfg_n (run_config (- 3)) = 1" "cfg_T (run_config (- 3)) = 1"
    by (simp_all add: run_config_def config0_def)
  show ?thesis
    unfolding simulate_def Let_def c
    by (simp add: g initializeParticles_run finish_distribution_run l array_get_def v)
qed

lemma main_run_validates: "main test_env (run_args ''0'') = Inr (True, 0)"
  by (simp add: main_def parse_args_run test_atoi_def simulate_run_validates)

lemma main_run_fails: "main test_env (run_args ''-3'') = Inr (False, 0)"
  by (simp add: main_def parse_args_run test_atoi_def simulate_run_fails)

subsection \<open>The exit status\<close>

lemma no_exit_Inr [simp]: "no_exit (Inr v)"
  by (simp add: no_exit_def)

lemma no_exit_Fault [simp]: "no_exit (Inl Fault)"
  by (simp add: no_exit_def)

lemma no_exit_bind: "no_exit r \<Longrightarrow> (\<And>v. no_exit (f v)) \<Longrightarrow> no_exit (bind_r r f)"
  by (cases r) (auto simp: no_exit_def)

lemma no_exit_for_each: "(\<And>a s. no_exit (body a s)) \<Longrightarrow> no_exit (for_each body as s)"
  by (induction as arbitrary: s) (auto intro: no_exit_bind)

lemma no_exit_array_get [simp]: "no_exit (array_get xs i)"
  by (simp add: array_get_def)

lemma no_exit_array_set [simp]: "no_exit (array_set xs i v)"
  by (simp add: array_set_def)

lemma no_exit_QG [simp]: "no_exit (QG Qgrid g i j)"
  by (simp add: QG_def)

lemma no_exit_set_xy [simp]: "no_exit (set_xy particles i x y)"
  by (auto simp: set_xy_def intro: no_exit_bind)

lemma no_exit_memcpy [simp]: "no_exit (memcpy dst src n)"
  by (simp add: memcpy_def)

lemma no_exit_finish_distribution [simp]: "no_exit (finish_distribution t k m n particles)"
  unfolding finish_distribution_def by (intro no_exit_for_each no_exit_bind) simp_all

lemma no_exit_verifyParticle [simp]: "no_exit (verifyParticle p t Qgrid g)"
  unfolding verifyParticle_def periodic_target_def Let_def
  by (intro no_exit_bind) (simp_all split: prod.splits)

lemma no_exit_computeTotalForce [simp]: "no_exit (computeTotalForce p g Qgrid)"
  unfolding computeTotalForce_def Let_def
  by (intro no_exit_bind) (simp_all split: prod.splits)

lemma no_exit_remove_particles [simp]:
  "no_exit (remove_particles t patch n particles pc Qgrid g)"
  unfolding remove_particles_def
  by (intro no_exit_bind no_exit_for_each) (auto split: prod.splits intro!: no_exit_bind)

lemma no_exit_inject_particles [simp]:
  "no_exit (inject_particles avail junk t patch c n particles)"
  unfolding inject_particles_def Let_def
  by (auto split: option.splits prod.splits intro!: no_exit_bind no_exit_for_each)

lemma no_exit_inject_step [simp]: "no_exit (inject_step env c t st)"
  unfolding inject_step_def Let_def
  by (auto split: prod.splits intro!: no_exit_bind)

lemma no_exit_move_particles [simp]: "no_exit (move_particles Qgrid g L n particles)"
  unfolding move_particles_def Let_def
  by (intro no_exit_for_each no_exit_bind) (auto split: prod.splits)

lemma no_exit_time_step [simp]: "no_exit (time_step env c Qgrid g t st)"
  unfolding time_step_def
  by (auto split: prod.splits intro!: no_exit_bind)

lemma initializeGrid_exit:
  assumes "initializeGrid avail junk g = Inl (Exit st)"
  shows "malloc avail junk (g * g) = None"
proof (rule ccontr)
  assume "malloc avail junk (g * g) \<noteq> None"
  then obtain G where G: "malloc avail junk (g * g) = Some G" by auto
  have "no_exit (initializeGrid avail junk g)"
    unfolding initializeGrid_def G by (auto intro!: no_exit_for_each)
  with assms show False by (simp add: no_exit_def)
qed

lemma no_exit_place_in_column [simp]: "no_exit (place_in_column lcg g x st)"
  unfolding place_in_column_def by (auto split: prod.splits intro!: no_exit_bind)

lemma no_exit_spread_remaining [simp]: "no_exit (spread_remaining lcg g n st)"
  unfolding spread_remaining_def
  by (auto split: prod.splits intro!: no_exit_bind no_exit_for_each)

lemma initializeParticlesGeometric_exit:
  assumes "initializeParticlesGeometric avail junk lcg s n g rho = Inl (Exit st)"
  shows "malloc avail junk n = None"
proof (rule ccontr)
  assume "malloc avail junk n \<noteq> None"
  then obtain P where P: "malloc avail junk n = Some P" by auto
  have "no_exit (initializeParticlesGeometric avail junk lcg s n g rho)"
    unfolding initializeParticlesGeometric_def P Let_def
    by (auto split: prod.splits intro!: no_exit_bind no_exit_for_each)
  with assms show False by (simp add: no_exit_def)
qed

lemma initializeParticlesSinusoidal_exit:
  assumes "initializeParticlesSinusoidal avail junk lcg s n g = Inl (Exit st)"
  shows "malloc avail junk n = None"
proof (rule ccontr)
  assume "malloc avail junk n \<noteq> None"
  then obtain P where P: "malloc avail junk n = Some P" by auto
  have "no_exit (initializeParticlesSinusoidal avail junk lcg s n g)"
    unfolding initializeParticlesSinusoidal_def P Let_def
    by (auto split: prod.splits intro!: no_exit_bind no_exit_for_each)
  with assms show False by (simp add: no_exit_def)
qed

lemma initializeParticlesLinear_exit:
  assumes "initializeParticlesLinear avail junk lcg s n g alpha beta = Inl (Exit st)"
  shows "malloc avail junk n = None"
proof (rule ccontr)
  assume "malloc avail junk n \<noteq> None"
  then obtain P where P: "malloc avail junk n = Some P" by auto
  have "no_exit (initializeParticlesLinear avail junk lcg s n g alpha beta)"
    unfolding initializeParticlesLinear_def P Let_def
    by (auto split: prod.splits intro!: no_exit_bind no_exit_for_each)
  with assms show False by (simp add: no_exit_def)
qed

lemma initializeParticlesPatch_exit:
  assumes "initializeParticlesPatch avail junk n g patch = Inl (Exit st)"
  shows "malloc avail junk n = None"
proof (rule ccontr)
  assume "malloc avail junk n \<noteq> None"
  then obtain P where P: "malloc avail junk n = Some P" by auto
  have "no_exit (initializeParticlesPatch avail junk n g patch)"
    unfolding initializeParticlesPatch_def P Let_def
    by (auto split: prod.splits intro!: no_exit_bind no_exit_for_each)
  with assms show False by (simp add: no_exit_def)
qed

lemma bind_r_eq_Inl: "bind_r r f = Inl e \<longleftrightarrow> r = Inl e \<or> (\<exists>v. r = Inr v \<and> f v = Inl e)"
  by (cases r) simp_all

lemma initializeParticles_exit:
  assumes "initializeParticles env c g = Inl (Exit st)" "st \<noteq> 0"
  shows "malloc (may_alloc env) (junk_particle env) (cfg_n c) = None"
proof (cases "cfg_mode c")
  case GEOMETRIC
  with assms(1) show ?thesis
    by (auto simp: initializeParticles_def bind_r_eq_Inl split: prod.splits
        dest: initializeParticlesGeometric_exit)
next
  case SINUSOIDAL
  with assms(1) show ?thesis
    by (auto simp: initializeParticles_def bind_r_eq_Inl split: prod.splits
        dest: initializeParticlesSinusoidal_exit)
next
  case LINEAR
  with assms(1) show ?thesis
    by (auto simp: initializeParticles_def bind_r_eq_Inl split: prod.splits
        dest: initializeParticlesLinear_exit)
next
  case PATCH
  with assms(1) show ?thesis
    by (auto simp: initializeParticles_def dest: initializeParticlesPatch_exit)
next
  case UNDEFINED
  with assms show ?thesis by (simp add: initializeParticles_def FAILURE_def)
qed

lemma simulate_exit:
  assumes "simulate env c = Inl (Exit st)" "st \<noteq> 0"
  shows "malloc (may_alloc env) (junk_charge env) ((cfg_L c + 1) * (cfg_L c + 1)) = None \<or>
         malloc (may_alloc env) (junk_particle env) (cfg_n c) = None"
proof (cases "initializeGrid (may_alloc env) (junk_charge env) (cfg_L c + 1)")
  case (Inl e)
  with assms(1) have "e = Exit st" by (simp add: simulate_def Let_def)
  with Inl show ?thesis by (auto dest: initializeGrid_exit)
next
  case G: (Inr Qgrid)
  show ?thesis
  proof (cases "initializeParticles env c (cfg_L c + 1)")
    case (Inl e)
    with assms(1) G have "e = Exit st" by (simp add: simulate_def Let_def)
    with Inl assms(2) show ?thesis by (auto dest: initializeParticles_exit)
  next
    case (Inr particles)
    have "no_exit (simulate env c)"
      unfolding simulate_def Let_def G Inr bind_r_simps
      by (auto split: prod.splits intro!: no_exit_bind no_exit_for_each)
    with assms(1) show ?thesis by (simp add: no_exit_def)
  qed
qed

lemma simulate_returns_zero:
  assumes "simulate env c = Inr (validates, st)"
  shows "st = 0"
  using assms unfolding simulate_def Let_def
  by (auto simp: bind_r_eq_Inr split: prod.splits)

lemma no_exit_arg [simp]: "no_exit (arg argv i)"
  by (simp add: arg_def)

lemma no_exit_read_patch [simp]: "no_exit (read_patch env argv i)"
  unfolding read_patch_def by (intro no_exit_bind) simp_all

lemma parse_init_mode_exit:
  assumes "parse_init_mode env argv init_mode c args_used = Inl (Exit st)" "st \<noteq> 0"
  shows "init_mode = ''LINEAR'' \<and> int (length argv) < args_used + 2"
proof -
  have a: "arg argv i \<noteq> Inl (Exit st)" for i
    using no_exit_arg[of argv i] by (simp add: no_exit_def)
  have b: "read_patch env argv i \<noteq> Inl (Exit st)" for i
    using no_exit_read_patch[of env argv i] by (simp add: no_exit_def)
  show ?thesis
    using assms a b unfolding parse_init_mode_def Let_def
    by (auto simp: bind_r_eq_Inl FAILURE_def split: if_splits)
qed

lemma parse_population_change_exit:
  assumes "parse_population_change env argv c g args_used = Inl (Exit st)"
  shows "st = 0"
proof -
  have a: "arg argv i \<noteq> Inl (Exit st)" for i
    using no_exit_arg[of argv i] by (simp add: no_exit_def)
  have b: "read_patch env argv i \<noteq> Inl (Exit st)" for i
    using no_exit_read_patch[of env argv i] by (simp add: no_exit_def)
  show ?thesis
    using assms a b unfolding parse_population_change_def Let_def
    by (auto simp: bind_r_eq_Inl FAILURE_def split: if_splits)
qed

lemma parse_args_exit:
  assumes "parse_args env argv = Inl (Exit st)" "st \<noteq> 0"
  shows "int (length argv) < 6 \<or> (argv ! 6 = ''LINEAR'' \<and> int (length argv) < 9)"
proof (cases "int (length argv) < 6")
  case True
  then show ?thesis by simp
next
  case False
  have a: "arg argv i \<noteq> Inl (Exit st)" for i
    using no_exit_arg[of argv i] by (simp add: no_exit_def)
  have r: "arg argv i = Inr v \<Longrightarrow> v = argv ! nat i" for i v
    by (auto simp: arg_def array_get_def split: if_splits)
  from assms False a
  have p: "(\<exists>c. parse_init_mode env argv (argv ! 6) c 7 = Inl (Exit st)) \<or>
           (\<exists>c' g au. parse_population_change env argv c' g au = Inl (Exit st))"
    unfolding parse_args_def Let_def
    by (auto simp: bind_r_eq_Inl FAILURE_def dest!: r split: if_splits prod.splits)
  with assms(2) obtain c where "parse_init_mode env argv (argv ! 6) c 7 = Inl (Exit st)"
    by (auto dest: parse_population_change_exit)
  from parse_init_mode_exit[OF this assms(2)] show ?thesis by simp
qed

text \<open>
  C9. A run that passes the tests of its arguments and completes the simulation returns
  the status 0, whether the message is \<open>Solution validates\<close> or not; and a status other than
  0 occurs only for a malformed command line (fewer than six arguments, or \<open>LINEAR\<close> without
  its two parameters) or when an allocation of the grid or of the particles fails.
\<close>

theorem main_exit_status:
  "(main env argv = Inr (validates, st) \<longrightarrow> st = 0) \<and>
   (exit_status (main env argv) = Some st \<and> st \<noteq> 0 \<longrightarrow>
      int (length argv) < 6 \<or>
      (argv ! 6 = ''LINEAR'' \<and> int (length argv) < 9) \<or>
      (\<exists>c. parse_args env argv = Inr c \<and>
           (malloc (may_alloc env) (junk_charge env) ((cfg_L c + 1) * (cfg_L c + 1)) = None \<or>
            malloc (may_alloc env) (junk_particle env) (cfg_n c) = None)))"
proof (intro conjI impI)
  assume "main env argv = Inr (validates, st)"
  then show "st = 0"
    by (auto simp: main_def bind_r_eq_Inr dest: simulate_returns_zero)
next
  assume a: "exit_status (main env argv) = Some st \<and> st \<noteq> 0"
  show "int (length argv) < 6 \<or>
      (argv ! 6 = ''LINEAR'' \<and> int (length argv) < 9) \<or>
      (\<exists>c. parse_args env argv = Inr c \<and>
           (malloc (may_alloc env) (junk_charge env) ((cfg_L c + 1) * (cfg_L c + 1)) = None \<or>
            malloc (may_alloc env) (junk_particle env) (cfg_n c) = None))"
  proof (cases "main env argv")
    case (Inr r)
    obtain v st' where r: "r = (v, st')" by (cases r)
    have "st' = 0"
      using Inr r by (auto simp: main_def bind_r_eq_Inr dest: simulate_returns_zero)
    with a Inr r show ?thesis by (simp add: exit_status_def)
  next
    case (Inl e)
    with a have e: "e = Exit st" by (cases e) (simp_all add: exit_status_def)
    from Inl e have "parse_args env argv = Inl (Exit st) \<or>
        (\<exists>c. parse_args env argv = Inr c \<and> simulate env c = Inl (Exit st))"
      by (simp add: main_def bind_r_eq_Inl)
    then show ?thesis
    proof
      assume "parse_args env argv = Inl (Exit st)"
      from parse_args_exit[OF this] a show ?thesis by blast
    next
      assume "\<exists>c. parse_args env argv = Inr c \<and> simulate env c = Inl (Exit st)"
      then obtain c where c: "parse_args env argv = Inr c" "simulate env c = Inl (Exit st)"
        by blast
      from simulate_exit[OF c(2)] a c(1) show ?thesis by blast
    qed
  qed
qed

lemma main_usage: "main env [''pic''] = Inl (Exit 1)"
  by (simp add: main_def parse_args_def SUCCESS_def)

lemma main_no_memory:
  "main (test_env\<lparr>may_alloc := \<lambda>n. False\<rparr>) (run_args ''0'') = Inl (Exit 1)"
proof -
  have "parse_args (test_env\<lparr>may_alloc := \<lambda>n. False\<rparr>) (run_args ''0'') = Inr (run_config 0)"
    by (simp add: parse_args_def run_args_def arg_def array_get_def test_env_def test_atoi_def
      parse_init_mode_def read_patch_def bad_patch_def parse_population_change_def
      run_config_def config0_def Let_def)
  then show ?thesis
    by (simp add: main_def simulate_def initializeGrid_def malloc_def test_env_def
        EXIT_FAILURE_def Let_def)
qed

theorem main_exit_status_witness:
  "main test_env (run_args ''0'') = Inr (True, 0) \<and>
   main test_env (run_args ''-3'') = Inr (False, 0) \<and>
   exit_status (main test_env [''pic'']) = Some 1 \<and> int (length [''pic'']) < 6 \<and>
   exit_status (main no_memory_env (run_args ''0'')) = Some 1 \<and>
   (\<exists>c. parse_args no_memory_env (run_args ''0'') = Inr c \<and>
        (malloc (may_alloc no_memory_env) (junk_charge no_memory_env)
           ((cfg_L c + 1) * (cfg_L c + 1)) = None \<or>
         malloc (may_alloc no_memory_env) (junk_particle no_memory_env) (cfg_n c) = None))"
proof -
  have e: "exit_status (main no_memory_env (run_args ''0'')) = Some 1"
    "exit_status (main test_env [''pic'']) = Some 1"
    by (simp_all add: main_no_memory[folded no_memory_env_def] main_usage exit_status_def)
  have l: "\<not> int (length (run_args ''0'')) < 6" "\<not> int (length (run_args ''0'')) < 9"
    by (simp_all add: run_args_def)
  have "\<exists>c. parse_args no_memory_env (run_args ''0'') = Inr c \<and>
        (malloc (may_alloc no_memory_env) (junk_charge no_memory_env)
           ((cfg_L c + 1) * (cfg_L c + 1)) = None \<or>
         malloc (may_alloc no_memory_env) (junk_particle no_memory_env) (cfg_n c) = None)"
    using main_exit_status[of no_memory_env "run_args ''0''" True 1] e(1) l by simp
  then show ?thesis
    using main_exit_status[of test_env "run_args ''0''" True 0]
      main_exit_status[of test_env "run_args ''-3''" False 0]
      main_run_validates main_run_fails e by simp
qed

subsection \<open>Verification of a trajectory\<close>

lemma QG_grid3_top:
  "QG grid3 3 2 0 = Inr 1" "QG grid3 3 3 0 = Inr (- 1)" "QG grid3 3 2 1 = Inr (- 1)"
  "QG grid3 3 3 1 = Inr 1"
  by (simp_all add: QG_def QG_index_def array_get_def grid3_def numeral_eq_Suc)

lemma fmod_cell:
  assumes "0 \<le> a" "0 < L"
  shows "fmod (of_int a + 1/2) (of_int L) = of_int (a mod L) + 1/2"
proof -
  have r: "0 \<le> a mod L" "a mod L \<le> L - 1" using assms by simp_all
  have "real_of_int (a mod L) \<le> of_int L - 1" using r(2) by linarith
  then have b: "real_of_int (a mod L) + 1/2 < of_int L" by simp
  have c: "(0::real) \<le> of_int (a mod L) + 1/2" using r(1) by simp
  have d: "0 \<le> a div L" using assms by (simp add: pos_imp_zdiv_nonneg_iff)
  have "real_of_int a = of_int (a div L) * of_int L + of_int (a mod L)"
    by (metis div_mult_mod_eq of_int_add of_int_mult)
  then have e: "real_of_int a + 1/2 = of_int (a div L) * of_int L + (of_int (a mod L) + 1/2)"
    by simp
  have "fmod (of_int (a div L) * of_int L + (of_int (a mod L) + 1/2)) (of_int L)
          = of_int (a mod L) + 1/2"
    by (rule fmod_unique_nonneg) (use assms b c d in simp_all)
  then show ?thesis by (simp only: e)
qed

lemma charge_col_sq: "charge_col x * charge_col x = 1"
  by (simp add: charge_col_def Q_def)

lemma charge_col_Suc: "charge_col (x + 1) = - charge_col x"
  by (auto simp: charge_col_def Q_def) presburger+

lemma charge_col_mod:
  assumes "even L"
  shows "charge_col (a mod L) = charge_col a"
proof -
  have "a mod L mod 2 = a mod 2" using assms by (simp add: mod_mod_cancel)
  then show ?thesis by (simp add: charge_col_def)
qed

lemma charge_col_drift:
  "charge_col (cx + int j * (2 * k + 1)) = (if even j then charge_col cx else - charge_col cx)"
proof -
  have "cx + int j * (2 * k + 1) = (cx + int j) + 2 * (int j * k)"
    by (simp add: algebra_simps)
  then have "(cx + int j * (2 * k + 1)) mod 2 = (cx + int j) mod 2"
    by (simp only: mod_mult_self2)
  then show ?thesis
    by (auto simp: charge_col_def Q_def) presburger+
qed

lemma finish_particle_on_track:
  assumes "0 \<le> cx" "cx < L" "0 \<le> cy" "cy < L"
    and "p_x p = of_int cx + 1/2" "p_y p = of_int cy + 1/2"
    and "0 \<le> k" "k < 1073741824"
  shows "on_track L cx cy k m t0 0 (finish_particle t0 k m p)"
proof -
  have "(if cx mod 2 = 0 then 1 else - 1) = charge_col cx"
    by (simp add: charge_col_def Q_def)
  moreover have "int_32 (2 * k + 1) = 2 * k + 1"
    using assms(7,8) by (intro int_32_id) simp_all
  ultimately show ?thesis
    using assms(1-6)
    by (simp add: on_track_def finish_particle_eq fmod_unit_cell trunc_cell
        spec_charge_magnitude_half dt_def)
qed


lemma advance_on_track:
  assumes L: "2 \<le> L" "even L" and g: "g = L + 1" and grid: "dipole_grid g Qgrid"
    and k: "0 \<le> k" and m: "- L \<le> m" and tr: "on_track L cx cy k m t0 j p"
  shows "\<exists>p'. advance Qgrid g L p = Inr p' \<and> on_track L cx cy k m t0 (Suc j) p'"
proof -
  define a where "a = (cx + int j * (2 * k + 1)) mod L"
  define b where "b = (cy + int j * m) mod L"
  define K where "K = real_of_int (2 * k + 1)"
  define s where "s = sqrt (1/2 :: real)"
  have s0: "s \<noteq> 0" by (simp add: s_def)
  have L0: "0 < L" using L by simp
  have ab: "0 \<le> a" "a < L" "0 \<le> b" "b < L" using L0 by (simp_all add: a_def b_def)
  have px: "p_x p = of_int a + 1/2" and py: "p_y p = of_int b + 1/2"
    and vx: "p_v_x p = (if even j then 0 else 2 * K)" and vy: "p_v_y p = of_int m"
    and q: "p_q p = charge_col cx * K * (s / 2)"
    using tr by (simp_all add: on_track_def a_def b_def K_def s_def)
  have ca: "charge_col a = (if even j then charge_col cx else - charge_col cx)"
    unfolding a_def by (simp only: charge_col_mod[OF L(2)] charge_col_drift)
  have c: "QG Qgrid g b a = Inr (charge_col a)" "QG Qgrid g (b + 1) a = Inr (charge_col a)"
    "QG Qgrid g b (a + 1) = Inr (- charge_col a)" "QG Qgrid g (b + 1) (a + 1) = Inr (- charge_col a)"
    using grid ab g unfolding dipole_grid_def by (simp_all add: charge_col_Suc)
  have f: "computeTotalForce p g Qgrid
             = Inr ((charge_col a + charge_col a - (- charge_col a) - (- charge_col a)) * p_q p / s,
                    (charge_col a - charge_col a + (- charge_col a) - (- charge_col a)) * p_q p / s)"
    unfolding s_def by (rule computeTotalForce_half[OF px py c])
  have fx: "(charge_col a + charge_col a - (- charge_col a) - (- charge_col a)) * p_q p / s
              = (if even j then 2 * K else - (2 * K))"
  proof -
    have "(charge_col a + charge_col a - (- charge_col a) - (- charge_col a)) * p_q p / s
            = 2 * K * (charge_col a * charge_col cx) * (s / s)"
      unfolding q by (simp add: algebra_simps)
    also have "\<dots> = 2 * K * (charge_col a * charge_col cx)" using s0 by simp
    also have "\<dots> = (if even j then 2 * K else - (2 * K))"
      unfolding ca by (simp add: charge_col_sq)
    finally show ?thesis .
  qed
  have fy: "(charge_col a - charge_col a + (- charge_col a) - (- charge_col a)) * p_q p / s = 0"
    by simp
  let ?p' = "moveParticle p (if even j then 2 * K else - (2 * K)) 0 (of_int L)"
  have adv: "advance Qgrid g L p = Inr ?p'"
    unfolding advance_def f fx fy by (simp add: mass_inv_def)
  have xarg: "p_x p + p_v_x p * dt + 0.5 * (if even j then 2 * K else - (2 * K)) * dt * dt + of_int L
                = of_int (a + (2 * k + 1) + L) + 1/2"
    unfolding px vx by (simp add: dt_def K_def add_divide_distrib diff_divide_distrib)
  have yarg: "p_y p + p_v_y p * dt + 0.5 * 0 * dt * dt + of_int L = of_int (b + m + L) + 1/2"
    unfolding py vy by (simp add: dt_def)
  have xm: "(a + (2 * k + 1) + L) mod L = (cx + int (Suc j) * (2 * k + 1)) mod L"
  proof -
    have "(a + (2 * k + 1) + L) mod L = (a + (2 * k + 1)) mod L" by simp
    also have "\<dots> = (cx + int j * (2 * k + 1) + (2 * k + 1)) mod L"
      unfolding a_def by (simp only: mod_add_left_eq)
    also have "cx + int j * (2 * k + 1) + (2 * k + 1) = cx + int (Suc j) * (2 * k + 1)"
      by (simp add: algebra_simps)
    finally show ?thesis .
  qed
  have ym: "(b + m + L) mod L = (cy + int (Suc j) * m) mod L"
  proof -
    have "(b + m + L) mod L = (b + m) mod L" by simp
    also have "\<dots> = (cy + int j * m + m) mod L"
      unfolding b_def by (simp only: mod_add_left_eq)
    also have "cy + int j * m + m = cy + int (Suc j) * m"
      by (simp add: algebra_simps)
    finally show ?thesis .
  qed
  have nx: "0 \<le> a + (2 * k + 1) + L" using ab k L0 by simp
  have ny: "0 \<le> b + m + L" using ab m by simp
  have x': "p_x ?p' = of_int ((cx + int (Suc j) * (2 * k + 1)) mod L) + 1/2"
    unfolding moveParticle_fields xarg by (simp only: fmod_cell[OF nx L0] xm)
  have y': "p_y ?p' = of_int ((cy + int (Suc j) * m) mod L) + 1/2"
    unfolding moveParticle_fields yarg by (simp only: fmod_cell[OF ny L0] ym)
  have v': "p_v_x ?p' = (if even (Suc j) then 0 else 2 * of_int (2 * k + 1))"
    "p_v_y ?p' = of_int m"
    unfolding moveParticle_fields vx vy by (simp_all add: dt_def K_def)
  have rest: "p_q ?p' = charge_col cx * of_int (2 * k + 1) * (sqrt (1/2) / 2)"
    "p_x0 ?p' = of_int cx + 1/2" "p_y0 ?p' = of_int cy + 1/2"
    "p_k ?p' = k" "p_m ?p' = m" "p_initTimestamp ?p' = t0"
    using tr by (simp_all only: moveParticle_fields on_track_def)
  have "on_track L cx cy k m t0 (Suc j) ?p'"
    unfolding on_track_def by (intro conjI x' y' v' rest)
  with adv show ?thesis by blast
qed


lemma verifyParticle_on_track:
  assumes L: "2 \<le> L" and g: "g = L + 1" and grid: "dipole_grid g Qgrid"
    and c: "0 \<le> cx" "cx < L" "0 \<le> cy" "cy < L" and k: "0 \<le> k"
    and tr: "on_track L cx cy k m t0 j p"
  shows "verifyParticle p (t0 + int j) Qgrid g = Inr SUCCESS"
proof -
  define K where "K = 2 * k + 1"
  have L0: "0 < L" using L by simp
  have K0: "0 < K" using k by (simp add: K_def)
  have fl: "\<lfloor>p_x0 p\<rfloor> = cx" "\<lfloor>p_y0 p\<rfloor> = cy"
    using tr by (simp_all add: on_track_def floor_unique)
  have rd: "QG Qgrid g cy cx = Inr (charge_col cx)"
    using grid c g unfolding dipole_grid_def by simp
  have "p_q p * charge_col cx = (charge_col cx * charge_col cx) * (of_int K * (sqrt (1/2) / 2))"
    using tr by (simp add: on_track_def K_def)
  also have "\<dots> = of_int K * (sqrt (1/2) / 2)" by (simp only: charge_col_sq mult_1)
  also have "\<dots> > 0" using K0 by simp
  finally have pos: "p_q p * charge_col cx > 0" .
  have f: "p_x0 p = of_int cx + 1/2" "p_y0 p = of_int cy + 1/2" "p_k p = k" "p_m p = m"
    "p_initTimestamp p = t0"
    using tr by (simp_all add: on_track_def)
  have xa: "p_x0 p + of_int (int j * K) + of_int (int j * K) * of_int L
              = of_int (cx + int j * K + int j * K * L) + 1/2"
    unfolding f by simp
  have ya: "p_y0 p + of_int (m * int j) + of_int (int j) * \<bar>of_int m\<bar> * of_int L
              = of_int (cy + int j * m + int j * \<bar>m\<bar> * L) + (1/2 :: real)"
    unfolding f by (simp add: algebra_simps)
  have nx: "0 \<le> cx + int j * K + int j * K * L" using c K0 L0 by simp
  have "- m \<le> \<bar>m\<bar> * L"
  proof -
    have "- m \<le> \<bar>m\<bar>" by simp
    also have "\<bar>m\<bar> = \<bar>m\<bar> * 1" by simp
    also have "\<dots> \<le> \<bar>m\<bar> * L" using L by (intro mult_left_mono) simp_all
    finally show ?thesis .
  qed
  then have "0 \<le> int j * (m + \<bar>m\<bar> * L)" by simp
  then have ny: "0 \<le> cy + int j * m + int j * \<bar>m\<bar> * L" using c by (simp add: algebra_simps)
  have xm: "(cx + int j * K + int j * K * L) mod L = (cx + int j * K) mod L" by simp
  have ym: "(cy + int j * m + int j * \<bar>m\<bar> * L) mod L = (cy + int j * m) mod L" by simp
  have xe: "fmod (p_x0 p + of_int (int j * K) + of_int (int j * K) * of_int L) (of_int L)
              = of_int ((cx + int j * K) mod L) + 1/2"
    unfolding xa by (simp only: fmod_cell[OF nx L0] xm)
  have ye: "fmod (p_y0 p + of_int (m * int j) + of_int (int j) * \<bar>of_int m\<bar> * of_int L) (of_int L)
              = of_int ((cy + int j * m) mod L) + 1/2"
    unfolding ya by (simp only: fmod_cell[OF ny L0] ym)
  have ts: "t0 + int j - p_initTimestamp p = int j" using f(5) by simp
  have gl: "g - 1 = L" using g by simp
  have t: "periodic_target p (t0 + int j) Qgrid g
             = Inr (of_int ((cx + int j * K) mod L) + 1/2, of_int ((cy + int j * m) mod L) + 1/2)"
    unfolding periodic_target_def Let_def fl rd bind_r_simps ts gl f(3,4) K_def[symmetric]
    by (simp only: pos if_True xe ye)
  have "p_x p = of_int ((cx + int j * K) mod L) + 1/2" "p_y p = of_int ((cy + int j * m) mod L) + 1/2"
    using tr by (simp_all add: on_track_def K_def)
  then show ?thesis
    unfolding verifyParticle_def t by (simp add: epsilon_def)
qed

lemma evolve_on_track:
  assumes L: "2 \<le> L" "even L" and g: "g = L + 1" and grid: "dipole_grid g Qgrid"
    and k: "0 \<le> k" and m: "- L \<le> m" and tr: "on_track L cx cy k m t0 i p"
  shows "\<exists>p'. evolve Qgrid g L j p = Inr p' \<and> on_track L cx cy k m t0 (i + j) p'"
  using tr
proof (induction j arbitrary: i p)
  case 0
  then show ?case by simp
next
  case (Suc j)
  from advance_on_track[OF L g grid k m Suc.prems] obtain p1
    where a: "advance Qgrid g L p = Inr p1" and t: "on_track L cx cy k m t0 (Suc i) p1"
    by blast
  from Suc.IH[OF t] a show ?case by simp
qed

text \<open>In exact arithmetic the verification succeeds at every step for a particle created at
  the centre of a cell of \<open>[0, L)\<^sup>2\<close> with \<open>0 \<le> k < 2\<^sup>3\<^sup>0\<close> and \<open>m \<ge> - L\<close>, on the grid of
  \<open>initializeGrid\<close> for an even \<open>L \<ge> 2\<close>.\<close>

lemma trajectory_verifies:
  assumes "2 \<le> L" "even L" "g = L + 1" "dipole_grid g Qgrid"
    and "0 \<le> cx" "cx < L" "0 \<le> cy" "cy < L"
    and "p_x p = of_int cx + 1/2" "p_y p = of_int cy + 1/2"
    and "0 \<le> k" "- L \<le> m" "k < 1073741824"
  shows "\<exists>p'. evolve Qgrid g L j (finish_particle t0 k m p) = Inr p' \<and>
              verifyParticle p' (t0 + int j) Qgrid g = Inr SUCCESS"
proof -
  have "on_track L cx cy k m t0 0 (finish_particle t0 k m p)"
    by (rule finish_particle_on_track[OF assms(5-10) assms(11) assms(13)])
  from evolve_on_track[OF assms(1-4,11,12) this, of j] obtain p'
    where e: "evolve Qgrid g L j (finish_particle t0 k m p) = Inr p'"
      and t: "on_track L cx cy k m t0 j p'"
    by auto
  from verifyParticle_on_track[OF assms(1,3,4,5-8,11) t] e show ?thesis by blast
qed

lemma initializeGrid_dipole:
  assumes "0 \<le> g" "initializeGrid avail junk g = Inr Qgrid"
  shows "dipole_grid g Qgrid"
proof -
  have "avail (nat (g * g))"
    using assms by (auto simp: initializeGrid_def malloc_def split: if_splits)
  from initializeGrid_result[of g avail junk] assms this
  show ?thesis by (auto simp: dipole_grid_def)
qed

text \<open>
  C1. The claim: a particle completed by \<open>finish_distribution\<close> and then moved only by
  \<open>moveParticle\<close> under the force of \<open>computeTotalForce\<close> passes \<open>verifyParticle\<close> at every
  later step. With \<open>L = 2\<close> and the vertical velocity \<open>m = - 3\<close>, which \<open>main\<close> accepts, the
  particle created at \<open>(1/2, 1/2)\<close> is moved in one step to the ordinate \<open>- 1/2\<close>, where
  the verification expects \<open>3/2\<close>: the result is \<open>FAILURE\<close>.
\<close>

theorem verification_fails_after_leaving_domain:
  "initializeGrid (\<lambda>n. True) 0 3 = Inr grid3 \<and>
   finish_distribution 0 0 (- 3) 1 [(resting 0 0)\<lparr>p_x := 1/2, p_y := 1/2\<rparr>]
     = Inr [moving (1/2) (1/2) 0 (- 3)] \<and>
   evolve grid3 3 2 1 (moving (1/2) (1/2) 0 (- 3)) = Inr (moving (3/2) (- (1/2)) 2 (- 3)) \<and>
   verifyParticle (moving (3/2) (- (1/2)) 2 (- 3)) 1 grid3 3 = Inr FAILURE"
proof -
  have "evolve grid3 3 2 1 (moving (1/2) (1/2) 0 (- 3)) = Inr (moving (3/2) (- (1/2)) 2 (- 3))"
    using advance_first[of "- 3"] by (simp add: fmod_values)
  moreover have "verifyParticle (moving (3/2) (- (1/2)) 2 (- 3)) 1 grid3 3 = Inr FAILURE"
    by (simp add: verifyParticle_moving fmod_values epsilon_def)
  ultimately show ?thesis
    by (simp only: initializeGrid_3 finish_distribution_run simp_thms)
qed

text \<open>A second input: a particle injected in the row of index \<open>L\<close>, which a patch may
  contain since patches are checked against \<open>[0, g)\<close>. The charges read for its upper
  corners belong to the next column, the force vanishes and the particle does not drift.\<close>

lemma verification_fails_on_last_row:
  "finish_distribution 4 0 0 1 [(resting 0 0)\<lparr>p_x := 1/2, p_y := 5/2\<rparr>]
     = Inr [\<lparr>p_x = 1/2, p_y = 5/2, p_v_x = 0, p_v_y = 0, p_q = sqrt (1/2) / 2, p_x0 = 1/2,
             p_y0 = 5/2, p_k = 0, p_m = 0, p_initTimestamp = 4\<rparr>] \<and>
   evolve grid3 3 2 1 \<lparr>p_x = 1/2, p_y = 5/2, p_v_x = 0, p_v_y = 0, p_q = sqrt (1/2) / 2,
       p_x0 = 1/2, p_y0 = 5/2, p_k = 0, p_m = 0, p_initTimestamp = 4\<rparr>
     = Inr \<lparr>p_x = 1/2, p_y = 1/2, p_v_x = 0, p_v_y = 0, p_q = sqrt (1/2) / 2, p_x0 = 1/2,
            p_y0 = 5/2, p_k = 0, p_m = 0, p_initTimestamp = 4\<rparr> \<and>
   verifyParticle \<lparr>p_x = 1/2, p_y = 1/2, p_v_x = 0, p_v_y = 0, p_q = sqrt (1/2) / 2, p_x0 = 1/2,
       p_y0 = 5/2, p_k = 0, p_m = 0, p_initTimestamp = 4\<rparr> 5 grid3 3 = Inr FAILURE"
proof -
  let ?p = "\<lparr>p_x = 1/2, p_y = 5/2, p_v_x = 0, p_v_y = 0, p_q = sqrt (1/2) / 2, p_x0 = 1/2,
             p_y0 = 5/2, p_k = 0, p_m = 0, p_initTimestamp = 4\<rparr>"
  have f: "fmod (5/2) 1 = 1/2" using fmod_unique_nonneg[of 1 "1/2" 2] by simp
  have 1: "finish_distribution 4 0 0 1 [(resting 0 0)\<lparr>p_x := 1/2, p_y := 5/2\<rparr>] = Inr [?p]"
    by (simp add: finish_distribution_result finish_particle_eq fmod_half trunc_half f
        spec_charge_magnitude_half resting_def dt_def int_32_def)
  have "computeTotalForce ?p 3 grid3
          = Inr ((1 + - 1 - - 1 - 1) * (sqrt (1/2) / 2) / sqrt (1/2),
                 (1 - - 1 + - 1 - 1) * (sqrt (1/2) / 2) / sqrt (1/2))"
    using computeTotalForce_half[of ?p 0 2 grid3 3 1 "- 1" "- 1" 1]
    by (simp add: QG_grid3_top)
  also have "\<dots> = Inr (0, 0)" by simp
  finally have 2: "evolve grid3 3 2 1 ?p = Inr (?p\<lparr>p_y := 1/2\<rparr>)"
    by (simp add: advance_def moveParticle_def mass_inv_def dt_def fmod_values)
  have 3: "verifyParticle (?p\<lparr>p_y := 1/2\<rparr>) 5 grid3 3 = Inr FAILURE"
    by (simp add: verifyParticle_def periodic_target_def QG_grid3_top Let_def fmod_values
        epsilon_def)
  from 1 2 3 show ?thesis by simp
qed

end
